theory Spec2Isabelle
  imports Main "HOL-Library.Sublist" "HOL-Library.AList"
begin

section \<open>Scope aggregation (auth.js)\<close>

text \<open>
  An entry of \<^verbatim>\<open>endpoints.json\<close> as far as \<^verbatim>\<open>buildScopesFromEndpoints\<close> reads it:
  the flag \<^verbatim>\<open>requiresWorkAccount\<close> (its truthiness) and the optional array \<^verbatim>\<open>scopes\<close>
  (\<open>None\<close> when the field is absent or not an array). The catalog itself is data that is
  loaded at run time, so it is an argument of the model.
\<close>

record catalog_entry =
  requiresWorkAccount :: bool
  scopes :: "string list option"

text \<open>The constant table of auth.js, in the order of its keys.\<close>

definition SCOPE_HIERARCHY :: "(string \<times> string list) list" where
  "SCOPE_HIERARCHY =
    [(''Mail.ReadWrite'', [''Mail.Read'']),
     (''Calendars.ReadWrite'', [''Calendars.Read'']),
     (''Files.ReadWrite'', [''Files.Read'']),
     (''Tasks.ReadWrite'', [''Tasks.Read'']),
     (''Contacts.ReadWrite'', [''Contacts.Read''])]"

text \<open>
  A JavaScript \<^verbatim>\<open>Set\<close> of strings is a duplicate-free list in insertion order:
  \<^verbatim>\<open>add\<close> appends an element that is not yet there, \<^verbatim>\<open>delete\<close> removes it,
  \<^verbatim>\<open>Array.from\<close> reads the list.
\<close>

definition Set_add :: "'a \<Rightarrow> 'a list \<Rightarrow> 'a list" where
  "Set_add x xs = (if x \<in> set xs then xs else xs @ [x])"

definition Set_delete :: "'a \<Rightarrow> 'a list \<Rightarrow> 'a list" where
  "Set_delete x xs = removeAll x xs"

text \<open>The first \<^verbatim>\<open>forEach\<close>: one endpoint of the catalog.\<close>

definition collectEndpoint :: "bool \<Rightarrow> catalog_entry \<Rightarrow> string list \<Rightarrow> string list" where
  "collectEndpoint includeWorkAccountScopes endpoint scopesSet =
     (if requiresWorkAccount endpoint \<and> \<not> includeWorkAccountScopes then scopesSet
      else case scopes endpoint of
             None \<Rightarrow> scopesSet
           | Some ss \<Rightarrow> fold Set_add ss scopesSet)"

definition collectScopes :: "catalog_entry list \<Rightarrow> bool \<Rightarrow> string list" where
  "collectScopes endpoints includeWorkAccountScopes =
     fold (collectEndpoint includeWorkAccountScopes) endpoints []"

text \<open>The second \<^verbatim>\<open>forEach\<close>: one entry of the hierarchy.\<close>

definition collapseEntry :: "string \<times> string list \<Rightarrow> string list \<Rightarrow> string list" where
  "collapseEntry entry scopesSet =
     (case entry of (higherScope, lowerScopes) \<Rightarrow>
        if list_all (\<lambda>scope. scope \<in> set scopesSet) lowerScopes
        then Set_add higherScope (fold Set_delete lowerScopes scopesSet)
        else scopesSet)"

definition buildScopesWith ::
  "(string \<times> string list) list \<Rightarrow> catalog_entry list \<Rightarrow> bool \<Rightarrow> string list" where
  "buildScopesWith hierarchy endpoints includeWorkAccountScopes =
     fold collapseEntry hierarchy (collectScopes endpoints includeWorkAccountScopes)"

definition buildScopesFromEndpoints :: "catalog_entry list \<Rightarrow> bool \<Rightarrow> string list" where
  "buildScopesFromEndpoints = buildScopesWith SCOPE_HIERARCHY"

text \<open>
  A scope is granted by the catalog when an endpoint that is not skipped lists it.
\<close>

definition grants :: "catalog_entry list \<Rightarrow> bool \<Rightarrow> string \<Rightarrow> bool" where
  "grants endpoints includeWorkAccountScopes scope =
     list_ex (\<lambda>e. (\<not> requiresWorkAccount e \<or> includeWorkAccountScopes) \<and>
                  (case scopes e of None \<Rightarrow> False | Some ss \<Rightarrow> scope \<in> set ss)) endpoints"

text \<open>
  The entries of a hierarchy do not interfere when no scope is listed as a lower scope
  twice and no higher scope is also a lower scope.
\<close>

definition independent :: "(string \<times> string list) list \<Rightarrow> bool" where
  "independent hierarchy =
     (distinct (concat (map snd hierarchy)) \<and>
      list_all (\<lambda>h. h \<notin> set (concat (map snd hierarchy))) (map fst hierarchy))"

section \<open>JavaScript values and the platform\<close>

text \<open>
  Values that travel as JSON (tool parameters, Graph payloads). A string is the sequence of
  the bytes of its UTF-8 encoding; a number is an integer (fractions and non-finite numbers
  are outside the model); an object is the list of its own properties in insertion order,
  with distinct keys. \<open>JUndefined\<close> is the result of reading a missing property.
\<close>

datatype jsval =
    JUndefined
  | JNull
  | JBool bool
  | JNum int
  | JStr string
  | JArr "jsval list"
  | JObj "(string \<times> jsval) list"

text \<open>
  A thrown value is an Error object, of which the code reads the message only, or one of
  the values \<^verbatim>\<open>undefined\<close> and \<^verbatim>\<open>null\<close>, which is what a promise rejected without a
  reason carries. Other thrown values are outside the model. The messages of the errors
  that the engine itself throws are those of V8, except the one for writing a property of a
  primitive, which is shortened; it is only ever logged.
\<close>

datatype exn = Error string | TypeError string | SyntaxError string
  | ThrownUndefined | ThrownNull

text \<open>A value that may be \<^verbatim>\<open>undefined\<close> or \<^verbatim>\<open>null\<close>.\<close>

datatype 'a nullable = Undefined | Null | Defined 'a

text \<open>The message of the TypeError for reading a property of \<^verbatim>\<open>undefined\<close> or \<^verbatim>\<open>null\<close>.\<close>

definition cannotRead :: "string \<Rightarrow> string \<Rightarrow> string" where
  "cannotRead nullish key =
     ''Cannot read properties of '' @ nullish @ '' (reading '' @ [CHR 0x27] @ key @ [CHR 0x27] @ '')''"

text \<open>
  The expression \<^verbatim>\<open>error.message\<close> on a caught value: reading a property of
  \<^verbatim>\<open>undefined\<close> or \<^verbatim>\<open>null\<close> throws.
\<close>

fun error_message :: "exn \<Rightarrow> exn + string" where
  "error_message (Error m) = Inr m"
| "error_message (TypeError m) = Inr m"
| "error_message (SyntaxError m) = Inr m"
| "error_message ThrownUndefined = Inl (TypeError (cannotRead ''undefined'' ''message''))"
| "error_message ThrownNull = Inl (TypeError (cannotRead ''null'' ''message''))"

record url =
  pathname :: string
  searchParams :: "(string \<times> string) list"

text \<open>
  The built-ins of the JavaScript engine that the code calls and that are not written out
  here are arguments of the model: \<^verbatim>\<open>JSON.parse\<close> (a SyntaxError on bad input),
  \<^verbatim>\<open>JSON.stringify\<close>, the conversion of a number to a string,
  \<^verbatim>\<open>String.prototype.toLowerCase\<close> and \<^verbatim>\<open>toUpperCase\<close>, \<^verbatim>\<open>new URL\<close>
  (a TypeError on an invalid URL; \<open>searchParams\<close> are its decoded entries in order) and
  \<^verbatim>\<open>new RegExp(pattern, flags)\<close> (a SyntaxError on an invalid pattern; the result is
  the \<^verbatim>\<open>test\<close> function of the compiled expression, which is stateless without the
  flags \<^verbatim>\<open>g\<close> and \<^verbatim>\<open>y\<close>).
\<close>

record platform =
  JSON_parse :: "string \<Rightarrow> exn + jsval"
  JSON_stringify :: "jsval \<Rightarrow> string"
  Number_toString :: "int \<Rightarrow> string"
  toLowerCase :: "string \<Rightarrow> string"
  toUpperCase :: "string \<Rightarrow> string"
  new_URL :: "string \<Rightarrow> exn + url"
  new_RegExp :: "string \<Rightarrow> string \<Rightarrow> exn + (string \<Rightarrow> bool)"

definition bindE :: "exn + 'a \<Rightarrow> ('a \<Rightarrow> exn + 'b) \<Rightarrow> exn + 'b" where
  "bindE m f = (case m of Inl e \<Rightarrow> Inl e | Inr x \<Rightarrow> f x)"

text \<open>
  \<^verbatim>\<open>ToString\<close>, as a template literal and \<^verbatim>\<open>encodeURIComponent\<close> apply it. An array
  joins its elements with commas (\<^verbatim>\<open>null\<close> and \<^verbatim>\<open>undefined\<close> as empty strings); a
  plain object gives \<^verbatim>\<open>[object Object]\<close>, unless it has an own property
  \<^verbatim>\<open>toString\<close>, which coming from JSON is not callable, and then the conversion
  throws.
\<close>

fun ToString :: "platform \<Rightarrow> jsval \<Rightarrow> exn + string"
  and Array_join :: "platform \<Rightarrow> jsval list \<Rightarrow> exn + string" where
  "ToString P JUndefined = Inr ''undefined''"
| "ToString P JNull = Inr ''null''"
| "ToString P (JBool b) = Inr (if b then ''true'' else ''false'')"
| "ToString P (JNum n) = Inr (Number_toString P n)"
| "ToString P (JStr s) = Inr s"
| "ToString P (JArr xs) = Array_join P xs"
| "ToString P (JObj kvs) =
     (if ''toString'' \<in> fst ` set kvs
      then Inl (TypeError ''Cannot convert object to primitive value'')
      else Inr ''[object Object]'')"
| "Array_join P [] = Inr []"
| "Array_join P (x # xs) =
     (case (if x = JNull \<or> x = JUndefined then Inr [] else ToString P x) of
        Inl e \<Rightarrow> Inl e
      | Inr s \<Rightarrow>
          (if xs = [] then Inr s
           else (case Array_join P xs of Inl e \<Rightarrow> Inl e | Inr r \<Rightarrow> Inr (s @ '','' @ r))))"

fun truthy :: "jsval \<Rightarrow> bool" where
  "truthy JUndefined = False"
| "truthy JNull = False"
| "truthy (JBool b) = b"
| "truthy (JNum n) = (n \<noteq> 0)"
| "truthy (JStr s) = (s \<noteq> [])"
| "truthy (JArr xs) = True"
| "truthy (JObj kvs) = True"

text \<open>
  Reading, writing and deleting a property. They are used with the keys \<^verbatim>\<open>value\<close>,
  \<^verbatim>\<open>@odata.nextLink\<close> and \<^verbatim>\<open>@odata.count\<close> only, which no prototype defines, so a
  primitive or an array reads \<^verbatim>\<open>undefined\<close>. The file is an ES module, hence strict:
  writing a property of a primitive throws. A property written on an array under one of
  these keys is never read back and is not serialised, so the array is unchanged.
\<close>

fun js_get :: "jsval \<Rightarrow> string \<Rightarrow> exn + jsval" where
  "js_get JUndefined k = Inl (TypeError (cannotRead ''undefined'' k))"
| "js_get JNull k = Inl (TypeError (cannotRead ''null'' k))"
| "js_get (JObj kvs) k = Inr (case map_of kvs k of None \<Rightarrow> JUndefined | Some v \<Rightarrow> v)"
| "js_get v k = Inr JUndefined"

fun js_set :: "jsval \<Rightarrow> string \<Rightarrow> jsval \<Rightarrow> exn + jsval" where
  "js_set (JObj kvs) k v = Inr (JObj (AList.update k v kvs))"
| "js_set (JArr xs) k v = Inr (JArr xs)"
| "js_set JUndefined k v =
     Inl (TypeError (''Cannot set properties of undefined (setting '' @ [CHR 0x27] @ k @ [CHR 0x27] @ '')''))"
| "js_set JNull k v =
     Inl (TypeError (''Cannot set properties of null (setting '' @ [CHR 0x27] @ k @ [CHR 0x27] @ '')''))"
| "js_set x k v = Inl (TypeError (''Cannot create property '' @ [CHR 0x27] @ k @ [CHR 0x27]))"

fun js_delete :: "jsval \<Rightarrow> string \<Rightarrow> jsval" where
  "js_delete (JObj kvs) k = JObj (AList.delete k kvs)"
| "js_delete v k = v"

text \<open>The number of UTF-16 code units of a string given by its UTF-8 bytes.\<close>

definition utf16_units :: "char \<Rightarrow> nat" where
  "utf16_units c =
     (if (of_char c :: nat) < 128 then 1
      else if (of_char c :: nat) < 192 then 0
      else if (of_char c :: nat) < 240 then 1
      else 2)"

definition String_length :: "string \<Rightarrow> nat" where
  "String_length s = sum_list (map utf16_units s)"

text \<open>\<^verbatim>\<open>allItems.length\<close> and \<^verbatim>\<open>allItems.concat(array)\<close> on a truthy value.\<close>

fun js_length :: "jsval \<Rightarrow> jsval" where
  "js_length (JArr xs) = JNum (int (length xs))"
| "js_length (JStr s) = JNum (int (String_length s))"
| "js_length (JObj kvs) = (case map_of kvs ''length'' of None \<Rightarrow> JUndefined | Some v \<Rightarrow> v)"
| "js_length v = JUndefined"

fun js_concat :: "platform \<Rightarrow> jsval \<Rightarrow> jsval list \<Rightarrow> exn + jsval" where
  "js_concat P (JArr xs) ys = Inr (JArr (xs @ ys))"
| "js_concat P (JStr s) ys = bindE (ToString P (JArr ys)) (\<lambda>t. Inr (JStr (s @ t)))"
| "js_concat P v ys = Inl (TypeError ''allItems.concat is not a function'')"

text \<open>
  \<^verbatim>\<open>String.prototype.replace\<close> with a string pattern: the first occurrence only. The
  replacement is inserted as it is, which is what JavaScript does when it contains no
  \<^verbatim>\<open>$\<close>; every replacement the code passes is free of \<^verbatim>\<open>$\<close> (lemma
  \<open>percentEncode_safe\<close> below, and the empty string).
\<close>

fun String_replace :: "string \<Rightarrow> string \<Rightarrow> string \<Rightarrow> string" where
  "String_replace pat rep [] = (if pat = [] then rep else [])"
| "String_replace pat rep (c # cs) =
     (if prefix pat (c # cs) then rep @ drop (length pat) (c # cs)
      else c # String_replace pat rep cs)"

text \<open>
  \<^verbatim>\<open>encodeURIComponent\<close>: every byte of the UTF-8 encoding is written as
  \<^verbatim>\<open>%XX\<close>, except the unreserved ASCII characters.
\<close>

definition unreserved :: "char list" where
  "unreserved = ''ABCDEFGHIJKLMNOPQRSTUVWXYZ'' @ ''abcdefghijklmnopqrstuvwxyz'' @
                ''0123456789'' @ ''-_.!~*'' @ [CHR 0x27] @ ''()''"

definition hexDigit :: "nat \<Rightarrow> char" where
  "hexDigit n = ''0123456789ABCDEF'' ! (n mod 16)"

definition encodeByte :: "char \<Rightarrow> string" where
  "encodeByte c =
     (if c \<in> set unreserved then [c]
      else [CHR ''%'', hexDigit ((of_char c :: nat) div 16), hexDigit (of_char c)])"

definition percentEncode :: "string \<Rightarrow> string" where
  "percentEncode s = concat (map encodeByte s)"

definition encodeURIComponent :: "platform \<Rightarrow> jsval \<Rightarrow> exn + string" where
  "encodeURIComponent P v = bindE (ToString P v) (\<lambda>s. Inr (percentEncode s))"

text \<open>
  \<^verbatim>\<open>Object.entries\<close> of an object with string values: the keys that are array indices
  come first, in ascending numeric order, then the other keys in insertion order.
\<close>

definition decimalValue :: "string \<Rightarrow> nat" where
  "decimalValue k = fold (\<lambda>c n. 10 * n + (of_char c - 48)) k 0"

definition isArrayIndex :: "string \<Rightarrow> bool" where
  "isArrayIndex k =
     (k \<noteq> [] \<and> list_all (\<lambda>c. c \<in> set ''0123456789'') k \<and>
      (k = ''0'' \<or> hd k \<noteq> CHR ''0'') \<and> decimalValue k < 2 ^ 32 - 1)"

definition Object_entries :: "(string \<times> 'v) list \<Rightarrow> (string \<times> 'v) list" where
  "Object_entries kvs =
     sort_key (\<lambda>kv. decimalValue (fst kv)) (filter (\<lambda>kv. isArrayIndex (fst kv)) kvs) @
     filter (\<lambda>kv. \<not> isArrayIndex (fst kv)) kvs"

fun Array_join_strings :: "string \<Rightarrow> string list \<Rightarrow> string" where
  "Array_join_strings sep [] = []"
| "Array_join_strings sep [s] = s"
| "Array_join_strings sep (s # t # ts) = s @ sep @ Array_join_strings sep (t # ts)"

section \<open>The endpoint catalog and its load (index.js)\<close>

text \<open>
  Validation schemas, as far as the code builds them; \<open>ZNamed\<close> is a schema of the
  generated client, which the code only passes on.
\<close>

datatype zod =
    ZString
  | ZBoolean
  | ZAny
  | ZNamed string
  | ZUnion "zod list"
  | ZDescribe zod string
  | ZOptional zod

record parameter =
  name :: string
  type :: string
  schema :: "zod option"
  description :: "string option"

record endpoint_error =
  err_description :: "string option"

record endpoint =
  tool_alias :: string
  "method" :: string
  path :: string
  tool_description :: "string option"
  parameters :: "parameter list option"
  errors :: "endpoint_error list option"

text \<open>\<^verbatim>\<open>name.replace(/[$_]+/g, '')\<close>: every dollar sign and underscore is removed.\<close>

definition stripMarkers :: "string \<Rightarrow> string" where
  "stripMarkers s = filter (\<lambda>c. c \<noteq> CHR ''$'' \<and> c \<noteq> CHR ''_'') s"

definition alnum :: "char \<Rightarrow> bool" where
  "alnum c \<longleftrightarrow> c \<in> set (''abcdefghijklmnopqrstuvwxyz'' @ ''ABCDEFGHIJKLMNOPQRSTUVWXYZ'' @ ''0123456789'')"

text \<open>
  The \<^verbatim>\<open>exec\<close> loop of \<^verbatim>\<open>/:([a-zA-Z0-9]+)/g\<close>: from left to right, each colon that is
  followed by at least one letter or digit gives the longest such run, and the search goes
  on behind it.
\<close>

function pathParamMatches :: "string \<Rightarrow> string list" where
  "pathParamMatches [] = []"
| "pathParamMatches (c # cs) =
     (if c = CHR '':'' \<and> takeWhile alnum cs \<noteq> []
      then takeWhile alnum cs # pathParamMatches (dropWhile alnum cs)
      else pathParamMatches cs)"
  by pat_completeness auto
termination
  by (relation "measure length") (auto simp: length_dropWhile_le less_Suc_eq_le)

definition newParam :: "string \<Rightarrow> parameter" where
  "newParam pathParam =
     \<lparr>name = pathParam, type = ''Path'',
      schema = Some (ZDescribe ZString (''Path parameter: '' @ pathParam)),
      description = Some (''Path parameter: '' @ pathParam)\<rparr>"

definition addPathParam :: "string \<Rightarrow> parameter list \<Rightarrow> parameter list" where
  "addPathParam pathParam params =
     (if list_ex (\<lambda>param. name param = pathParam \<or> name param = stripMarkers pathParam) params
      then params
      else params @ [newParam pathParam])"

definition Zodios_endpoint :: "endpoint \<Rightarrow> endpoint" where
  "Zodios_endpoint e =
     e\<lparr>parameters :=
         Some (fold addPathParam (pathParamMatches (path e))
                 (map (\<lambda>parameter. parameter\<lparr>name := stripMarkers (name parameter)\<rparr>)
                    (case parameters e of None \<Rightarrow> [] | Some ps \<Rightarrow> ps)))\<rparr>"

text \<open>The constructor: a string as first argument is refused.\<close>

definition Zodios :: "string + endpoint list \<Rightarrow> exn + endpoint list" where
  "Zodios baseUrlOrEndpoints =
     (case baseUrlOrEndpoints of
        Inl baseUrl \<Rightarrow> Inl (Error ''No such hack'')
      | Inr endpoints \<Rightarrow> Inr (map Zodios_endpoint endpoints))"

section \<open>Tool registration and the request translator (graph-tools.js)\<close>

subsection \<open>The transport and the tool-calling host\<close>

record request_options =
  opt_method :: string
  opt_headers :: "(string \<times> string) list"
  opt_body :: "string option"
  opt_rawResponse :: bool
  opt_queryParams :: "(string \<times> string) list option"

record content_item =
  item_type :: string
  item_text :: string

text \<open>
  What \<^verbatim>\<open>graphClient.graphRequest\<close> resolves to: a response object, \<^verbatim>\<open>undefined\<close> or
  \<^verbatim>\<open>null\<close>. The fields \<open>content\<close> and \<open>isError\<close> of a response may be missing
  (\<^verbatim>\<open>undefined\<close>) or \<^verbatim>\<open>null\<close> as well; \<open>meta\<close> is the field \<^verbatim>\<open>_meta\<close>.
\<close>

record mcp_response =
  content :: "content_item list nullable"
  meta :: jsval
  isError :: "bool nullable"

text \<open>
  The Graph client is a collaborator: a function of its own state, the path and the
  options, which throws or returns a response. The model records every request it issues.
\<close>

type_synonym 'e transport =
  "'e \<Rightarrow> string \<Rightarrow> request_options \<Rightarrow> (exn + mcp_response nullable) \<times> 'e"

record 'e world =
  env :: 'e
  sent :: "(string \<times> request_options) list"

definition graphRequest ::
  "'e transport \<Rightarrow> string \<Rightarrow> request_options \<Rightarrow> 'e world
     \<Rightarrow> (exn + mcp_response nullable) \<times> 'e world" where
  "graphRequest T p options w =
     (case T (env w) p options of
        (r, e') \<Rightarrow> (r, \<lparr>env = e', sent = sent w @ [(p, options)]\<rparr>))"

text \<open>The \<^verbatim>\<open>CallToolResult\<close> of a handler; \<open>res_meta\<close> is \<open>None\<close> when the key is absent.\<close>

record tool_result =
  res_content :: "content_item list"
  res_meta :: "jsval option"
  res_isError :: "bool nullable"

subsection \<open>Translation of the parameter bag\<close>

definition odataParams :: "string list" where
  "odataParams = [''filter'', ''select'', ''expand'', ''orderby'', ''skip'', ''top'',
                  ''count'', ''search'', ''format'']"

definition fixedParamName :: "platform \<Rightarrow> string \<Rightarrow> string" where
  "fixedParamName P paramName =
     (if toLowerCase P paramName \<in> set odataParams
      then ''$'' @ toLowerCase P paramName
      else paramName)"

text \<open>A body given as a string is parsed as JSON; when that fails the string itself is kept.\<close>

definition bodyValue :: "platform \<Rightarrow> jsval \<Rightarrow> jsval" where
  "bodyValue P paramValue =
     (case paramValue of
        JStr s \<Rightarrow> (case JSON_parse P s of Inl e \<Rightarrow> paramValue | Inr v \<Rightarrow> v)
      | _ \<Rightarrow> paramValue)"

record translation =
  t_path :: string
  t_queryParams :: "(string \<times> string) list"
  t_headers :: "(string \<times> string) list"
  t_body :: jsval

text \<open>
  One round of the loop over \<^verbatim>\<open>Object.entries(params)\<close>. The sanitised names of the
  catalog contain neither \<^verbatim>\<open>$\<close> nor \<^verbatim>\<open>_\<close>, so the key \<^verbatim>\<open>__proto__\<close> is never
  written and the assignments to \<^verbatim>\<open>queryParams\<close> and \<^verbatim>\<open>headers\<close> are plain updates.
\<close>

definition translateParam ::
  "platform \<Rightarrow> parameter list \<Rightarrow> translation \<Rightarrow> string \<times> jsval \<Rightarrow> exn + translation" where
  "translateParam P parameterDefinitions st entry =
     (case entry of (paramName, paramValue) \<Rightarrow>
        if paramName = ''fetchAllPages'' then Inr st
        else
          (case find (\<lambda>p. name p = paramName) parameterDefinitions of
             Some paramDef \<Rightarrow>
               if type paramDef = ''Path'' then
                 bindE (encodeURIComponent P paramValue) (\<lambda>enc.
                   Inr (st\<lparr>t_path :=
                     String_replace ('':'' @ paramName) enc
                       (String_replace (''{'' @ paramName @ ''}'') enc (t_path st))\<rparr>))
               else if type paramDef = ''Query'' then
                 bindE (ToString P paramValue) (\<lambda>s.
                   Inr (st\<lparr>t_queryParams :=
                     AList.update (fixedParamName P paramName) s (t_queryParams st)\<rparr>))
               else if type paramDef = ''Body'' then
                 Inr (st\<lparr>t_body := bodyValue P paramValue\<rparr>)
               else if type paramDef = ''Header'' then
                 bindE (ToString P paramValue) (\<lambda>s.
                   Inr (st\<lparr>t_headers :=
                     AList.update (fixedParamName P paramName) s (t_headers st)\<rparr>))
               else Inr st
           | None \<Rightarrow>
               if paramName = ''body'' then Inr (st\<lparr>t_body := bodyValue P paramValue\<rparr>)
               else Inr st))"

fun translateParams ::
  "platform \<Rightarrow> parameter list \<Rightarrow> translation \<Rightarrow> (string \<times> jsval) list \<Rightarrow> exn + translation" where
  "translateParams P defs st [] = Inr st"
| "translateParams P defs st (entry # entries) =
     (case translateParam P defs st entry of
        Inl e \<Rightarrow> Inl e
      | Inr st' \<Rightarrow> translateParams P defs st' entries)"

definition queryString :: "(string \<times> string) list \<Rightarrow> string" where
  "queryString queryParams =
     Array_join_strings ''&''
       (map (\<lambda>(key, v). percentEncode key @ ''='' @ percentEncode v)
          (Object_entries queryParams))"

definition isProbablyMediaContent :: "endpoint \<Rightarrow> string \<Rightarrow> bool" where
  "isProbablyMediaContent tool p =
     ((case errors tool of
         None \<Rightarrow> False
       | Some es \<Rightarrow> list_ex (\<lambda>e. err_description e = Some ''Retrieved media content'') es)
      \<or> suffix ''/content'' p)"

text \<open>
  Lines 48 to 135 of the handler: the path with its query string, and the options. The
  parameter bag is the list \<^verbatim>\<open>Object.entries(params)\<close>.
\<close>

definition translate ::
  "platform \<Rightarrow> endpoint \<Rightarrow> (string \<times> jsval) list \<Rightarrow> exn + string \<times> request_options" where
  "translate P tool params =
     bindE (translateParams P (case parameters tool of None \<Rightarrow> [] | Some ps \<Rightarrow> ps)
              \<lparr>t_path = path tool, t_queryParams = [], t_headers = [], t_body = JNull\<rparr> params)
       (\<lambda>st.
          let p = (if t_queryParams st \<noteq> []
                   then t_path st @ (if CHR ''?'' \<in> set (t_path st) then ''&'' else ''?'')
                        @ queryString (t_queryParams st)
                   else t_path st);
              m = toUpperCase P (method tool)
          in Inr (p,
               \<lparr>opt_method = m,
                opt_headers = t_headers st,
                opt_body =
                  (if m \<noteq> ''GET'' \<and> truthy (t_body st)
                   then Some (case t_body st of JStr s \<Rightarrow> s | b \<Rightarrow> JSON_stringify P b)
                   else None),
                opt_rawResponse = isProbablyMediaContent tool p,
                opt_queryParams = None\<rparr>))"

subsection \<open>Pagination\<close>

text \<open>\<^verbatim>\<open>response && response.content && response.content.length > 0\<close>, with the first item.\<close>

definition firstItem ::
  "mcp_response nullable \<Rightarrow> (content_item \<times> content_item list) option" where
  "firstItem response =
     (case response of
        Defined r \<Rightarrow>
          (case content r of
             Defined (item # rest) \<Rightarrow> Some (item, rest)
           | _ \<Rightarrow> None)
      | _ \<Rightarrow> None)"

datatype page_step = Thrown exn | Break | Next jsval jsval

text \<open>
  The body of the \<^verbatim>\<open>while\<close> loop up to the update of \<^verbatim>\<open>nextLink\<close>: it throws, leaves
  the loop (an empty follow-up response), or gives the new \<^verbatim>\<open>allItems\<close> and \<^verbatim>\<open>nextLink\<close>.
\<close>

definition fetchNextPage ::
  "platform \<Rightarrow> 'e transport \<Rightarrow> request_options \<Rightarrow> jsval \<Rightarrow> jsval \<Rightarrow> 'e world
     \<Rightarrow> page_step \<times> 'e world" where
  "fetchNextPage P T options allItems nextLink w =
     (case bindE (ToString P nextLink) (new_URL P) of
        Inl e \<Rightarrow> (Thrown e, w)
      | Inr u \<Rightarrow>
          (case graphRequest T (String_replace ''/v1.0'' [] (pathname u))
                  (options\<lparr>opt_queryParams :=
                     Some (fold (\<lambda>(key, v). AList.update key v) (searchParams u) [])\<rparr>) w of
             (Inl e, w') \<Rightarrow> (Thrown e, w')
           | (Inr nextResponse, w') \<Rightarrow>
               (case firstItem nextResponse of
                  None \<Rightarrow> (Break, w')
                | Some (item, rest) \<Rightarrow>
                    (case JSON_parse P (item_text item) of
                       Inl e \<Rightarrow> (Thrown e, w')
                     | Inr nextJsonResponse \<Rightarrow>
                         (case js_get nextJsonResponse ''value'' of
                            Inl e \<Rightarrow> (Thrown e, w')
                          | Inr v \<Rightarrow>
                              (case (case v of
                                       JArr ys \<Rightarrow> js_concat P allItems ys
                                     | _ \<Rightarrow> Inr allItems) of
                                 Inl e \<Rightarrow> (Thrown e, w')
                               | Inr allItems' \<Rightarrow>
                                   (case js_get nextJsonResponse ''@odata.nextLink'' of
                                      Inl e \<Rightarrow> (Thrown e, w')
                                    | Inr nextLink' \<Rightarrow> (Next allItems' nextLink', w'))))))))"

text \<open>
  The loop. \<open>pageCount\<close> starts at 1 and counts the first page; the loop is left when it
  exceeds 100. The result is the pair of \<^verbatim>\<open>allItems\<close> and \<^verbatim>\<open>pageCount\<close>.
\<close>

function fetchPages ::
  "platform \<Rightarrow> 'e transport \<Rightarrow> request_options \<Rightarrow> jsval \<Rightarrow> jsval \<Rightarrow> nat \<Rightarrow> 'e world
     \<Rightarrow> (exn + jsval \<times> nat) \<times> 'e world" where
  "fetchPages P T options allItems nextLink pageCount w =
     (if \<not> truthy nextLink then (Inr (allItems, pageCount), w)
      else
        (case fetchNextPage P T options allItems nextLink w of
           (Thrown e, w') \<Rightarrow> (Inl e, w')
         | (Break, w') \<Rightarrow> (Inr (allItems, pageCount), w')
         | (Next allItems' nextLink', w') \<Rightarrow>
             if pageCount + 1 > 100 then (Inr (allItems', pageCount + 1), w')
             else fetchPages P T options allItems' nextLink' (pageCount + 1) w'))"
  by pat_completeness auto
termination
  by (relation "measure (\<lambda>(P, T, options, allItems, nextLink, pageCount, w). 100 - pageCount)")
     auto

text \<open>Lines 172 to 176: the combined payload.\<close>

definition combine :: "jsval \<Rightarrow> jsval \<Rightarrow> exn + jsval" where
  "combine combinedResponse allItems =
     bindE (js_set combinedResponse ''value'' allItems) (\<lambda>c1.
     bindE (js_get c1 ''@odata.count'') (\<lambda>cnt.
     bindE (if truthy cnt then js_set c1 ''@odata.count'' (js_length allItems) else Inr c1) (\<lambda>c2.
     Inr (js_delete c2 ''@odata.nextLink''))))"

text \<open>
  Lines 141 to 176, for the first item of the first response: the combined payload, before
  it is serialised.
\<close>

definition combinedResponse ::
  "platform \<Rightarrow> 'e transport \<Rightarrow> request_options \<Rightarrow> content_item \<Rightarrow> 'e world
     \<Rightarrow> (exn + jsval) \<times> 'e world" where
  "combinedResponse P T options item w =
     (case JSON_parse P (item_text item) of
        Inl e \<Rightarrow> (Inl e, w)
      | Inr firstPage \<Rightarrow>
          (case js_get firstPage ''value'' of
             Inl e \<Rightarrow> (Inl e, w)
           | Inr v \<Rightarrow>
               (case js_get firstPage ''@odata.nextLink'' of
                  Inl e \<Rightarrow> (Inl e, w)
                | Inr nextLink \<Rightarrow>
                    (case fetchPages P T options (if truthy v then v else JArr []) nextLink 1 w of
                       (Inl e, w') \<Rightarrow> (Inl e, w')
                     | (Inr (allItems, pageCount), w') \<Rightarrow> (combine firstPage allItems, w')))))"

text \<open>
  The body of the \<^verbatim>\<open>try\<close> of lines 140 to 179: the response with the text of its first
  item replaced by the serialised combined payload.
\<close>

definition paginate_try ::
  "platform \<Rightarrow> 'e transport \<Rightarrow> request_options \<Rightarrow> mcp_response \<Rightarrow> content_item
     \<Rightarrow> content_item list \<Rightarrow> 'e world \<Rightarrow> (exn + mcp_response) \<times> 'e world" where
  "paginate_try P T options response item rest w =
     (case combinedResponse P T options item w of
        (Inl e, w') \<Rightarrow> (Inl e, w')
      | (Inr c, w') \<Rightarrow>
          (Inr (response\<lparr>content := Defined (item\<lparr>item_text := JSON_stringify P c\<rparr> # rest)\<rparr>), w'))"

text \<open>
  Lines 138 to 183: the \<^verbatim>\<open>catch\<close> only logs the caught value, converted to a string
  (which does not throw for an Error object, \<^verbatim>\<open>undefined\<close> or \<^verbatim>\<open>null\<close>), and the
  response stays as it was.
\<close>

definition paginate ::
  "platform \<Rightarrow> 'e transport \<Rightarrow> request_options \<Rightarrow> (string \<times> jsval) list
     \<Rightarrow> mcp_response nullable \<Rightarrow> 'e world \<Rightarrow> mcp_response nullable \<times> 'e world" where
  "paginate P T options params response w =
     (if map_of params ''fetchAllPages'' = Some (JBool True) then
        (case response of
           Defined r \<Rightarrow>
             (case firstItem response of
                None \<Rightarrow> (response, w)
              | Some (item, rest) \<Rightarrow>
                  (case paginate_try P T options r item rest w of
                     (Inl e, w') \<Rightarrow> (response, w')
                   | (Inr r', w') \<Rightarrow> (Defined r', w')))
         | _ \<Rightarrow> (response, w))
      else (response, w))"

subsection \<open>The handler\<close>

text \<open>
  Lines 208 to 221; reading \<open>content\<close> of a response that is \<^verbatim>\<open>undefined\<close> or
  \<^verbatim>\<open>null\<close> throws, and so does reading \<open>map\<close> of such a \<open>content\<close>.
\<close>

definition toResult :: "mcp_response nullable \<Rightarrow> exn + tool_result" where
  "toResult response =
     (case response of
        Undefined \<Rightarrow> Inl (TypeError (cannotRead ''undefined'' ''content''))
      | Null \<Rightarrow> Inl (TypeError (cannotRead ''null'' ''content''))
      | Defined r \<Rightarrow>
          (case content r of
             Undefined \<Rightarrow> Inl (TypeError (cannotRead ''undefined'' ''map''))
           | Null \<Rightarrow> Inl (TypeError (cannotRead ''null'' ''map''))
           | Defined items \<Rightarrow>
               Inr \<lparr>res_content = map (\<lambda>item. \<lparr>item_type = ''text'', item_text = item_text item\<rparr>) items,
                    res_meta = Some (meta r),
                    res_isError = isError r\<rparr>))"

text \<open>
  The body of the outer \<^verbatim>\<open>try\<close>. The calls of the logger are left out: the logger is
  taken not to throw, what it is given is built with \<^verbatim>\<open>JSON.stringify\<close> from values
  that came as JSON, which does not throw either, and the block of lines 184 to 206 only
  logs, inside its own \<^verbatim>\<open>try\<close>.
\<close>

definition handler_try ::
  "platform \<Rightarrow> 'e transport \<Rightarrow> endpoint \<Rightarrow> (string \<times> jsval) list \<Rightarrow> 'e world
     \<Rightarrow> (exn + tool_result) \<times> 'e world" where
  "handler_try P T tool params w =
     (case translate P tool params of
        Inl e \<Rightarrow> (Inl e, w)
      | Inr (p, options) \<Rightarrow>
          (case graphRequest T p options w of
             (Inl e, w1) \<Rightarrow> (Inl e, w1)
           | (Inr response, w1) \<Rightarrow>
               (case paginate P T options params response w1 of
                  (response', w2) \<Rightarrow> (toResult response', w2))))"

text \<open>
  The \<^verbatim>\<open>catch\<close> block of lines 223 to 235. It reads \<^verbatim>\<open>error.message\<close>, so it throws
  itself when the caught value is \<^verbatim>\<open>undefined\<close> or \<^verbatim>\<open>null\<close>.
\<close>

definition errorResult :: "platform \<Rightarrow> endpoint \<Rightarrow> exn \<Rightarrow> exn + tool_result" where
  "errorResult P tool error =
     bindE (error_message error) (\<lambda>m.
       Inr \<lparr>res_content =
              [\<lparr>item_type = ''text'',
                item_text = JSON_stringify P
                  (JObj [(''error'', JStr (''Error in tool '' @ tool_alias tool @ '': '' @ m))])\<rparr>],
            res_meta = None,
            res_isError = Defined True\<rparr>)"

text \<open>
  The callback registered for a tool, lines 44 to 236: \<open>Inr\<close> is the result it returns,
  \<open>Inl\<close> an exception that it lets through to its caller. Line 45, before the \<^verbatim>\<open>try\<close>,
  only logs.
\<close>

definition handler ::
  "platform \<Rightarrow> 'e transport \<Rightarrow> endpoint \<Rightarrow> (string \<times> jsval) list \<Rightarrow> 'e world
     \<Rightarrow> (exn + tool_result) \<times> 'e world" where
  "handler P T tool params w =
     (case handler_try P T tool params w of
        (Inl error, w') \<Rightarrow> (errorResult P tool error, w')
      | (Inr result, w') \<Rightarrow> (Inr result, w'))"

subsection \<open>Registration\<close>

text \<open>
  One call of \<^verbatim>\<open>server.tool\<close>; \<open>reg_tool\<close> is the descriptor that the handler closure
  captures, so the handler of a registration \<open>r\<close> is \<open>handler P T (reg_tool r)\<close>.
\<close>

record registration =
  reg_name :: string
  reg_description :: string
  reg_paramSchema :: "(string \<times> zod) list"
  reg_title :: string
  reg_readOnlyHint :: bool
  reg_tool :: endpoint

text \<open>Lines 5 to 14: the compiled filter, if a pattern is given and compiles.\<close>

definition enabledToolsRegex :: "platform \<Rightarrow> string option \<Rightarrow> (string \<Rightarrow> bool) option" where
  "enabledToolsRegex P enabledToolsPattern =
     (case enabledToolsPattern of
        None \<Rightarrow> None
      | Some pat \<Rightarrow>
          if pat = [] then None
          else (case new_RegExp P pat ''i'' of Inl e \<Rightarrow> None | Inr test \<Rightarrow> Some test))"

definition paramSchemaOf :: "platform \<Rightarrow> endpoint \<Rightarrow> (string \<times> zod) list" where
  "paramSchemaOf P tool =
     (let declared =
        fold (\<lambda>param.
                AList.update (name param)
                  (case schema param of
                     None \<Rightarrow> ZAny
                   | Some s \<Rightarrow> if type param = ''Body'' then ZUnion [ZString, s] else s))
          (case parameters tool of None \<Rightarrow> [] | Some ps \<Rightarrow> ps) []
      in if toUpperCase P (method tool) = ''GET'' \<and> CHR ''/'' \<in> set (path tool)
         then AList.update ''fetchAllPages''
                (ZOptional (ZDescribe ZBoolean ''Automatically fetch all pages of results''))
                declared
         else declared)"

definition registrationOf :: "platform \<Rightarrow> endpoint \<Rightarrow> registration" where
  "registrationOf P tool =
     \<lparr>reg_name = tool_alias tool,
      reg_description = (case tool_description tool of None \<Rightarrow> [] | Some d \<Rightarrow> d),
      reg_paramSchema = paramSchemaOf P tool,
      reg_title = tool_alias tool,
      reg_readOnlyHint = (toUpperCase P (method tool) = ''GET''),
      reg_tool = tool\<rparr>"

text \<open>The loop over \<^verbatim>\<open>api.endpoints\<close>; \<open>server\<close> is the list of the calls of \<^verbatim>\<open>server.tool\<close>.\<close>

fun registerLoop ::
  "platform \<Rightarrow> bool \<Rightarrow> (string \<Rightarrow> bool) option \<Rightarrow> endpoint list \<Rightarrow> registration list
     \<Rightarrow> registration list" where
  "registerLoop P readOnly rx [] server = server"
| "registerLoop P readOnly rx (tool # tools) server =
     (if readOnly \<and> toUpperCase P (method tool) \<noteq> ''GET''
      then registerLoop P readOnly rx tools server
      else if (case rx of None \<Rightarrow> False | Some test \<Rightarrow> \<not> test (tool_alias tool))
      then registerLoop P readOnly rx tools server
      else registerLoop P readOnly rx tools (server @ [registrationOf P tool]))"

definition registerGraphTools ::
  "platform \<Rightarrow> endpoint list \<Rightarrow> registration list \<Rightarrow> bool \<Rightarrow> string option
     \<Rightarrow> registration list" where
  "registerGraphTools P endpoints server readOnly enabledToolsPattern =
     registerLoop P readOnly (enabledToolsRegex P enabledToolsPattern) endpoints server"

section \<open>A test double of the platform\<close>

text \<open>
  To run the model on concrete inputs: a platform that handles ASCII letters, decimal
  integers, absolute \<^verbatim>\<open>https\<close> URLs without escapes, and patterns made of letters and
  digits only (matched as substrings, ignoring case; every other pattern is refused as
  invalid). Its \<^verbatim>\<open>JSON.parse\<close> knows the texts of a given table; its
  \<^verbatim>\<open>JSON.stringify\<close> writes strings without escapes.
\<close>

definition asciiLower :: "char \<Rightarrow> char" where
  "asciiLower c =
     (case map_of (zip ''ABCDEFGHIJKLMNOPQRSTUVWXYZ'' ''abcdefghijklmnopqrstuvwxyz'') c of
        None \<Rightarrow> c | Some d \<Rightarrow> d)"

definition asciiUpper :: "char \<Rightarrow> char" where
  "asciiUpper c =
     (case map_of (zip ''abcdefghijklmnopqrstuvwxyz'' ''ABCDEFGHIJKLMNOPQRSTUVWXYZ'') c of
        None \<Rightarrow> c | Some d \<Rightarrow> d)"

fun decimal :: "nat \<Rightarrow> string" where
  "decimal n =
     (if n < 10 then [''0123456789'' ! n]
      else decimal (n div 10) @ [''0123456789'' ! (n mod 10)])"

definition stub_Number_toString :: "int \<Rightarrow> string" where
  "stub_Number_toString n = (if n < 0 then ''-'' @ decimal (nat (- n)) else decimal (nat n))"

fun stub_stringify :: "jsval \<Rightarrow> string"
  and stub_elements :: "jsval list \<Rightarrow> string"
  and stub_members :: "(string \<times> jsval) list \<Rightarrow> string" where
  "stub_stringify JUndefined = ''null''"
| "stub_stringify JNull = ''null''"
| "stub_stringify (JBool b) = (if b then ''true'' else ''false'')"
| "stub_stringify (JNum n) = stub_Number_toString n"
| "stub_stringify (JStr s) = [CHR 0x22] @ s @ [CHR 0x22]"
| "stub_stringify (JArr xs) = ''['' @ stub_elements xs @ '']''"
| "stub_stringify (JObj kvs) = ''{'' @ stub_members kvs @ ''}''"
| "stub_elements [] = []"
| "stub_elements (x # xs) =
     stub_stringify x @ (if xs = [] then [] else '','' @ stub_elements xs)"
| "stub_members [] = []"
| "stub_members ((k, v) # kvs) =
     (if v = JUndefined then stub_members kvs
      else [CHR 0x22] @ k @ [CHR 0x22] @ '':'' @ stub_stringify v @
           (if list_all (\<lambda>kv. snd kv = JUndefined) kvs then [] else '','' @ stub_members kvs))"

fun splitOn :: "char \<Rightarrow> string \<Rightarrow> string list" where
  "splitOn d [] = [[]]"
| "splitOn d (c # cs) =
     (if c = d then [] # splitOn d cs
      else (case splitOn d cs of [] \<Rightarrow> [[c]] | s # ss \<Rightarrow> (c # s) # ss))"

definition stub_URL :: "string \<Rightarrow> exn + url" where
  "stub_URL s =
     (if prefix ''https://'' s \<and> CHR ''/'' \<in> set (drop 8 s) then
        (let rest = dropWhile (\<lambda>c. c \<noteq> CHR ''/'') (drop 8 s);
             p = takeWhile (\<lambda>c. c \<noteq> CHR ''?'') rest;
             q = drop 1 (dropWhile (\<lambda>c. c \<noteq> CHR ''?'') rest)
         in Inr \<lparr>pathname = p,
                 searchParams =
                   (if q = [] then []
                    else map (\<lambda>kv. (takeWhile (\<lambda>c. c \<noteq> CHR ''='') kv,
                                     drop 1 (dropWhile (\<lambda>c. c \<noteq> CHR ''='') kv)))
                           (splitOn (CHR ''&'') q))\<rparr>)
      else Inl (TypeError ''Invalid URL''))"

definition stub_RegExp :: "string \<Rightarrow> string \<Rightarrow> exn + (string \<Rightarrow> bool)" where
  "stub_RegExp pat flags =
     (if list_all alnum pat \<and> flags = ''i''
      then Inr (\<lambda>s. sublist (map asciiLower pat) (map asciiLower s))
      else Inl (SyntaxError ''Invalid regular expression''))"

definition stub_platform :: "(string \<times> jsval) list \<Rightarrow> platform" where
  "stub_platform table =
     \<lparr>JSON_parse = (\<lambda>s. case map_of table s of
                          None \<Rightarrow> Inl (SyntaxError ''Unexpected token'')
                        | Some v \<Rightarrow> Inr v),
      JSON_stringify = stub_stringify,
      Number_toString = stub_Number_toString,
      toLowerCase = map asciiLower,
      toUpperCase = map asciiUpper,
      new_URL = stub_URL,
      new_RegExp = stub_RegExp\<rparr>"

text \<open>
  A scripted Graph client: its state is the list of the outcomes still to come, and each
  request takes the next one; when none is left the request fails.
\<close>

definition scripted :: "(exn + mcp_response nullable) list transport" where
  "scripted script p options =
     (case script of
        [] \<Rightarrow> (Inl (Error ''no response scripted''), [])
      | r # rs \<Rightarrow> (r, rs))"

text \<open>A response with a single text item.\<close>

definition textResponse :: "string \<Rightarrow> mcp_response" where
  "textResponse s =
     \<lparr>content = Defined [\<lparr>item_type = ''text'', item_text = s\<rparr>],
      meta = JUndefined, isError = Undefined\<rparr>"

text \<open>A small catalog and a descriptor for the runs below.\<close>

definition demo_catalog :: "endpoint list" where
  "demo_catalog =
     [\<lparr>tool_alias = ''list-mail-messages'', method = ''get'', path = ''/me/messages'',
       tool_description = None, parameters = None, errors = None\<rparr>,
      \<lparr>tool_alias = ''send-mail'', method = ''post'', path = ''/me/sendMail'',
       tool_description = None, parameters = None, errors = None\<rparr>,
      \<lparr>tool_alias = ''list-calendar-events'', method = ''get'', path = ''/me/events'',
       tool_description = None, parameters = None, errors = None\<rparr>]"

definition demo_tool :: endpoint where
  "demo_tool =
     \<lparr>tool_alias = ''get-mail-message'', method = ''get'',
      path = ''/me/messages/:messageId'', tool_description = None,
      parameters = Some
        [\<lparr>name = ''messageId'', type = ''Path'', schema = Some ZString, description = None\<rparr>,
         \<lparr>name = ''Select'', type = ''Query'', schema = Some ZString, description = None\<rparr>,
         \<lparr>name = ''Prefer'', type = ''Header'', schema = Some ZString, description = None\<rparr>,
         \<lparr>name = ''body'', type = ''Body'', schema = Some ZAny, description = None\<rparr>],
      errors = None\<rparr>"

text \<open>An endpoint with two placeholders in its path.\<close>

definition user_message_tool :: endpoint where
  "user_message_tool =
     \<lparr>tool_alias = ''get-user-message'', method = ''get'',
      path = ''/users/:userId/messages/:messageId'', tool_description = None,
      parameters = Some
        [\<lparr>name = ''userId'', type = ''Path'', schema = Some ZString, description = None\<rparr>,
         \<lparr>name = ''messageId'', type = ''Path'', schema = Some ZString, description = None\<rparr>],
      errors = None\<rparr>"

text \<open>A list endpoint, the options of its request, and pages of its collection.\<close>

definition list_tool :: endpoint where
  "list_tool =
     \<lparr>tool_alias = ''list-mail-messages'', method = ''get'', path = ''/me/messages'',
      tool_description = None,
      parameters = Some
        [\<lparr>name = ''top'', type = ''Query'', schema = Some ZAny, description = None\<rparr>],
      errors = None\<rparr>"

definition list_options :: request_options where
  "list_options =
     \<lparr>opt_method = ''GET'', opt_headers = [], opt_body = None, opt_rawResponse = False,
      opt_queryParams = None\<rparr>"

definition two_pages :: "(string \<times> jsval) list" where
  "two_pages =
     [(''page1'', JObj [(''value'', JArr [JNum 1]),
                        (''@odata.nextLink'', JStr ''https://g/v1.0/m?skip=1'')]),
      (''page2'', JObj [(''value'', JArr [JNum 2]),
                        (''@odata.nextLink'', JStr ''https://g/v1.0/m?skip=2'')]),
      (''last2'', JObj [(''value'', JArr [JNum 2])]),
      (''first1'', JObj [(''value'', JArr [JNum 1]), (''@odata.count'', JNum 1),
                         (''@odata.nextLink'', JStr ''https://g/v1.0/m?skip=1'')]),
      (''only1'', JObj [(''value'', JArr [JNum 1]), (''@odata.count'', JNum 0)])]"

text \<open>A Graph client that answers every request with the first of these pages.\<close>

definition endless_client :: "unit transport" where
  "endless_client e p options = (Inr (Defined (textResponse ''page1'')), e)"

section \<open>Paged collections\<close>

text \<open>
  The vocabulary of the statements about pagination. A cursor is usable when it is a
  non-empty string that \<^verbatim>\<open>new URL\<close> accepts. A response is a page when its first item
  parses to an object whose \<^verbatim>\<open>value\<close> is an array; \<open>pageOf\<close> gives that array and the
  value of \<^verbatim>\<open>@odata.nextLink\<close> (\<open>JUndefined\<close> when the field is absent).
\<close>

definition validLink :: "platform \<Rightarrow> jsval \<Rightarrow> bool" where
  "validLink P link =
     (case link of
        JStr s \<Rightarrow> s \<noteq> [] \<and> (case new_URL P s of Inl e \<Rightarrow> False | Inr u \<Rightarrow> True)
      | _ \<Rightarrow> False)"

definition pageOf :: "platform \<Rightarrow> mcp_response nullable \<Rightarrow> (jsval list \<times> jsval) option" where
  "pageOf P response =
     (case firstItem response of
        None \<Rightarrow> None
      | Some (item, rest) \<Rightarrow>
          (case JSON_parse P (item_text item) of
             Inr (JObj kvs) \<Rightarrow>
               (case map_of kvs ''value'' of
                  Some (JArr xs) \<Rightarrow>
                    Some (xs, case map_of kvs ''@odata.nextLink'' of
                                None \<Rightarrow> JUndefined | Some l \<Rightarrow> l)
                | _ \<Rightarrow> None)
           | _ \<Rightarrow> None))"

text \<open>
  A Graph client whose cursors never end: whatever its state and the request, it answers
  with a page that carries a usable cursor.
\<close>

definition endless :: "platform \<Rightarrow> 'e transport \<Rightarrow> bool" where
  "endless P T =
     (\<forall>e p options.
        case T e p options of
          (Inr response, e') \<Rightarrow>
            (case pageOf P response of None \<Rightarrow> False | Some (ys, l) \<Rightarrow> validLink P l)
        | (Inl err, e') \<Rightarrow> False)"

text \<open>
  The texts of \<open>N\<close> numbered pages: the text of page \<open>i\<close> (counted from 1) parses to an
  object whose \<^verbatim>\<open>value\<close> is the array \<^verbatim>\<open>[i]\<close>, with a usable cursor when \<open>i < N\<close> and
  without the field \<^verbatim>\<open>@odata.nextLink\<close> when \<open>i = N\<close>.
\<close>

definition numberedPage :: "platform \<Rightarrow> nat \<Rightarrow> nat \<Rightarrow> string \<Rightarrow> bool" where
  "numberedPage P N i t =
     (case JSON_parse P t of
        Inr (JObj kvs) \<Rightarrow>
          map_of kvs ''value'' = Some (JArr [JNum (int i)]) \<and>
          (if i < N
           then (case map_of kvs ''@odata.nextLink'' of None \<Rightarrow> False | Some l \<Rightarrow> validLink P l)
           else map_of kvs ''@odata.nextLink'' = None)
      | _ \<Rightarrow> False)"

definition numberedPages :: "platform \<Rightarrow> string list \<Rightarrow> bool" where
  "numberedPages P texts =
     list_all (\<lambda>i. numberedPage P (length texts) (Suc i) (texts ! i)) [0..<length texts]"

text \<open>The field \<^verbatim>\<open>@odata.count\<close> of the payload that a text parses to.\<close>

definition countOf :: "platform \<Rightarrow> string \<Rightarrow> jsval" where
  "countOf P t =
     (case JSON_parse P t of
        Inr (JObj kvs) \<Rightarrow> (case map_of kvs ''@odata.count'' of None \<Rightarrow> JUndefined | Some c \<Rightarrow> c)
      | _ \<Rightarrow> JUndefined)"

text \<open>The field \<^verbatim>\<open>@odata.nextLink\<close> of the payload that a text parses to.\<close>

definition linkOf :: "platform \<Rightarrow> string \<Rightarrow> jsval" where
  "linkOf P t =
     (case JSON_parse P t of
        Inr (JObj kvs) \<Rightarrow>
          (case map_of kvs ''@odata.nextLink'' of None \<Rightarrow> JUndefined | Some l \<Rightarrow> l)
      | _ \<Rightarrow> JUndefined)"

text \<open>
  A response is a linked page when it is a page that carries a usable cursor. A follow-up
  fetch fails when the Graph client throws, or when the first item of its response does
  not parse as JSON.
\<close>

definition linkedPage :: "platform \<Rightarrow> mcp_response nullable \<Rightarrow> bool" where
  "linkedPage P response =
     (case pageOf P response of None \<Rightarrow> False | Some (ys, l) \<Rightarrow> validLink P l)"

definition failedFetch :: "platform \<Rightarrow> exn + mcp_response nullable \<Rightarrow> bool" where
  "failedFetch P outcome =
     (case outcome of
        Inl e \<Rightarrow> True
      | Inr response \<Rightarrow>
          (case firstItem response of
             None \<Rightarrow> False
           | Some (item, rest) \<Rightarrow>
               (case JSON_parse P (item_text item) of Inl e \<Rightarrow> True | Inr v \<Rightarrow> False)))"

text \<open>
  The result that reports an error: its only content is a text block with the serialised
  object whose field \<open>error\<close> names the tool and gives the message, and its error flag is
  set.
\<close>

definition errorBlock :: "platform \<Rightarrow> endpoint \<Rightarrow> string \<Rightarrow> tool_result" where
  "errorBlock P tool m =
     \<lparr>res_content =
        [\<lparr>item_type = ''text'',
          item_text = JSON_stringify P
            (JObj [(''error'', JStr (''Error in tool '' @ tool_alias tool @ '': '' @ m))])\<rparr>],
      res_meta = None,
      res_isError = Defined True\<rparr>"

text \<open>The result that hands on a response: its items as text blocks, its metadata, its flag.\<close>

definition resultOf :: "mcp_response \<Rightarrow> content_item list \<Rightarrow> tool_result" where
  "resultOf r items =
     \<lparr>res_content = map (\<lambda>i. \<lparr>item_type = ''text'', item_text = item_text i\<rparr>) items,
      res_meta = Some (meta r),
      res_isError = isError r\<rparr>"

section \<open>The vocabulary of the statements about paths and names\<close>

text \<open>
  A placeholder of the colon form, as the specification describes it: a colon somewhere
  in the path template, followed by at least one ASCII letter or digit; its name is the
  longest run of letters and digits behind the colon. \<open>placeholderAt t i n\<close> says that
  such a placeholder with the name \<open>n\<close> starts at position \<open>i\<close> of the template \<open>t\<close>.
\<close>

definition placeholderAt :: "string \<Rightarrow> nat \<Rightarrow> string \<Rightarrow> bool" where
  "placeholderAt pathTemplate i n \<longleftrightarrow>
     i < length pathTemplate \<and> pathTemplate ! i = CHR '':'' \<and> n \<noteq> [] \<and>
     takeWhile alnum (drop (Suc i) pathTemplate) = n"

definition colonPlaceholder :: "string \<Rightarrow> string \<Rightarrow> bool" where
  "colonPlaceholder pathTemplate n \<longleftrightarrow>
     list_ex (\<lambda>i. placeholderAt pathTemplate i n) [0..<length pathTemplate]"

text \<open>
  The name under which the specification dispatches a query or header parameter: its
  lower-cased name with a dollar sign in front when that is one of the nine OData names,
  its own name otherwise.
\<close>

definition dispatchedName :: "platform \<Rightarrow> string \<Rightarrow> string" where
  "dispatchedName P n =
     (if toLowerCase P n \<in> {''filter'', ''select'', ''expand'', ''orderby'',
           ''skip'', ''top'', ''count'', ''search'', ''format''}
      then ''$'' @ toLowerCase P n else n)"

text \<open>
  An entry of the parameter bag is bound as a parameter of a kind when it is not the
  pagination switch and the endpoint declares a parameter of its name with that kind
  (the first declaration of the name counts).
\<close>

definition boundAs :: "string \<Rightarrow> parameter list \<Rightarrow> string \<times> jsval \<Rightarrow> bool" where
  "boundAs kind defs entry \<longleftrightarrow>
     fst entry \<noteq> ''fetchAllPages'' \<and>
     (case find (\<lambda>p. name p = fst entry) defs of None \<Rightarrow> False | Some d \<Rightarrow> type d = kind)"

text \<open>The declarations of an endpoint, \<^verbatim>\<open>tool.parameters || []\<close>.\<close>

definition parameterDefinitions :: "endpoint \<Rightarrow> parameter list" where
  "parameterDefinitions tool = (case parameters tool of None \<Rightarrow> [] | Some ps \<Rightarrow> ps)"

text \<open>
  What the specification dispatches for the parameters of one kind (Query or Header): an
  object with, for every entry of the bag bound as that kind, in the order of the bag,
  the stringified value under the dispatched name.
\<close>

definition dispatched ::
  "platform \<Rightarrow> parameter list \<Rightarrow> string \<Rightarrow> (string \<times> jsval) list \<Rightarrow> (string \<times> string) list" where
  "dispatched P defs kind params =
     fold (\<lambda>(n, v). case ToString P v of
                       Inl e \<Rightarrow> id
                     | Inr s \<Rightarrow> AList.update (dispatchedName P n) s)
       (filter (boundAs kind defs) params) []"

text \<open>The inverse of the URL encoding, as the receiver of a request applies it.\<close>

definition hexValue :: "char \<Rightarrow> nat" where
  "hexValue c = length (takeWhile (\<lambda>d. d \<noteq> c) ''0123456789ABCDEF'')"

fun percentDecode :: "string \<Rightarrow> string" where
  "percentDecode (c # h # l # cs) =
     (if c = CHR ''%'' then char_of (16 * hexValue h + hexValue l) # percentDecode cs
      else c # percentDecode (h # l # cs))"
| "percentDecode cs = cs"

text \<open>
  Replacing the first occurrence of a pattern in a text: the pattern occurs at a position
  when the text continues with it there; the result is the text before the leftmost such
  position, the replacement, and the text behind the occurrence. A text in which the
  pattern does not occur stays as it is.
\<close>

definition occursAt :: "string \<Rightarrow> string \<Rightarrow> nat \<Rightarrow> bool" where
  "occursAt pat s i \<longleftrightarrow> take (length pat) (drop i s) = pat"

definition firstOccurrence :: "string \<Rightarrow> string \<Rightarrow> nat option" where
  "firstOccurrence pat s = find (occursAt pat s) [0..<Suc (length s)]"

definition replaceFirst :: "string \<Rightarrow> string \<Rightarrow> string \<Rightarrow> string" where
  "replaceFirst pat rep s =
     (case firstOccurrence pat s of
        None \<Rightarrow> s
      | Some i \<Rightarrow> take i s @ rep @ drop (i + length pat) s)"

section \<open>Properties of the scope aggregation\<close>

lemma set_Set_add: "set (Set_add x xs) = insert x (set xs)"
  by (auto simp: Set_add_def)

lemma set_fold_Set_add: "set (fold Set_add ss xs) = set ss \<union> set xs"
  by (induction ss arbitrary: xs) (auto simp: set_Set_add)

lemma set_fold_Set_delete: "set (fold Set_delete ss xs) = set xs - set ss"
  by (induction ss arbitrary: xs) (auto simp: Set_delete_def)

lemma set_collectEndpoint:
  "set (collectEndpoint inc e acc) =
     set acc \<union> (if requiresWorkAccount e \<and> \<not> inc then {}
                 else case scopes e of None \<Rightarrow> {} | Some ss \<Rightarrow> set ss)"
  by (auto simp: collectEndpoint_def set_fold_Set_add split: option.splits)

lemma set_fold_collectEndpoint:
  "x \<in> set (fold (collectEndpoint inc) es acc) \<longleftrightarrow> x \<in> set acc \<or> grants es inc x"
proof (induction es arbitrary: acc)
  case Nil
  show ?case by (simp add: grants_def)
next
  case (Cons e es)
  show ?case
    unfolding fold_simps Cons.IH set_collectEndpoint
    by (auto simp: grants_def split: option.splits if_splits)
qed

lemma collectScopes_grants: "x \<in> set (collectScopes es inc) \<longleftrightarrow> grants es inc x"
  by (simp add: collectScopes_def set_fold_collectEndpoint)

lemma set_collapseEntry:
  "set (collapseEntry (W, Rs) s) =
     (if set Rs \<subseteq> set s then insert W (set s - set Rs) else set s)"
  by (auto simp: collapseEntry_def set_Set_add set_fold_Set_delete list_all_iff)

lemma fold_collapse_keeps:
  "x \<in> set s \<Longrightarrow> x \<notin> set (concat (map snd h)) \<Longrightarrow> x \<in> set (fold collapseEntry h s)"
proof (induction h arbitrary: s)
  case Nil
  then show ?case by simp
next
  case (Cons e h)
  obtain W Rs where e: "e = (W, Rs)" by (cases e)
  from Cons.prems have "x \<in> set (collapseEntry e s)"
    by (auto simp: e set_collapseEntry)
  with Cons.prems Cons.IH show ?case by simp
qed

lemma fold_collapse_absent:
  "x \<notin> set s \<Longrightarrow> x \<notin> set (map fst h) \<Longrightarrow> x \<notin> set (fold collapseEntry h s)"
proof (induction h arbitrary: s)
  case Nil
  then show ?case by simp
next
  case (Cons e h)
  obtain W Rs where e: "e = (W, Rs)" by (cases e)
  from Cons.prems have "x \<notin> set (collapseEntry e s)"
    by (auto simp: e set_collapseEntry)
  with Cons.prems Cons.IH show ?case by simp
qed

lemma collapse_independent:
  assumes ind: "independent h"
    and mem: "(W, Rs) \<in> set h"
    and sub: "set Rs \<subseteq> set s"
  shows "W \<in> set (fold collapseEntry h s) \<and> set Rs \<inter> set (fold collapseEntry h s) = {}"
proof -
  from mem obtain h1 h2 where h: "h = h1 @ (W, Rs) # h2"
    by (auto simp: in_set_conv_decomp)
  from ind have dist: "distinct (concat (map snd h))"
    and high: "\<forall>x \<in> set (map fst h). x \<notin> set (concat (map snd h))"
    by (auto simp: independent_def list_all_iff)
  let ?s1 = "fold collapseEntry h1 s"
  let ?s2 = "collapseEntry (W, Rs) ?s1"
  have fold_eq: "fold collapseEntry h s = fold collapseEntry h2 ?s2"
    by (simp add: h)
  have Rs_h1: "\<forall>r \<in> set Rs. r \<notin> set (concat (map snd h1))"
    using dist by (auto simp: h)
  have Rs_s1: "set Rs \<subseteq> set ?s1"
    using sub Rs_h1 by (auto intro: fold_collapse_keeps)
  have W_Rs: "W \<notin> set Rs"
    using high by (auto simp: h)
  have s2: "W \<in> set ?s2" "set Rs \<inter> set ?s2 = {}"
    using Rs_s1 W_Rs by (auto simp: set_collapseEntry)
  have W_h2: "W \<notin> set (concat (map snd h2))"
    using high by (auto simp: h)
  have Rs_h2: "\<forall>r \<in> set Rs. r \<notin> set (map fst h2)"
    using high by (auto simp: h)
  have "W \<in> set (fold collapseEntry h2 ?s2)"
    using s2(1) W_h2 by (rule fold_collapse_keeps)
  moreover have "set Rs \<inter> set (fold collapseEntry h2 ?s2) = {}"
  proof -
    have "r \<notin> set (fold collapseEntry h2 ?s2)" if "r \<in> set Rs" for r
    proof (rule fold_collapse_absent)
      show "r \<notin> set ?s2" using s2(2) that by blast
      show "r \<notin> set (map fst h2)" using Rs_h2 that by blast
    qed
    then show ?thesis by blast
  qed
  ultimately show ?thesis by (simp add: fold_eq)
qed

lemma independent_SCOPE_HIERARCHY: "independent SCOPE_HIERARCHY"
  by (simp add: independent_def SCOPE_HIERARCHY_def)

text \<open>
  C1, as stated, at the catalog that grants only \<open>Mail.Read\<close>: the claim wants the output to
  contain \<open>Mail.Read\<close> and not \<open>Mail.ReadWrite\<close>; the code returns exactly \<open>Mail.ReadWrite\<close>.
\<close>

theorem C1_read_only_catalog_counterexample:
  "\<not> (''Mail.Read'' \<in> set (buildScopesFromEndpoints
          [\<lparr>requiresWorkAccount = False, scopes = Some [''Mail.Read'']\<rparr>] False) \<and>
      ''Mail.ReadWrite'' \<notin> set (buildScopesFromEndpoints
          [\<lparr>requiresWorkAccount = False, scopes = Some [''Mail.Read'']\<rparr>] False))"
  by (simp add: buildScopesFromEndpoints_def buildScopesWith_def collectScopes_def
      collectEndpoint_def SCOPE_HIERARCHY_def collapseEntry_def Set_add_def Set_delete_def)

text \<open>
  C1, amended: for every entry \<open>(W, Rs)\<close> of the hierarchy table, when the catalog grants
  every read scope of \<open>Rs\<close> (whether or not it grants \<open>W\<close>), the output contains \<open>W\<close> and
  none of the scopes of \<open>Rs\<close>.
\<close>

theorem C1_write_scope_supersedes:
  assumes "(W, Rs) \<in> set SCOPE_HIERARCHY"
    and "\<forall>r \<in> set Rs. grants endpoints inc r"
  shows "W \<in> set (buildScopesFromEndpoints endpoints inc) \<and>
         set Rs \<inter> set (buildScopesFromEndpoints endpoints inc) = {}"
proof -
  from assms(2) have "set Rs \<subseteq> set (collectScopes endpoints inc)"
    by (auto simp: collectScopes_grants)
  with independent_SCOPE_HIERARCHY assms(1) show ?thesis
    unfolding buildScopesFromEndpoints_def buildScopesWith_def
    by (rule collapse_independent)
qed

theorem C1_write_scope_supersedes_witness:
  "''Files.ReadWrite'' \<in> set (buildScopesFromEndpoints
      [\<lparr>requiresWorkAccount = False, scopes = Some [''Files.Read'', ''User.Read'']\<rparr>,
       \<lparr>requiresWorkAccount = True, scopes = Some [''Files.ReadWrite'']\<rparr>] False) \<and>
   set [''Files.Read''] \<inter> set (buildScopesFromEndpoints
      [\<lparr>requiresWorkAccount = False, scopes = Some [''Files.Read'', ''User.Read'']\<rparr>,
       \<lparr>requiresWorkAccount = True, scopes = Some [''Files.ReadWrite'']\<rparr>] False) = {}"
  by (rule C1_write_scope_supersedes) (simp_all add: SCOPE_HIERARCHY_def grants_def)

section \<open>Properties of the catalog load\<close>

lemma pathParamMatches_alnum:
  "n \<in> set (pathParamMatches s) \<Longrightarrow> list_all alnum n"
proof (induction s rule: pathParamMatches.induct)
  case 1
  then show ?case by simp
next
  case (2 c cs)
  then show ?case
    by (auto simp: list_all_iff split: if_splits dest: set_takeWhileD)
qed

lemma markers_not_alnum: "\<not> alnum (CHR ''$'')" "\<not> alnum (CHR ''_'')"
  by (simp_all add: alnum_def)

lemma stripMarkers_alnum: "list_all alnum n \<Longrightarrow> stripMarkers n = n"
  unfolding stripMarkers_def
proof (rule filter_True, rule ballI)
  fix c
  assume "list_all alnum n" "c \<in> set n"
  then have "alnum c" by (simp add: list_all_iff)
  then show "c \<noteq> CHR ''$'' \<and> c \<noteq> CHR ''_''"
    using markers_not_alnum by blast
qed

lemma addPathParam_keeps: "p \<in> set ps \<Longrightarrow> p \<in> set (addPathParam n ps)"
  by (simp add: addPathParam_def)

lemma fold_addPathParam_keeps: "p \<in> set ps \<Longrightarrow> p \<in> set (fold addPathParam ns ps)"
  by (induction ns arbitrary: ps) (auto intro: addPathParam_keeps)

lemma addPathParam_has: "\<exists>p \<in> set (addPathParam n ps). name p = n \<or> name p = stripMarkers n"
  by (auto simp: addPathParam_def newParam_def list_ex_iff)

lemma fold_addPathParam_has:
  "n \<in> set ns \<Longrightarrow> stripMarkers n = n \<Longrightarrow> \<exists>p \<in> set (fold addPathParam ns ps). name p = n"
proof (induction ns arbitrary: ps)
  case Nil
  then show ?case by simp
next
  case (Cons m ns)
  show ?case
  proof (cases "m = n")
    case True
    from addPathParam_has [of n ps] Cons.prems(2)
    obtain p where "p \<in> set (addPathParam n ps)" "name p = n" by auto
    then show ?thesis
      using True fold_addPathParam_keeps [of p "addPathParam n ps" ns] by auto
  next
    case False
    with Cons show ?thesis by simp
  qed
qed

lemma fold_addPathParam_new:
  "n \<in> set ns \<Longrightarrow> stripMarkers n = n \<Longrightarrow> \<forall>p \<in> set ps. name p \<noteq> n
     \<Longrightarrow> newParam n \<in> set (fold addPathParam ns ps)"
proof (induction ns arbitrary: ps)
  case Nil
  then show ?case by simp
next
  case (Cons m ns)
  show ?case
  proof (cases "m = n")
    case True
    from Cons.prems have "addPathParam n ps = ps @ [newParam n]"
      by (auto simp: addPathParam_def list_ex_iff)
    then show ?thesis
      using True fold_addPathParam_keeps [of "newParam n" "addPathParam n ps" ns] by simp
  next
    case False
    have "\<forall>p \<in> set (addPathParam m ps). name p \<noteq> n"
      using Cons.prems(3) False by (auto simp: addPathParam_def newParam_def)
    with Cons False show ?thesis by simp
  qed
qed

lemma alnum_colon: "\<not> alnum (CHR '':'')"
  by (simp add: alnum_def)

lemma pathParamMatches_complete:
  "i < length s \<Longrightarrow> s ! i = CHR '':'' \<Longrightarrow> takeWhile alnum (drop (Suc i) s) \<noteq> [] \<Longrightarrow>
     takeWhile alnum (drop (Suc i) s) \<in> set (pathParamMatches s)"
proof (induction s arbitrary: i rule: pathParamMatches.induct)
  case 1
  then show ?case by simp
next
  case (2 c cs)
  show ?case
  proof (cases i)
    case 0
    with "2.prems" show ?thesis by simp
  next
    case (Suc j)
    with "2.prems" have j: "j < length cs" "cs ! j = CHR '':''"
      and tw: "takeWhile alnum (drop (Suc j) cs) \<noteq> []"
      by simp_all
    show ?thesis
    proof (cases "c = CHR '':'' \<and> takeWhile alnum cs \<noteq> []")
      case True
      let ?run = "takeWhile alnum cs"
      have "\<not> j < length ?run"
      proof
        assume lt: "j < length ?run"
        then have "?run ! j \<in> set ?run" by (rule nth_mem)
        then have "alnum (?run ! j)" by (rule set_takeWhileD [THEN conjunct2])
        moreover have "?run ! j = cs ! j" using lt by (rule takeWhile_nth)
        ultimately show False using j(2) alnum_colon by simp
      qed
      then have ge: "length ?run \<le> j" by simp
      have dw: "dropWhile alnum cs = drop (length ?run) cs"
        by (rule dropWhile_eq_drop)
      have a: "j - length ?run < length (dropWhile alnum cs)"
        using j(1) ge by (simp add: dw)
      have b: "dropWhile alnum cs ! (j - length ?run) = CHR '':''"
        using j ge by (simp add: dw)
      have c: "drop (Suc (j - length ?run)) (dropWhile alnum cs) = drop (Suc j) cs"
        using ge by (simp add: dw)
      from "2.IH"(1) [OF True a b] tw c
      have "takeWhile alnum (drop (Suc j) cs) \<in> set (pathParamMatches (dropWhile alnum cs))"
        by simp
      with True Suc show ?thesis by simp
    next
      case False
      from "2.IH"(2) [OF False j tw] False Suc show ?thesis by auto
    qed
  qed
qed


text \<open>
  C9, as stated, fails in both of its parts. A placeholder written \<open>{id}\<close> gets no
  parameter at all, because the load looks for the colon form only; and a placeholder
  \<open>:id\<close> whose name is already declared with another kind (here Query) gets no parameter
  of kind Path.
\<close>

theorem C9_brace_placeholder_counterexample:
  "\<not> (\<exists>p \<in> set (the (parameters (Zodios_endpoint
          \<lparr>tool_alias = ''get-user'', method = ''get'', path = ''/users/{id}'',
           tool_description = None, parameters = None, errors = None\<rparr>))).
        name p = ''id'' \<and> type p = ''Path'') \<and>
   \<not> (\<exists>p \<in> set (the (parameters (Zodios_endpoint
          \<lparr>tool_alias = ''get-user'', method = ''get'', path = ''/users/:id'',
           tool_description = None,
           parameters = Some [\<lparr>name = ''id'', type = ''Query'', schema = None,
                                description = None\<rparr>],
           errors = None\<rparr>))).
        name p = ''id'' \<and> type p = ''Path'')"
  by (simp add: Zodios_endpoint_def addPathParam_def stripMarkers_def alnum_def)

text \<open>
  C9, amended: after the load, for every placeholder of the colon form in the path of an
  endpoint, wherever it stands in the path (a colon followed by a longest run of ASCII
  letters and digits, the name), the endpoint has a parameter of that name; and when no
  declared parameter has that name once its markers are stripped, the parameter is the
  synthesised one, of kind Path and typed as a described string. Placeholders in braces
  are not looked at, and the kind of a declared parameter of that name is not checked.
\<close>

theorem C9_colon_placeholder_has_parameter:
  assumes "colonPlaceholder (path e) n"
  shows "\<exists>ps. parameters (Zodios_endpoint e) = Some ps \<and>
           (\<exists>p \<in> set ps. name p = n) \<and>
           ((\<forall>p \<in> set (case parameters e of None \<Rightarrow> [] | Some qs \<Rightarrow> qs).
               stripMarkers (name p) \<noteq> n)
              \<longrightarrow> newParam n \<in> set ps \<and> type (newParam n) = ''Path'' \<and>
                  schema (newParam n) = Some (ZDescribe ZString (''Path parameter: '' @ n)))"
proof -
  from assms obtain i where "placeholderAt (path e) i n"
    by (auto simp: colonPlaceholder_def list_ex_iff)
  then have found: "n \<in> set (pathParamMatches (path e))"
    using pathParamMatches_complete [of i "path e"] by (auto simp: placeholderAt_def)
  then have sn: "stripMarkers n = n"
    by (simp add: pathParamMatches_alnum stripMarkers_alnum)
  let ?qs = "map (\<lambda>parameter. parameter\<lparr>name := stripMarkers (name parameter)\<rparr>)
               (case parameters e of None \<Rightarrow> [] | Some qs \<Rightarrow> qs)"
  let ?ps = "fold addPathParam (pathParamMatches (path e)) ?qs"
  have "parameters (Zodios_endpoint e) = Some ?ps"
    by (simp add: Zodios_endpoint_def)
  moreover have "\<exists>p \<in> set ?ps. name p = n"
    using found sn by (rule fold_addPathParam_has)
  moreover have "newParam n \<in> set ?ps"
    if "\<forall>p \<in> set (case parameters e of None \<Rightarrow> [] | Some qs \<Rightarrow> qs). stripMarkers (name p) \<noteq> n"
  proof (rule fold_addPathParam_new [OF found sn])
    show "\<forall>p \<in> set ?qs. name p \<noteq> n" using that by auto
  qed
  ultimately show ?thesis by (simp add: newParam_def)
qed

theorem C9_colon_placeholder_has_parameter_witness:
  "colonPlaceholder ''/users/:userId/messages/:messageId'' ''userId'' \<and>
   colonPlaceholder ''/users/:userId/messages/:messageId'' ''messageId'' \<and>
   (\<exists>ps. parameters (Zodios_endpoint
            \<lparr>tool_alias = ''get-user-message'', method = ''get'',
             path = ''/users/:userId/messages/:messageId'', tool_description = None,
             parameters = Some [\<lparr>name = ''$select'', type = ''Query'', schema = None,
                                  description = None\<rparr>],
             errors = None\<rparr>) = Some ps \<and>
         newParam ''userId'' \<in> set ps \<and> newParam ''messageId'' \<in> set ps \<and>
         type (newParam ''messageId'') = ''Path'' \<and>
         schema (newParam ''messageId'') =
           Some (ZDescribe ZString (''Path parameter: '' @ ''messageId'')))"
proof -
  let ?e = "\<lparr>tool_alias = ''get-user-message'', method = ''get'',
             path = ''/users/:userId/messages/:messageId'', tool_description = None,
             parameters = Some [\<lparr>name = ''$select'', type = ''Query'', schema = None,
                                  description = None\<rparr>],
             errors = None\<rparr>"
  have u: "colonPlaceholder ''/users/:userId/messages/:messageId'' ''userId''"
    unfolding colonPlaceholder_def list_ex_iff
    by (rule bexI [of _ 7]) (simp_all add: placeholderAt_def alnum_def)
  have m: "colonPlaceholder ''/users/:userId/messages/:messageId'' ''messageId''"
    unfolding colonPlaceholder_def list_ex_iff
    by (rule bexI [of _ 24]) (simp_all add: placeholderAt_def alnum_def)
  from C9_colon_placeholder_has_parameter [of ?e "''userId''"] u
    C9_colon_placeholder_has_parameter [of ?e "''messageId''"] m
  show ?thesis by (auto simp: stripMarkers_def)
qed

section \<open>Properties of the registration\<close>

lemma registerLoop_filter:
  "registerLoop P readOnly rx tools server =
     server @ map (registrationOf P)
       (filter (\<lambda>tool. (\<not> readOnly \<or> toUpperCase P (method tool) = ''GET'') \<and>
                        (case rx of None \<Rightarrow> True | Some test \<Rightarrow> test (tool_alias tool))) tools)"
  by (induction tools arbitrary: server) (auto split: option.splits)

text \<open>
  C8: the calls of \<^verbatim>\<open>server.tool\<close> are exactly those for the descriptors of the catalog,
  in its order, that pass the read-only test and, when a pattern is given, is not empty
  and compiles, whose alias the compiled pattern (flag \<^verbatim>\<open>i\<close>) matches. Without a
  pattern, and with a pattern that does not compile, only the read-only test decides.
\<close>

theorem C8_registration_filter:
  "(enabledToolsPattern = None \<or> enabledToolsPattern = Some [] \<longrightarrow>
      registerGraphTools P endpoints server readOnly enabledToolsPattern =
        server @ map (registrationOf P)
          (filter (\<lambda>tool. \<not> readOnly \<or> toUpperCase P (method tool) = ''GET'') endpoints)) \<and>
   (\<forall>pat e. enabledToolsPattern = Some pat \<and> new_RegExp P pat ''i'' = Inl e \<longrightarrow>
      registerGraphTools P endpoints server readOnly enabledToolsPattern =
        server @ map (registrationOf P)
          (filter (\<lambda>tool. \<not> readOnly \<or> toUpperCase P (method tool) = ''GET'') endpoints)) \<and>
   (\<forall>pat test. enabledToolsPattern = Some pat \<and> pat \<noteq> [] \<and>
        new_RegExp P pat ''i'' = Inr test \<longrightarrow>
      registerGraphTools P endpoints server readOnly enabledToolsPattern =
        server @ map (registrationOf P)
          (filter (\<lambda>tool. (\<not> readOnly \<or> toUpperCase P (method tool) = ''GET'') \<and>
                           test (tool_alias tool)) endpoints))"
  by (auto simp: registerGraphTools_def enabledToolsRegex_def registerLoop_filter)

theorem C8_registration_filter_witness:
  "map reg_tool (registerGraphTools (stub_platform []) demo_catalog [] True None) =
     [demo_catalog ! 0, demo_catalog ! 2] \<and>
   map reg_tool (registerGraphTools (stub_platform []) demo_catalog [] False (Some ''(mail'')) =
     demo_catalog \<and>
   map reg_tool (registerGraphTools (stub_platform []) demo_catalog [] True (Some ''MAIL'')) =
     [demo_catalog ! 0]"
  using C8_registration_filter [of None "stub_platform []" demo_catalog "[]" True]
    C8_registration_filter [of "Some ''(mail''" "stub_platform []" demo_catalog "[]" False]
    C8_registration_filter [of "Some ''MAIL''" "stub_platform []" demo_catalog "[]" True]
  by (simp add: stub_platform_def stub_RegExp_def demo_catalog_def asciiLower_def asciiUpper_def
      alnum_def registrationOf_def sublist_code prefix_code)

section \<open>Properties of the request translator\<close>

lemma stub_platform_fields:
  "JSON_parse (stub_platform table) s =
     (case map_of table s of None \<Rightarrow> Inl (SyntaxError ''Unexpected token'') | Some v \<Rightarrow> Inr v)"
  "JSON_stringify (stub_platform table) = stub_stringify"
  "new_URL (stub_platform table) = stub_URL"
  "toUpperCase (stub_platform table) = map asciiUpper"
  "toLowerCase (stub_platform table) = map asciiLower"
  by (simp_all add: stub_platform_def)

lemma hexDigit_range: "hexDigit n \<in> set ''0123456789ABCDEF''"
  unfolding hexDigit_def by (rule nth_mem) simp

lemma special_not_unreserved:
  "CHR ''{'' \<notin> set unreserved" "CHR '':'' \<notin> set unreserved" "CHR ''$'' \<notin> set unreserved"
  "CHR ''}'' \<notin> set unreserved"
  by (simp_all add: unreserved_def)

lemma special_not_hex:
  "CHR ''{'' \<notin> set ''0123456789ABCDEF''" "CHR '':'' \<notin> set ''0123456789ABCDEF''"
  "CHR ''$'' \<notin> set ''0123456789ABCDEF''" "CHR ''}'' \<notin> set ''0123456789ABCDEF''"
  by simp_all

lemma encodeByte_chars:
  assumes "x \<in> set (encodeByte c)"
  shows "x \<in> set unreserved \<or> x = CHR ''%'' \<or> x \<in> set ''0123456789ABCDEF''"
proof (cases "c \<in> set unreserved")
  case True
  with assms show ?thesis by (simp add: encodeByte_def)
next
  case False
  with assms have "x = CHR ''%'' \<or> x = hexDigit (of_char c div 16) \<or> x = hexDigit (of_char c)"
    by (simp add: encodeByte_def)
  then show ?thesis using hexDigit_range by blast
qed

lemma percentEncode_chars:
  assumes "x \<in> set (percentEncode s)"
  shows "x \<in> set unreserved \<or> x = CHR ''%'' \<or> x \<in> set ''0123456789ABCDEF''"
proof -
  from assms obtain c where "x \<in> set (encodeByte c)"
    by (auto simp: percentEncode_def)
  then show ?thesis by (rule encodeByte_chars)
qed

lemma percentEncode_safe:
  "CHR ''{'' \<notin> set (percentEncode s)" "CHR '':'' \<notin> set (percentEncode s)"
  "CHR ''$'' \<notin> set (percentEncode s)" "CHR ''}'' \<notin> set (percentEncode s)"
  using percentEncode_chars [of _ s] special_not_unreserved special_not_hex
  by blast+

lemma hexValue_hexDigit: "hexValue (hexDigit n) = n mod 16"
proof -
  have "\<forall>m \<in> set [0..<16]. hexValue (''0123456789ABCDEF'' ! m) = m"
    by (simp add: upt_rec hexValue_def)
  moreover have "n mod 16 \<in> set [0..<16]" by simp
  ultimately show ?thesis unfolding hexDigit_def by blast
qed

lemma percent_reserved: "CHR ''%'' \<notin> set unreserved"
  by (simp add: unreserved_def)

lemma percentDecode_plain:
  assumes "c \<noteq> CHR ''%''"
  shows "percentDecode (c # cs) = c # percentDecode cs"
proof (cases cs)
  case Nil
  then show ?thesis by simp
next
  case (Cons h hs)
  with assms show ?thesis by (cases hs) simp_all
qed

lemma percentDecode_encodeByte: "percentDecode (encodeByte c @ cs) = c # percentDecode cs"
proof (cases "c \<in> set unreserved")
  case True
  then have "c \<noteq> CHR ''%''" using percent_reserved by blast
  with True show ?thesis by (simp add: encodeByte_def percentDecode_plain)
next
  case False
  have "(of_char c :: nat) < 256" by (rule nat_of_char_less_256)
  then have "(of_char c :: nat) div 16 < 16" by arith
  then have "(of_char c :: nat) div 16 mod 16 = of_char c div 16" by simp
  then have "16 * ((of_char c :: nat) div 16 mod 16) + of_char c mod 16 = of_char c"
    by simp
  with False show ?thesis
    by (simp add: encodeByte_def hexValue_hexDigit)
qed

lemma percentDecode_percentEncode: "percentDecode (percentEncode s @ cs) = s @ percentDecode cs"
  by (induction s) (simp_all add: percentEncode_def percentDecode_encodeByte)

lemma dollar_encoded: "percentEncode (''$'' @ s) = ''%24'' @ percentEncode s"
  by (simp add: percentEncode_def encodeByte_def unreserved_def hexDigit_def)

lemma dispatchedName_fixed: "dispatchedName P n = fixedParamName P n"
  by (simp add: dispatchedName_def fixedParamName_def odataParams_def)

lemma Object_entries_set: "set (Object_entries kvs) = set kvs"
  by (auto simp: Object_entries_def)

lemma Array_join_strings_sublist: "x \<in> set xs \<Longrightarrow> sublist x (Array_join_strings sep xs)"
proof (induction sep xs rule: Array_join_strings.induct)
  case (1 sep)
  then show ?case by simp
next
  case (2 sep s)
  then show ?case by simp
next
  case (3 sep s t ts)
  show ?case
  proof (cases "x = s")
    case True
    then show ?thesis by simp
  next
    case False
    with 3 have "sublist x (Array_join_strings sep (t # ts))" by simp
    then have "sublist x ((s @ sep) @ Array_join_strings sep (t # ts))"
      by (simp only: sublist_append) simp
    then show ?thesis by simp
  qed
qed

text \<open>One round of the loop, seen from the objects of the query and of the headers.\<close>

lemma translateParam_kinds:
  assumes "translateParam P defs st entry = Inr st'"
  shows "t_queryParams st' =
           (if boundAs ''Query'' defs entry
            then (case ToString P (snd entry) of
                    Inl e \<Rightarrow> t_queryParams st
                  | Inr s \<Rightarrow> AList.update (dispatchedName P (fst entry)) s (t_queryParams st))
            else t_queryParams st)"
    and "t_headers st' =
           (if boundAs ''Header'' defs entry
            then (case ToString P (snd entry) of
                    Inl e \<Rightarrow> t_headers st
                  | Inr s \<Rightarrow> AList.update (dispatchedName P (fst entry)) s (t_headers st))
            else t_headers st)"
    and "boundAs ''Query'' defs entry \<or> boundAs ''Header'' defs entry
           \<Longrightarrow> \<exists>s. ToString P (snd entry) = Inr s"
    and "\<not> boundAs ''Path'' defs entry \<Longrightarrow> t_path st' = t_path st"
  using assms
  by (cases entry;
      auto simp: translateParam_def boundAs_def bindE_def dispatchedName_fixed
           split: if_splits option.splits sum.splits)+

lemma translateParams_kinds:
  "translateParams P defs st entries = Inr st' \<Longrightarrow>
     t_queryParams st' =
       fold (\<lambda>(n, v). case ToString P v of
                         Inl e \<Rightarrow> id | Inr s \<Rightarrow> AList.update (dispatchedName P n) s)
         (filter (boundAs ''Query'' defs) entries) (t_queryParams st) \<and>
     t_headers st' =
       fold (\<lambda>(n, v). case ToString P v of
                         Inl e \<Rightarrow> id | Inr s \<Rightarrow> AList.update (dispatchedName P n) s)
         (filter (boundAs ''Header'' defs) entries) (t_headers st) \<and>
     (\<forall>entry \<in> set entries. boundAs ''Query'' defs entry \<or> boundAs ''Header'' defs entry
         \<longrightarrow> (\<exists>s. ToString P (snd entry) = Inr s)) \<and>
     ((\<forall>entry \<in> set entries. \<not> boundAs ''Path'' defs entry) \<longrightarrow> t_path st' = t_path st)"
proof (induction entries arbitrary: st)
  case Nil
  then show ?case by simp
next
  case (Cons entry entries)
  from Cons.prems obtain st1 where s1: "translateParam P defs st entry = Inr st1"
    and rest: "translateParams P defs st1 entries = Inr st'"
    by (auto split: sum.splits)
  note k = translateParam_kinds [OF s1]
  note ih = Cons.IH [OF rest]
  obtain n v where e: "entry = (n, v)" by (cases entry)
  have q: "t_queryParams st' =
       fold (\<lambda>(n, v). case ToString P v of
                         Inl e \<Rightarrow> id | Inr s \<Rightarrow> AList.update (dispatchedName P n) s)
         (filter (boundAs ''Query'' defs) (entry # entries)) (t_queryParams st)"
    using ih [THEN conjunct1] k(1) by (simp add: e split: sum.splits)
  have h: "t_headers st' =
       fold (\<lambda>(n, v). case ToString P v of
                         Inl e \<Rightarrow> id | Inr s \<Rightarrow> AList.update (dispatchedName P n) s)
         (filter (boundAs ''Header'' defs) (entry # entries)) (t_headers st)"
    using ih [THEN conjunct2, THEN conjunct1] k(2) by (simp add: e split: sum.splits)
  have c: "\<forall>x \<in> set (entry # entries). boundAs ''Query'' defs x \<or> boundAs ''Header'' defs x
         \<longrightarrow> (\<exists>s. ToString P (snd x) = Inr s)"
    using ih [THEN conjunct2, THEN conjunct2, THEN conjunct1] k(3) by auto
  have p: "(\<forall>x \<in> set (entry # entries). \<not> boundAs ''Path'' defs x) \<longrightarrow> t_path st' = t_path st"
    using ih [THEN conjunct2, THEN conjunct2, THEN conjunct2] k(4) by auto
  from q h c p show ?case by blast
qed

lemma update_set: "set (AList.update k v al) \<subseteq> insert (k, v) (set al)"
  by (induction al) auto

lemma dispatched_keys:
  "\<forall>entry \<in> set xs. \<exists>s. ToString P (snd entry) = Inr s \<Longrightarrow>
     fst ` set (fold (\<lambda>(n, v). case ToString P v of
                                  Inl e \<Rightarrow> id | Inr s \<Rightarrow> AList.update (dispatchedName P n) s) xs m)
       = fst ` set m \<union> (\<lambda>entry. dispatchedName P (fst entry)) ` set xs"
proof (induction xs arbitrary: m)
  case Nil
  then show ?case by simp
next
  case (Cons x xs)
  obtain n v where x: "x = (n, v)" by (cases x)
  from Cons.prems x obtain s where s: "ToString P v = Inr s" by auto
  from Cons.prems have "\<forall>entry \<in> set xs. \<exists>s. ToString P (snd entry) = Inr s" by simp
  from Cons.IH [OF this, of "AList.update (dispatchedName P n) s m"]
  show ?case by (simp add: x s dom_update Un_commute Un_left_commute insert_commute)
qed

lemma dispatched_values:
  "(k, s) \<in> set (fold (\<lambda>(n, v). case ToString P v of
                                 Inl e \<Rightarrow> id | Inr s \<Rightarrow> AList.update (dispatchedName P n) s) xs m)
     \<Longrightarrow> (k, s) \<in> set m \<or>
         (\<exists>entry \<in> set xs. k = dispatchedName P (fst entry) \<and> ToString P (snd entry) = Inr s)"
proof (induction xs arbitrary: m)
  case Nil
  then show ?case by simp
next
  case (Cons x xs)
  obtain n v where x: "x = (n, v)" by (cases x)
  show ?case
  proof (cases "ToString P v")
    case (Inl e)
    with Cons.prems x have "(k, s) \<in> set (fold (\<lambda>(n, v). case ToString P v of
        Inl e \<Rightarrow> id | Inr s \<Rightarrow> AList.update (dispatchedName P n) s) xs m)"
      by simp
    from Cons.IH [OF this] show ?thesis by auto
  next
    case (Inr t)
    with Cons.prems x have "(k, s) \<in> set (fold (\<lambda>(n, v). case ToString P v of
        Inl e \<Rightarrow> id | Inr s \<Rightarrow> AList.update (dispatchedName P n) s) xs
          (AList.update (dispatchedName P n) t m))"
      by simp
    from Cons.IH [OF this] update_set [of "dispatchedName P n" t m] Inr x
    show ?thesis by auto
  qed
qed

lemma find_mapped: "find P (map f xs) = map_option f (find (P \<circ> f) xs)"
  by (induction xs) simp_all

lemma prefix_occursAt: "prefix pat s \<longleftrightarrow> occursAt pat s 0"
  by (auto simp: occursAt_def prefix_def) (metis append_take_drop_id)

lemma firstOccurrence_Cons:
  "firstOccurrence pat (c # cs) =
     (if prefix pat (c # cs) then Some 0 else map_option Suc (firstOccurrence pat cs))"
proof -
  have "[0..<Suc (Suc (length cs))] = 0 # map Suc [0..<Suc (length cs)]"
    by (simp add: upt_conv_Cons map_Suc_upt del: upt_Suc)
  moreover have "(occursAt pat (c # cs) \<circ> Suc) = occursAt pat cs"
    by (auto simp: occursAt_def fun_eq_iff)
  ultimately show ?thesis
    by (simp add: firstOccurrence_def find_mapped prefix_occursAt del: upt_Suc)
qed

lemma String_replace_spec: "String_replace pat rep s = replaceFirst pat rep s"
proof (induction s)
  case Nil
  show ?case
    by (auto simp: replaceFirst_def firstOccurrence_def occursAt_def)
next
  case (Cons c cs)
  show ?case
  proof (cases "prefix pat (c # cs)")
    case True
    then show ?thesis by (simp add: replaceFirst_def firstOccurrence_Cons)
  next
    case False
    then show ?thesis
      using Cons.IH
      by (cases "firstOccurrence pat cs") (simp_all add: replaceFirst_def firstOccurrence_Cons)
  qed
qed

lemma String_replace_none: "\<not> sublist pat s \<Longrightarrow> String_replace pat rep s = s"
proof (induction s)
  case Nil
  then have "pat \<noteq> []" by auto
  then show ?case by simp
next
  case (Cons c cs)
  then have "\<not> prefix pat (c # cs)" and "\<not> sublist pat cs"
    by (auto simp: sublist_Cons_right)
  with Cons.IH show ?case by simp
qed

lemma String_replace_leftmost:
  assumes "pat \<noteq> []"
  shows "\<not> sublist pat (pre @ butlast pat) \<Longrightarrow>
     String_replace pat rep (pre @ pat @ post) = pre @ rep @ post"
proof (induction pre)
  case Nil
  from assms obtain c cs where "pat @ post = c # cs" by (cases pat) auto
  then show ?case using String_replace.simps(2) [of pat rep c cs]
    by (metis append_Nil append_eq_conv_conj prefixI)
next
  case (Cons a pre)
  have np: "\<not> prefix pat (a # pre @ pat @ post)"
  proof
    assume pf: "prefix pat (a # pre @ pat @ post)"
    have "a # pre @ pat @ post = ((a # pre) @ butlast pat) @ (last pat # post)"
      using append_butlast_last_id [OF assms] by (metis append.assoc append_Cons append_Nil)
    then have "prefix ((a # pre) @ butlast pat) (a # pre @ pat @ post)"
      by (simp only: prefixI)
    moreover have "length pat \<le> length ((a # pre) @ butlast pat)"
      using assms by simp
    ultimately have "prefix pat ((a # pre) @ butlast pat)"
      using pf by (rule prefix_length_prefix [rotated])
    then have "sublist pat ((a # pre) @ butlast pat)" by (rule prefix_imp_sublist)
    with Cons.prems show False by simp
  qed
  from Cons.prems have "\<not> sublist pat (pre @ butlast pat)"
    by (auto simp: sublist_Cons_right)
  with Cons.IH np show ?case by simp
qed

lemma no_sublist_junction:
  assumes "\<not> sublist pat pre" and "\<not> sublist pat rest"
    and "pre = [] \<or> last pre \<notin> set (butlast pat)"
  shows "\<not> sublist pat (pre @ rest)"
proof
  assume "sublist pat (pre @ rest)"
  with assms(1,2) obtain p1 p2 where p: "pat = p1 @ p2" "suffix p1 pre" "prefix p2 rest"
    by (auto simp: sublist_append)
  from p assms(1) have p2: "p2 \<noteq> []" by (auto dest: suffix_imp_sublist)
  from p assms(2) have p1: "p1 \<noteq> []" by (auto dest: prefix_imp_sublist)
  from p(2) p1 have "pre \<noteq> []" and "last pre = last p1"
    by (auto simp: suffix_def)
  moreover from p(1) p1 p2 have "last p1 \<in> set (butlast pat)"
    by (simp add: butlast_append)
  ultimately show False using assms(3) by simp
qed

lemma no_sublist_behind:
  assumes "pat \<noteq> []" and "hd pat \<notin> set mid" and "\<not> sublist pat rest"
  shows "\<not> sublist pat (mid @ rest)"
proof
  assume "sublist pat (mid @ rest)"
  with assms(3) consider "sublist pat mid"
    | p1 p2 where "pat = p1 @ p2" "suffix p1 mid" "p1 \<noteq> []"
    by (auto simp: sublist_append) (metis append_Nil prefix_imp_sublist)
  then show False
  proof cases
    case 1
    then have "set pat \<subseteq> set mid" by (rule set_mono_sublist)
    with assms(1,2) show False by (cases pat) auto
  next
    case 2
    then have "hd pat = hd p1" by (cases p1) auto
    moreover from 2 have "set p1 \<subseteq> set mid" by (auto simp: suffix_def)
    ultimately show False using assms(2) 2(3) by (cases p1) auto
  qed
qed

lemma not_sublist_butlast:
  assumes "pat \<noteq> []"
  shows "\<not> sublist pat (butlast pat)"
proof
  assume "sublist pat (butlast pat)"
  then have "length pat \<le> length (butlast pat)" by (rule sublist_length_le)
  then have "length pat \<le> length pat - 1" by (simp only: length_butlast)
  moreover have "length pat \<noteq> 0" using assms by simp
  ultimately show False by arith
qed

lemma placeholder_resolved:
  assumes t: "t = pre @ ph @ post"
    and ph: "ph = ''{'' @ x @ ''}'' \<or> ph = '':'' @ x"
    and x: "CHR ''{'' \<notin> set x"
    and b: "pre = [] \<or> last pre \<notin> set ('':{'' @ x)"
    and pre: "\<not> sublist (''{'' @ x @ ''}'') pre" "\<not> sublist ('':'' @ x) pre"
    and post: "\<not> sublist (''{'' @ x @ ''}'') post" "\<not> sublist ('':'' @ x) post"
    and enc: "CHR ''{'' \<notin> set enc" "CHR '':'' \<notin> set enc"
  shows "String_replace ('':'' @ x) enc (String_replace (''{'' @ x @ ''}'') enc t)
           = pre @ enc @ post"
    and "\<not> sublist (''{'' @ x @ ''}'') (pre @ enc @ post)"
    and "\<not> sublist ('':'' @ x) (pre @ enc @ post)"
proof -
  let ?B = "''{'' @ x @ ''}''" and ?C = "'':'' @ x"
  have bB: "pre = [] \<or> last pre \<notin> set (butlast ?B)"
    using b by (auto simp: butlast_append)
  have bC: "pre = [] \<or> last pre \<notin> set (butlast ?C)"
    using b by (auto simp: butlast_append dest: in_set_butlastD)
  have rB: "\<not> sublist ?B (pre @ enc @ post)"
    by (rule no_sublist_junction [OF pre(1) _ bB], rule no_sublist_behind)
       (use enc post in simp_all)
  have rC: "\<not> sublist ?C (pre @ enc @ post)"
    by (rule no_sublist_junction [OF pre(2) _ bC], rule no_sublist_behind)
       (use enc post in simp_all)
  have shortB: "\<not> sublist ?B (butlast ?B)" and shortC: "\<not> sublist ?C (butlast ?C)"
    by (rule not_sublist_butlast, simp)+
  have "String_replace ?C enc (String_replace ?B enc (pre @ ph @ post)) = pre @ enc @ post"
  proof (cases "ph = ?B")
    case True
    have "\<not> sublist ?B (pre @ butlast ?B)"
      by (rule no_sublist_junction [OF pre(1) shortB bB])
    then have "String_replace ?B enc (pre @ ?B @ post) = pre @ enc @ post"
      by (intro String_replace_leftmost) simp_all
    moreover have "String_replace ?C enc (pre @ enc @ post) = pre @ enc @ post"
      using rC by (rule String_replace_none)
    ultimately show ?thesis using True by simp
  next
    case False
    with ph have phC: "ph = ?C" by simp
    have "\<not> sublist ?B (?C @ post)"
      by (rule no_sublist_behind) (use x post in simp_all)
    then have "\<not> sublist ?B (pre @ ?C @ post)"
      by (rule no_sublist_junction [OF pre(1) _ bB])
    then have "String_replace ?B enc (pre @ ?C @ post) = pre @ ?C @ post"
      by (rule String_replace_none)
    moreover have "\<not> sublist ?C (pre @ butlast ?C)"
      by (rule no_sublist_junction [OF pre(2) shortC bC])
    then have "String_replace ?C enc (pre @ ?C @ post) = pre @ enc @ post"
      by (intro String_replace_leftmost) simp_all
    ultimately show ?thesis using phC by simp
  qed
  then show "String_replace ?C enc (String_replace ?B enc t) = pre @ enc @ post"
    by (simp add: t)
  show "\<not> sublist ?B (pre @ enc @ post)" by (rule rB)
  show "\<not> sublist ?C (pre @ enc @ post)" by (rule rC)
qed

lemma translateParam_path:
  assumes "boundAs ''Path'' defs (x, v)" and "ToString P v = Inr s"
  shows "translateParam P defs st (x, v) =
     Inr (st\<lparr>t_path := String_replace ('':'' @ x) (percentEncode s)
                          (String_replace (''{'' @ x @ ''}'') (percentEncode s) (t_path st))\<rparr>)"
  using assms
  by (auto simp: translateParam_def boundAs_def encodeURIComponent_def bindE_def
      split: option.splits)

text \<open>
  C5, as stated, at a template in which the placeholder occurs twice: only the first
  occurrence is replaced, and the literal \<open>:id\<close> is still in the path.
\<close>

theorem C5_repeated_placeholder_counterexample:
  "translateParam (stub_platform [])
     [\<lparr>name = ''id'', type = ''Path'', schema = None, description = None\<rparr>]
     \<lparr>t_path = ''/users/:id/manager/:id'', t_queryParams = [], t_headers = [], t_body = JNull\<rparr>
     (''id'', JStr ''42'')
   = Inr \<lparr>t_path = ''/users/42/manager/:id'', t_queryParams = [], t_headers = [],
          t_body = JNull\<rparr> \<and>
   sublist '':id'' ''/users/42/manager/:id''"
  by (simp add: translateParam_def encodeURIComponent_def bindE_def percentEncode_def
      encodeByte_def unreserved_def sublist_code prefix_code)

text \<open>
  C5, amended: a bound Path parameter \<open>x\<close> replaces the first occurrence of \<open>{x}\<close> in
  the path and then the first occurrence of \<open>:x\<close> by the URL-encoded value, whatever the
  path is; later occurrences stay. So the path of the request for a bag that binds \<open>x\<close>
  alone is the template with these two replacements. When the template is
  \<open>pre @ ph @ post\<close> where \<open>ph\<close> is the placeholder \<open>{x}\<close> or \<open>:x\<close>, neither literal occurs
  in \<open>pre\<close> or in \<open>post\<close> (other placeholders may), the name has no brace, and the
  character before the placeholder is not a colon, a brace or a character of the name,
  the result is \<open>pre\<close>, the encoded value, \<open>post\<close>, and it contains no literal \<open>{x}\<close> or
  \<open>:x\<close>.
\<close>

theorem C5_first_occurrence_replaced:
  assumes "boundAs ''Path'' (parameterDefinitions tool) (x, v)" and "ToString P v = Inr s"
  shows "translateParam P (parameterDefinitions tool) st (x, v) =
           Inr (st\<lparr>t_path := replaceFirst ('':'' @ x) (percentEncode s)
                                (replaceFirst (''{'' @ x @ ''}'') (percentEncode s) (t_path st))\<rparr>) \<and>
         (\<exists>options. translate P tool [(x, v)] =
            Inr (replaceFirst ('':'' @ x) (percentEncode s)
                   (replaceFirst (''{'' @ x @ ''}'') (percentEncode s) (path tool)), options)) \<and>
         (\<forall>pre ph post.
            t_path st = pre @ ph @ post \<and> (ph = ''{'' @ x @ ''}'' \<or> ph = '':'' @ x) \<and>
            CHR ''{'' \<notin> set x \<and> (pre = [] \<or> last pre \<notin> set ('':{'' @ x)) \<and>
            \<not> sublist (''{'' @ x @ ''}'') pre \<and> \<not> sublist ('':'' @ x) pre \<and>
            \<not> sublist (''{'' @ x @ ''}'') post \<and> \<not> sublist ('':'' @ x) post
            \<longrightarrow> translateParam P (parameterDefinitions tool) st (x, v) =
                  Inr (st\<lparr>t_path := pre @ percentEncode s @ post\<rparr>) \<and>
                \<not> sublist (''{'' @ x @ ''}'') (pre @ percentEncode s @ post) \<and>
                \<not> sublist ('':'' @ x) (pre @ percentEncode s @ post))"
proof (intro conjI allI impI)
  note step = translateParam_path [OF assms]
  show "translateParam P (parameterDefinitions tool) st (x, v) =
           Inr (st\<lparr>t_path := replaceFirst ('':'' @ x) (percentEncode s)
                                (replaceFirst (''{'' @ x @ ''}'') (percentEncode s) (t_path st))\<rparr>)"
    by (simp add: step String_replace_spec)
  show "\<exists>options. translate P tool [(x, v)] =
            Inr (replaceFirst ('':'' @ x) (percentEncode s)
                   (replaceFirst (''{'' @ x @ ''}'') (percentEncode s) (path tool)), options)"
    using step [of "\<lparr>t_path = path tool, t_queryParams = [], t_headers = [], t_body = JNull\<rparr>"]
    by (simp add: translate_def parameterDefinitions_def bindE_def Let_def String_replace_spec)
  fix pre ph post
  assume h: "t_path st = pre @ ph @ post \<and> (ph = ''{'' @ x @ ''}'' \<or> ph = '':'' @ x) \<and>
            CHR ''{'' \<notin> set x \<and> (pre = [] \<or> last pre \<notin> set ('':{'' @ x)) \<and>
            \<not> sublist (''{'' @ x @ ''}'') pre \<and> \<not> sublist ('':'' @ x) pre \<and>
            \<not> sublist (''{'' @ x @ ''}'') post \<and> \<not> sublist ('':'' @ x) post"
  note r = placeholder_resolved [of "t_path st" pre ph post x "percentEncode s",
      OF _ _ _ _ _ _ _ _ percentEncode_safe(1) percentEncode_safe(2)]
  from h r(1) show "translateParam P (parameterDefinitions tool) st (x, v) =
                  Inr (st\<lparr>t_path := pre @ percentEncode s @ post\<rparr>)"
    by (simp add: step)
  from h r(2) show "\<not> sublist (''{'' @ x @ ''}'') (pre @ percentEncode s @ post)"
    by blast
  from h r(3) show "\<not> sublist ('':'' @ x) (pre @ percentEncode s @ post)"
    by blast
qed

theorem C5_first_occurrence_replaced_witness:
  "translateParam (stub_platform []) (parameterDefinitions user_message_tool)
     \<lparr>t_path = ''/users/:userId/messages/:messageId'', t_queryParams = [], t_headers = [],
      t_body = JNull\<rparr>
     (''messageId'', JStr ''AAMk/x='')
   = Inr \<lparr>t_path = ''/users/:userId/messages/AAMk%2Fx%3D'', t_queryParams = [],
          t_headers = [], t_body = JNull\<rparr> \<and>
   \<not> sublist (''{'' @ ''messageId'' @ ''}'') ''/users/:userId/messages/AAMk%2Fx%3D'' \<and>
   \<not> sublist ('':'' @ ''messageId'') ''/users/:userId/messages/AAMk%2Fx%3D'' \<and>
   fst (projr (translate (stub_platform []) user_message_tool [(''userId'', JStr ''42'')]))
     = ''/users/42/messages/:messageId'' \<and>
   fst (projr (translate (stub_platform []) user_message_tool
                 [(''userId'', JStr ''42''), (''messageId'', JStr ''AAMk/x='')]))
     = ''/users/42/messages/AAMk%2Fx%3D''"
proof -
  let ?P = "stub_platform []"
  let ?st = "\<lparr>t_path = ''/users/:userId/messages/:messageId'', t_queryParams = [],
              t_headers = [], t_body = JNull\<rparr>"
  have enc: "percentEncode ''AAMk/x='' = ''AAMk%2Fx%3D''" "percentEncode ''42'' = ''42''"
    by (simp_all add: percentEncode_def encodeByte_def unreserved_def hexDigit_def)
  have bm: "boundAs ''Path'' (parameterDefinitions user_message_tool) (''messageId'', JStr ''AAMk/x='')"
    and bu: "boundAs ''Path'' (parameterDefinitions user_message_tool) (''userId'', JStr ''42'')"
    by (simp_all add: boundAs_def parameterDefinitions_def user_message_tool_def)
  note m = C5_first_occurrence_replaced [OF bm, of ?P "''AAMk/x=''" ?st, simplified]
  note u = C5_first_occurrence_replaced [OF bu, of ?P "''42''" ?st, simplified]
  from m [THEN conjunct2, THEN conjunct2, THEN spec, of "''/users/:userId/messages/''",
      THEN spec, of "'':messageId''", THEN spec, of "[]"]
  have a: "translateParam ?P (parameterDefinitions user_message_tool) ?st
      (''messageId'', JStr ''AAMk/x='')
      = Inr \<lparr>t_path = ''/users/:userId/messages/AAMk%2Fx%3D'', t_queryParams = [],
             t_headers = [], t_body = JNull\<rparr> \<and>
     \<not> sublist (''{'' @ ''messageId'' @ ''}'') ''/users/:userId/messages/AAMk%2Fx%3D'' \<and>
     \<not> sublist ('':'' @ ''messageId'') ''/users/:userId/messages/AAMk%2Fx%3D''"
    by (simp add: enc sublist_code prefix_code)
  from u [THEN conjunct2, THEN conjunct1]
  have b: "fst (projr (translate ?P user_message_tool [(''userId'', JStr ''42'')]))
     = ''/users/42/messages/:messageId''"
    by (auto simp: enc user_message_tool_def replaceFirst_def firstOccurrence_def occursAt_def
        upt_rec)
  have c: "fst (projr (translate ?P user_message_tool
                 [(''userId'', JStr ''42''), (''messageId'', JStr ''AAMk/x='')]))
     = ''/users/42/messages/AAMk%2Fx%3D''"
    by (simp add: translate_def translateParam_def bindE_def encodeURIComponent_def enc
        user_message_tool_def Let_def prefix_code)
  from a b c show ?thesis by blast
qed

text \<open>
  C7: in the request that the translator builds from a parameter bag, the headers are
  exactly the object that has, for every entry bound as a Header parameter, the
  stringified value under the dispatched name (the lower-cased name with a dollar sign in
  front for the nine OData names, the name itself otherwise); and the path ends with the
  query string that lists, for the entries bound as Query parameters, the dispatched name
  and the stringified value, both URL-encoded, as \<open>name=value\<close> joined by \<open>&\<close>. So
  the names dispatched are the dispatched names of the bound entries and no others, every
  value is the string conversion of a bound value, and the path contains the URL-encoded
  dispatched name of every bound Query parameter (with \<open>%24\<close> for the dollar sign), which
  decodes to that name.
\<close>

theorem C7_odata_parameter_names:
  assumes "translate P tool params = Inr (p, options)"
  shows "opt_headers options = dispatched P (parameterDefinitions tool) ''Header'' params \<and>
         (\<exists>base. p = base @
             (if dispatched P (parameterDefinitions tool) ''Query'' params = [] then []
              else (if CHR ''?'' \<in> set base then ''&'' else ''?'') @
                   Array_join_strings ''&''
                     (map (\<lambda>(k, s). percentEncode k @ ''='' @ percentEncode s)
                        (Object_entries
                           (dispatched P (parameterDefinitions tool) ''Query'' params)))) \<and>
             ((\<forall>entry \<in> set params. \<not> boundAs ''Path'' (parameterDefinitions tool) entry)
                \<longrightarrow> base = path tool)) \<and>
         (\<forall>kind. kind = ''Query'' \<or> kind = ''Header'' \<longrightarrow>
            fst ` set (dispatched P (parameterDefinitions tool) kind params) =
              (\<lambda>entry. dispatchedName P (fst entry)) `
                {entry \<in> set params. boundAs kind (parameterDefinitions tool) entry}) \<and>
         (\<forall>kind k s. (k, s) \<in> set (dispatched P (parameterDefinitions tool) kind params) \<longrightarrow>
            (\<exists>entry \<in> set params. boundAs kind (parameterDefinitions tool) entry \<and>
               k = dispatchedName P (fst entry) \<and> ToString P (snd entry) = Inr s)) \<and>
         (\<forall>entry \<in> set params. boundAs ''Query'' (parameterDefinitions tool) entry \<longrightarrow>
            sublist (percentEncode (dispatchedName P (fst entry)) @ ''='') p \<and>
            percentEncode (dispatchedName P (fst entry)) =
              (if toLowerCase P (fst entry) \<in> {''filter'', ''select'', ''expand'', ''orderby'',
                     ''skip'', ''top'', ''count'', ''search'', ''format''}
               then ''%24'' @ percentEncode (toLowerCase P (fst entry))
               else percentEncode (fst entry)) \<and>
            percentDecode (percentEncode (dispatchedName P (fst entry))) =
              dispatchedName P (fst entry))"
proof -
  let ?defs = "parameterDefinitions tool"
  let ?upd = "\<lambda>(n, v). case ToString P v of
                Inl e \<Rightarrow> id | Inr s \<Rightarrow> AList.update (dispatchedName P n) s"
  let ?q = "dispatched P ?defs ''Query'' params"
  from assms obtain st where
    st: "translateParams P ?defs
           \<lparr>t_path = path tool, t_queryParams = [], t_headers = [], t_body = JNull\<rparr> params = Inr st"
    and hd: "opt_headers options = t_headers st"
    and pp: "p = (if t_queryParams st \<noteq> []
                  then t_path st @ (if CHR ''?'' \<in> set (t_path st) then ''&'' else ''?'')
                       @ queryString (t_queryParams st)
                  else t_path st)"
    by (auto simp: translate_def parameterDefinitions_def bindE_def Let_def split: sum.splits)
  note k = translateParams_kinds [OF st]
  have q: "t_queryParams st = ?q"
    using k [THEN conjunct1] by (simp add: dispatched_def)
  have h: "t_headers st = dispatched P ?defs ''Header'' params"
    using k [THEN conjunct2, THEN conjunct1] by (simp add: dispatched_def)
  have conv: "\<forall>entry \<in> set params. boundAs ''Query'' ?defs entry \<or> boundAs ''Header'' ?defs entry
         \<longrightarrow> (\<exists>s. ToString P (snd entry) = Inr s)"
    using k [THEN conjunct2, THEN conjunct2, THEN conjunct1] .
  have base: "(\<forall>entry \<in> set params. \<not> boundAs ''Path'' ?defs entry) \<longrightarrow> t_path st = path tool"
    using k [THEN conjunct2, THEN conjunct2, THEN conjunct2] by simp
  have c1: "opt_headers options = dispatched P ?defs ''Header'' params"
    by (simp add: hd h)
  have c2: "\<exists>base. p = base @
             (if ?q = [] then []
              else (if CHR ''?'' \<in> set base then ''&'' else ''?'') @
                   Array_join_strings ''&''
                     (map (\<lambda>(k, s). percentEncode k @ ''='' @ percentEncode s)
                        (Object_entries ?q))) \<and>
             ((\<forall>entry \<in> set params. \<not> boundAs ''Path'' ?defs entry) \<longrightarrow> base = path tool)"
    using pp base by (intro exI [of _ "t_path st"]) (simp add: q queryString_def)
  have keys: "fst ` set (dispatched P ?defs kind params) =
      (\<lambda>entry. dispatchedName P (fst entry)) ` {entry \<in> set params. boundAs kind ?defs entry}"
    if "kind = ''Query'' \<or> kind = ''Header''" for kind
  proof -
    have "\<forall>entry \<in> set (filter (boundAs kind ?defs) params). \<exists>s. ToString P (snd entry) = Inr s"
      using conv that by auto
    from dispatched_keys [OF this, of "[]"] show ?thesis
      by (simp add: dispatched_def)
  qed
  have vals: "\<exists>entry \<in> set params. boundAs kind ?defs entry \<and>
               k = dispatchedName P (fst entry) \<and> ToString P (snd entry) = Inr s"
    if "(k, s) \<in> set (dispatched P ?defs kind params)" for kind k s
    using dispatched_values [OF that [unfolded dispatched_def]] by auto
  have url: "sublist (percentEncode (dispatchedName P (fst entry)) @ ''='') p"
    if e: "entry \<in> set params" and b: "boundAs ''Query'' ?defs entry" for entry
  proof -
    from e b keys [of "''Query''"] have "dispatchedName P (fst entry) \<in> fst ` set ?q"
      by blast
    then obtain s where ks: "(dispatchedName P (fst entry), s) \<in> set ?q"
      by force
    then have ne: "?q \<noteq> []" by auto
    let ?kv = "percentEncode (dispatchedName P (fst entry)) @ ''='' @ percentEncode s"
    from ks have "?kv \<in> set (map (\<lambda>(k, s). percentEncode k @ ''='' @ percentEncode s)
                              (Object_entries ?q))"
      by (force simp: Object_entries_set)
    then have "sublist ?kv (queryString ?q)"
      unfolding queryString_def by (rule Array_join_strings_sublist)
    moreover have "sublist (percentEncode (dispatchedName P (fst entry)) @ ''='') ?kv"
      using sublist_append_rightI [of "percentEncode (dispatchedName P (fst entry)) @ ''=''"
          "percentEncode s"] by simp
    ultimately have "sublist (percentEncode (dispatchedName P (fst entry)) @ ''='')
        (queryString ?q)"
      by (rule sublist_order.order.trans [rotated])
    moreover have "p = (t_path st @ (if CHR ''?'' \<in> set (t_path st) then ''&'' else ''?''))
        @ queryString ?q"
      using pp ne by (simp add: q)
    ultimately show ?thesis by (simp only: sublist_append) simp
  qed
  have enc: "percentEncode (dispatchedName P n) =
      (if toLowerCase P n \<in> {''filter'', ''select'', ''expand'', ''orderby'',
             ''skip'', ''top'', ''count'', ''search'', ''format''}
       then ''%24'' @ percentEncode (toLowerCase P n) else percentEncode n)" for n
    using dollar_encoded [of "toLowerCase P n"] by (simp add: dispatchedName_def)
  have dec: "percentDecode (percentEncode (dispatchedName P n)) = dispatchedName P n" for n
    using percentDecode_percentEncode [of "dispatchedName P n" "[]"] by simp
  show ?thesis
  proof (intro conjI)
    show "opt_headers options = dispatched P ?defs ''Header'' params" by (rule c1)
    show "\<exists>base. p = base @
             (if ?q = [] then []
              else (if CHR ''?'' \<in> set base then ''&'' else ''?'') @
                   Array_join_strings ''&''
                     (map (\<lambda>(k, s). percentEncode k @ ''='' @ percentEncode s)
                        (Object_entries ?q))) \<and>
             ((\<forall>entry \<in> set params. \<not> boundAs ''Path'' ?defs entry) \<longrightarrow> base = path tool)"
      by (rule c2)
    show "\<forall>kind. kind = ''Query'' \<or> kind = ''Header'' \<longrightarrow>
            fst ` set (dispatched P ?defs kind params) =
              (\<lambda>entry. dispatchedName P (fst entry)) `
                {entry \<in> set params. boundAs kind ?defs entry}"
      by (intro allI impI) (rule keys)
    show "\<forall>kind k s. (k, s) \<in> set (dispatched P ?defs kind params) \<longrightarrow>
            (\<exists>entry \<in> set params. boundAs kind ?defs entry \<and>
               k = dispatchedName P (fst entry) \<and> ToString P (snd entry) = Inr s)"
      by (intro allI impI) (rule vals)
    show "\<forall>entry \<in> set params. boundAs ''Query'' ?defs entry \<longrightarrow>
            sublist (percentEncode (dispatchedName P (fst entry)) @ ''='') p \<and>
            percentEncode (dispatchedName P (fst entry)) =
              (if toLowerCase P (fst entry) \<in> {''filter'', ''select'', ''expand'', ''orderby'',
                     ''skip'', ''top'', ''count'', ''search'', ''format''}
               then ''%24'' @ percentEncode (toLowerCase P (fst entry))
               else percentEncode (fst entry)) \<and>
            percentDecode (percentEncode (dispatchedName P (fst entry))) =
              dispatchedName P (fst entry)"
    proof (intro ballI impI conjI)
      fix entry
      assume "entry \<in> set params" "boundAs ''Query'' ?defs entry"
      then show "sublist (percentEncode (dispatchedName P (fst entry)) @ ''='') p"
        by (rule url)
    qed (rule enc, rule dec)
  qed
qed

theorem C7_odata_parameter_names_witness:
  "translate (stub_platform []) demo_tool
      [(''Select'', JArr [JStr ''subject'', JStr ''from'']),
       (''Prefer'', JStr ''outlook.body-content-type=text'')]
    = Inr (''/me/messages/:messageId?%24select=subject%2Cfrom'',
           \<lparr>opt_method = ''GET'',
            opt_headers = [(''Prefer'', ''outlook.body-content-type=text'')],
            opt_body = None, opt_rawResponse = False, opt_queryParams = None\<rparr>) \<and>
   dispatched (stub_platform []) (parameterDefinitions demo_tool) ''Header''
      [(''Select'', JArr [JStr ''subject'', JStr ''from'']),
       (''Prefer'', JStr ''outlook.body-content-type=text'')]
    = [(''Prefer'', ''outlook.body-content-type=text'')] \<and>
   dispatched (stub_platform []) (parameterDefinitions demo_tool) ''Query''
      [(''Select'', JArr [JStr ''subject'', JStr ''from'']),
       (''Prefer'', JStr ''outlook.body-content-type=text'')]
    = [(''$select'', ''subject,from'')] \<and>
   sublist ''%24select='' ''/me/messages/:messageId?%24select=subject%2Cfrom'' \<and>
   percentDecode ''%24select'' = ''$select''"
proof -
  let ?P = "stub_platform []"
  let ?params = "[(''Select'', JArr [JStr ''subject'', JStr ''from'']),
                  (''Prefer'', JStr ''outlook.body-content-type=text'')]"
  let ?o = "\<lparr>opt_method = ''GET'',
             opt_headers = [(''Prefer'', ''outlook.body-content-type=text'')],
             opt_body = None, opt_rawResponse = False, opt_queryParams = None\<rparr>"
  have low: "toLowerCase ?P ''Select'' = ''select''" "toLowerCase ?P ''Prefer'' = ''prefer''"
    by (simp_all add: stub_platform_def asciiLower_def)
  have names: "dispatchedName ?P ''Select'' = ''$select''" "dispatchedName ?P ''Prefer'' = ''Prefer''"
    by (simp_all add: dispatchedName_def low)
  have enc: "percentEncode ''$select'' = ''%24select''"
    "percentEncode ''subject,from'' = ''subject%2Cfrom''"
    by (simp_all add: percentEncode_def encodeByte_def unreserved_def hexDigit_def)
  have up: "toUpperCase ?P ''get'' = ''GET''"
    by (simp add: stub_platform_def asciiUpper_def)
  have tr: "translate ?P demo_tool ?params
      = Inr (''/me/messages/:messageId?%24select=subject%2Cfrom'', ?o)"
    by (simp add: translate_def translateParam_def bindE_def names [unfolded dispatchedName_fixed]
        queryString_def Object_entries_def isArrayIndex_def enc
        isProbablyMediaContent_def suffix_to_prefix demo_tool_def up Let_def)
  have bound: "boundAs ''Query'' (parameterDefinitions demo_tool)
      (''Select'', JArr [JStr ''subject'', JStr ''from''])"
    by (simp add: boundAs_def parameterDefinitions_def demo_tool_def)
  note inst = C7_odata_parameter_names [OF tr]
  from inst [THEN conjunct1]
  have h: "dispatched ?P (parameterDefinitions demo_tool) ''Header'' ?params
      = [(''Prefer'', ''outlook.body-content-type=text'')]"
    by simp
  have q: "dispatched ?P (parameterDefinitions demo_tool) ''Query'' ?params
      = [(''$select'', ''subject,from'')]"
    by (simp add: dispatched_def boundAs_def parameterDefinitions_def demo_tool_def names)
  have mem: "(''Select'', JArr [JStr ''subject'', JStr ''from'']) \<in> set ?params"
    by simp
  note r = inst [THEN conjunct2, THEN conjunct2, THEN conjunct2, THEN conjunct2, THEN bspec,
      OF mem, THEN mp, OF bound]
  have u: "sublist ''%24select='' ''/me/messages/:messageId?%24select=subject%2Cfrom''"
    using r [THEN conjunct1] by (simp only: fst_conv names enc append.simps)
  have d: "percentDecode ''%24select'' = ''$select''"
    using r [THEN conjunct2, THEN conjunct2] by (simp only: fst_conv names enc)
  from tr h q u d show ?thesis by blast
qed

section \<open>Properties of the handler\<close>

declare fetchPages.simps [simp del]

lemma graphRequest_sent:
  "graphRequest T p options w = (r, w') \<Longrightarrow> sent w' = sent w @ [(p, options)]"
  by (auto simp: graphRequest_def split: prod.splits)

lemma fetchNextPage_sent:
  assumes "fetchNextPage P T options allItems nextLink w = (r, w')"
  shows "sent w' = sent w \<or> (\<exists>p q. sent w' = sent w @ [(p, options\<lparr>opt_queryParams := q\<rparr>)])"
proof (cases "bindE (ToString P nextLink) (new_URL P)")
  case (Inl e)
  with assms show ?thesis by (simp add: fetchNextPage_def)
next
  case (Inr u)
  obtain r1 w1 where g: "graphRequest T (String_replace ''/v1.0'' [] (pathname u))
      (options\<lparr>opt_queryParams :=
         Some (fold (\<lambda>(key, v). AList.update key v) (searchParams u) [])\<rparr>) w = (r1, w1)"
    by fastforce
  from assms Inr g have "w' = w1"
    by (auto simp: fetchNextPage_def split: sum.splits option.splits prod.splits)
  with graphRequest_sent [OF g] show ?thesis by blast
qed

lemma fetchPages_sent:
  "fetchPages P T options allItems nextLink pageCount w = (r, w') \<Longrightarrow>
     \<exists>new. sent w' = sent w @ new \<and> (\<forall>po \<in> set new. \<exists>q. snd po = options\<lparr>opt_queryParams := q\<rparr>)"
proof (induction P T options allItems nextLink pageCount w arbitrary: r w' rule: fetchPages.induct)
  case (1 P T options allItems nextLink pageCount w)
  show ?case
  proof (cases "truthy nextLink")
    case False
    with "1.prems" have "w' = w" by (simp add: fetchPages.simps)
    then show ?thesis by simp
  next
    case True
    obtain st w1 where step: "fetchNextPage P T options allItems nextLink w = (st, w1)"
      by fastforce
    from fetchNextPage_sent [OF step]
    obtain new1 where n1: "sent w1 = sent w @ new1"
      and q1: "\<forall>po \<in> set new1. \<exists>q. snd po = options\<lparr>opt_queryParams := q\<rparr>"
      by fastforce
    show ?thesis
    proof (cases "\<exists>a l. st = Next a l \<and> \<not> pageCount + 1 > 100")
      case False
      with "1.prems" True step have "w' = w1"
        by (cases st) (auto simp: fetchPages.simps [of P T options allItems nextLink pageCount w])
      with n1 q1 show ?thesis by blast
    next
      case True
      then obtain a l where st: "st = Next a l" and le: "\<not> pageCount + 1 > 100" by blast
      from "1.prems" \<open>truthy nextLink\<close> step st le
      have rec: "fetchPages P T options a l (pageCount + 1) w1 = (r, w')"
        by (simp add: fetchPages.simps [of P T options allItems nextLink pageCount w])
      from "1.IH" [OF _ step [symmetric] st le rec] \<open>truthy nextLink\<close>
      obtain new2 where "sent w' = sent w1 @ new2"
        and "\<forall>po \<in> set new2. \<exists>q. snd po = options\<lparr>opt_queryParams := q\<rparr>"
        by auto
      with n1 q1 have "sent w' = sent w @ (new1 @ new2) \<and>
          (\<forall>po \<in> set (new1 @ new2). \<exists>q. snd po = options\<lparr>opt_queryParams := q\<rparr>)"
        by auto
      then show ?thesis by blast
    qed
  qed
qed

lemma combinedResponse_sent:
  assumes "combinedResponse P T options item w = (r, w')"
  shows "\<exists>new. sent w' = sent w @ new \<and> (\<forall>po \<in> set new. \<exists>q. snd po = options\<lparr>opt_queryParams := q\<rparr>)"
proof (cases "\<exists>firstPage v nextLink. JSON_parse P (item_text item) = Inr firstPage \<and>
    js_get firstPage ''value'' = Inr v \<and> js_get firstPage ''@odata.nextLink'' = Inr nextLink")
  case False
  with assms have "w' = w"
    by (auto simp: combinedResponse_def split: sum.splits)
  then show ?thesis by simp
next
  case True
  then obtain firstPage v nextLink where "JSON_parse P (item_text item) = Inr firstPage"
    "js_get firstPage ''value'' = Inr v" "js_get firstPage ''@odata.nextLink'' = Inr nextLink"
    by blast
  moreover obtain r1 w1 where
    f: "fetchPages P T options (if truthy v then v else JArr []) nextLink 1 w = (r1, w1)"
    by fastforce
  ultimately have "w' = w1"
    using assms by (auto simp: combinedResponse_def split: sum.splits prod.splits)
  with fetchPages_sent [OF f] show ?thesis by simp
qed

lemma paginate_sent:
  assumes "paginate P T options params response w = (response', w')"
  shows "\<exists>new. sent w' = sent w @ new \<and> (\<forall>po \<in> set new. \<exists>q. snd po = options\<lparr>opt_queryParams := q\<rparr>)"
proof (cases "\<exists>r item rest. map_of params ''fetchAllPages'' = Some (JBool True) \<and>
    response = Defined r \<and> firstItem response = Some (item, rest)")
  case False
  with assms have "w' = w"
    by (auto simp: paginate_def split: if_splits option.splits nullable.splits)
  then show ?thesis by simp
next
  case True
  then obtain r item rest where h: "map_of params ''fetchAllPages'' = Some (JBool True)"
    "response = Defined r" "firstItem response = Some (item, rest)"
    by blast
  obtain c w1 where c: "combinedResponse P T options item w = (c, w1)"
    by fastforce
  from assms h c have "w' = w1"
    by (auto simp: paginate_def paginate_try_def split: sum.splits)
  with combinedResponse_sent [OF c] show ?thesis by simp
qed

lemma handler_sent:
  assumes "handler P T tool params w = (result, w')"
  shows "(\<forall>e. translate P tool params = Inl e \<longrightarrow> sent w' = sent w) \<and>
         (\<forall>p options. translate P tool params = Inr (p, options) \<longrightarrow>
            (\<exists>new. sent w' = sent w @ (p, options) # new \<and>
                   (\<forall>po \<in> set new. \<exists>q. snd po = options\<lparr>opt_queryParams := q\<rparr>)))"
proof (intro conjI allI impI)
  fix e
  assume "translate P tool params = Inl e"
  with assms show "sent w' = sent w"
    by (simp add: handler_def handler_try_def)
next
  fix p options
  assume tr: "translate P tool params = Inr (p, options)"
  obtain r1 w1 where g: "graphRequest T p options w = (r1, w1)"
    by fastforce
  note s1 = graphRequest_sent [OF g]
  show "\<exists>new. sent w' = sent w @ (p, options) # new \<and>
          (\<forall>po \<in> set new. \<exists>q. snd po = options\<lparr>opt_queryParams := q\<rparr>)"
  proof (cases r1)
    case (Inl e)
    with assms tr g have "w' = w1"
      by (simp add: handler_def handler_try_def)
    with s1 show ?thesis by simp
  next
    case (Inr response)
    obtain response' w2 where pg: "paginate P T options params response w1 = (response', w2)"
      by fastforce
    from assms tr g Inr pg have "w' = w2"
      by (auto simp: handler_def handler_try_def split: sum.splits)
    with paginate_sent [OF pg] s1 show ?thesis by auto
  qed
qed

lemma translate_GET_body:
  "toUpperCase P (method tool) = ''GET'' \<Longrightarrow> translate P tool params = Inr (p, options)
     \<Longrightarrow> opt_body options = None"
  by (auto simp: translate_def bindE_def Let_def split: sum.splits)

text \<open>
  C10: when the upper-cased method of the endpoint is GET, every request that an
  invocation issues, the first one and the follow-up requests of the pagination, has no
  body, whatever the parameter bag binds; and the first request is issued as soon as the
  translation does not throw.
\<close>

theorem C10_get_request_has_no_body:
  assumes "toUpperCase P (method tool) = ''GET''"
  shows "\<exists>new. sent (snd (handler P T tool params w)) = sent w @ new \<and>
           (\<forall>po \<in> set new. opt_body (snd po) = None) \<and>
           (\<forall>p options. translate P tool params = Inr (p, options) \<longrightarrow>
              new \<noteq> [] \<and> hd new = (p, options))"
proof (cases "translate P tool params")
  case (Inl e)
  with handler_sent [of P T tool params w] have "sent (snd (handler P T tool params w)) = sent w"
    by (cases "handler P T tool params w") auto
  with Inl show ?thesis by simp
next
  case (Inr po)
  obtain p options where po: "po = (p, options)" by (cases po)
  from handler_sent [of P T tool params w] Inr po
  obtain new where n: "sent (snd (handler P T tool params w)) = sent w @ (p, options) # new"
    and q: "\<forall>x \<in> set new. \<exists>q. snd x = options\<lparr>opt_queryParams := q\<rparr>"
    by (cases "handler P T tool params w") auto
  from translate_GET_body [OF assms] Inr po have b: "opt_body options = None" by simp
  have "\<forall>x \<in> set ((p, options) # new). opt_body (snd x) = None"
    using q b by auto
  with n Inr po show ?thesis by auto
qed

theorem C10_get_request_has_no_body_witness:
  "toUpperCase (stub_platform []) (method demo_tool) = ''GET'' \<and>
   translate (stub_platform []) demo_tool
      [(''messageId'', JStr ''42''), (''body'', JObj [(''subject'', JStr ''hello'')])]
    = Inr (''/me/messages/42'', list_options) \<and>
   (\<exists>new. sent (snd (handler (stub_platform []) scripted demo_tool
              [(''messageId'', JStr ''42''), (''body'', JObj [(''subject'', JStr ''hello'')])]
              \<lparr>env = [Inr (Defined (textResponse ''{}''))], sent = []\<rparr>)) = [] @ new \<and>
          (\<forall>po \<in> set new. opt_body (snd po) = None) \<and>
          new \<noteq> [] \<and> hd new = (''/me/messages/42'', list_options))"
proof -
  let ?P = "stub_platform []"
  let ?params = "[(''messageId'', JStr ''42''), (''body'', JObj [(''subject'', JStr ''hello'')])]"
  have up: "toUpperCase ?P (method demo_tool) = ''GET''"
    by (simp add: stub_platform_def demo_tool_def asciiUpper_def)
  have tr: "translate ?P demo_tool ?params = Inr (''/me/messages/42'', list_options)"
    by (simp add: translate_def translateParam_def bindE_def isProbablyMediaContent_def
        suffix_to_prefix demo_tool_def list_options_def stub_platform_def asciiUpper_def
        Let_def encodeURIComponent_def percentEncode_def encodeByte_def unreserved_def
        bodyValue_def prefix_code)
  from C10_get_request_has_no_body [OF up, of scripted ?params
      "\<lparr>env = [Inr (Defined (textResponse ''{}''))], sent = []\<rparr>"] tr up
  show ?thesis by auto
qed

lemma handler_try_transport_throws:
  assumes "translate P tool params = Inr (p, options)"
    and "T (env w) p options = (Inl error, e')"
  shows "handler_try P T tool params w = (Inl error, \<lparr>env = e', sent = sent w @ [(p, options)]\<rparr>)"
  using assms by (simp add: handler_try_def graphRequest_def)

lemma handler_try_paginated:
  assumes "map_of params ''fetchAllPages'' = Some (JBool True)"
    and "translate P tool params = Inr (p, options)"
    and "T (env w) p options = (Inr (Defined r), e1)"
    and "content r = Defined (item # rest)"
    and "combinedResponse P T options item \<lparr>env = e1, sent = sent w @ [(p, options)]\<rparr> = (c, w2)"
  shows "handler_try P T tool params w =
     (Inr \<lparr>res_content =
             \<lparr>item_type = ''text'',
              item_text = (case c of Inl e \<Rightarrow> item_text item | Inr v \<Rightarrow> JSON_stringify P v)\<rparr>
             # map (\<lambda>i. \<lparr>item_type = ''text'', item_text = item_text i\<rparr>) rest,
           res_meta = Some (meta r), res_isError = isError r\<rparr>, w2)"
  using assms
  by (cases c)
     (simp_all add: handler_try_def graphRequest_def paginate_def paginate_try_def firstItem_def
        toResult_def)

lemma list_tool_translate:
  "translate (stub_platform table) list_tool [(''fetchAllPages'', JBool True)] =
     Inr (''/me/messages'', list_options)"
  by (simp add: translate_def translateParam_def bindE_def isProbablyMediaContent_def
      suffix_to_prefix list_tool_def list_options_def stub_platform_def asciiUpper_def Let_def)

lemma fetchPages_stop:
  "\<not> truthy nextLink \<Longrightarrow>
     fetchPages P T options allItems nextLink pageCount w = (Inr (allItems, pageCount), w)"
  by (simp add: fetchPages.simps)

lemma fetchPages_thrown:
  "truthy nextLink \<Longrightarrow> fetchNextPage P T options allItems nextLink w = (Thrown e, w') \<Longrightarrow>
     fetchPages P T options allItems nextLink pageCount w = (Inl e, w')"
  by (simp add: fetchPages.simps)

lemma fetchPages_next:
  "truthy nextLink \<Longrightarrow> fetchNextPage P T options allItems nextLink w = (Next a l, w') \<Longrightarrow>
     fetchPages P T options allItems nextLink pageCount w =
       (if pageCount + 1 > 100 then (Inr (a, pageCount + 1), w')
        else fetchPages P T options a l (pageCount + 1) w')"
  by (simp add: fetchPages.simps [of P T options allItems nextLink pageCount w])

lemma fetchNextPage_throws:
  assumes "new_URL P s = Inr u"
    and "T (env w) (String_replace ''/v1.0'' [] (pathname u))
           (options\<lparr>opt_queryParams :=
              Some (fold (\<lambda>(key, v). AList.update key v) (searchParams u) [])\<rparr>) = (Inl e, e')"
  shows "fetchNextPage P T options allItems (JStr s) w =
     (Thrown e,
      \<lparr>env = e',
       sent = sent w @ [(String_replace ''/v1.0'' [] (pathname u),
                         options\<lparr>opt_queryParams :=
                           Some (fold (\<lambda>(key, v). AList.update key v) (searchParams u) [])\<rparr>)]\<rparr>)"
  using assms by (simp add: fetchNextPage_def bindE_def graphRequest_def)

lemma fetchNextPage_page:
  assumes "new_URL P s = Inr u"
    and "T (env w) (String_replace ''/v1.0'' [] (pathname u))
           (options\<lparr>opt_queryParams :=
              Some (fold (\<lambda>(key, v). AList.update key v) (searchParams u) [])\<rparr>)
         = (Inr response, e')"
    and "pageOf P response = Some (ys, l')"
  shows "fetchNextPage P T options (JArr xs) (JStr s) w =
     (Next (JArr (xs @ ys)) l',
      \<lparr>env = e',
       sent = sent w @ [(String_replace ''/v1.0'' [] (pathname u),
                         options\<lparr>opt_queryParams :=
                           Some (fold (\<lambda>(key, v). AList.update key v) (searchParams u) [])\<rparr>)]\<rparr>)"
proof -
  from assms(3) obtain item rest kvs where
    fi: "firstItem response = Some (item, rest)"
    and pj: "JSON_parse P (item_text item) = Inr (JObj kvs)"
    and v: "map_of kvs ''value'' = Some (JArr ys)"
    and l: "l' = (case map_of kvs ''@odata.nextLink'' of None \<Rightarrow> JUndefined | Some l \<Rightarrow> l)"
    by (auto simp: pageOf_def split: option.splits sum.splits jsval.splits nullable.splits)
  show ?thesis
    using assms(1,2) fi pj v l
    by (simp add: fetchNextPage_def bindE_def graphRequest_def)
qed

lemma fetchNextPage_unparsable:
  assumes "new_URL P s = Inr u"
    and "T (env w) (String_replace ''/v1.0'' [] (pathname u))
           (options\<lparr>opt_queryParams :=
              Some (fold (\<lambda>(key, v). AList.update key v) (searchParams u) [])\<rparr>)
         = (Inr response, e')"
    and "firstItem response = Some (item, rest)"
    and "JSON_parse P (item_text item) = Inl e"
  shows "fetchNextPage P T options allItems (JStr s) w =
     (Thrown e,
      \<lparr>env = e',
       sent = sent w @ [(String_replace ''/v1.0'' [] (pathname u),
                         options\<lparr>opt_queryParams :=
                           Some (fold (\<lambda>(key, v). AList.update key v) (searchParams u) [])\<rparr>)]\<rparr>)"
  using assms by (simp add: fetchNextPage_def bindE_def graphRequest_def)

lemma combinedResponse_page:
  assumes "JSON_parse P (item_text item) = Inr (JObj kvs)"
    and "map_of kvs ''value'' = Some (JArr xs)"
  shows "combinedResponse P T options item w =
     (case fetchPages P T options (JArr xs)
             (case map_of kvs ''@odata.nextLink'' of None \<Rightarrow> JUndefined | Some l \<Rightarrow> l) 1 w of
        (Inl e, w') \<Rightarrow> (Inl e, w')
      | (Inr (allItems, pageCount), w') \<Rightarrow> (combine (JObj kvs) allItems, w'))"
  using assms by (simp add: combinedResponse_def)

lemma stub_URL_skip:
  "stub_URL ''https://g/v1.0/m?skip=1'' =
     Inr \<lparr>pathname = ''/v1.0/m'', searchParams = [(''skip'', ''1'')]\<rparr>"
  "stub_URL ''https://g/v1.0/m?skip=2'' =
     Inr \<lparr>pathname = ''/v1.0/m'', searchParams = [(''skip'', ''2'')]\<rparr>"
  by (simp_all add: stub_URL_def prefix_code Let_def)

lemma strip_version: "String_replace ''/v1.0'' [] ''/v1.0/m'' = ''/m''"
  by (simp add: prefix_code)

lemma two_pages_parse:
  "JSON_parse (stub_platform two_pages) ''page1'' =
     Inr (JObj [(''value'', JArr [JNum 1]),
                (''@odata.nextLink'', JStr ''https://g/v1.0/m?skip=1'')])"
  "JSON_parse (stub_platform two_pages) ''page2'' =
     Inr (JObj [(''value'', JArr [JNum 2]),
                (''@odata.nextLink'', JStr ''https://g/v1.0/m?skip=2'')])"
  "JSON_parse (stub_platform two_pages) ''last2'' = Inr (JObj [(''value'', JArr [JNum 2])])"
  "JSON_parse (stub_platform two_pages) ''<html>'' = Inl (SyntaxError ''Unexpected token'')"
  by (simp_all add: stub_platform_fields two_pages_def)

lemma list_tool_translate_empty:
  "translate (stub_platform table) list_tool [] = Inr (''/me/messages'', list_options)"
  by (simp add: translate_def bindE_def isProbablyMediaContent_def
      suffix_to_prefix list_tool_def list_options_def stub_platform_def asciiUpper_def Let_def)

lemma list_tool_translate_throws:
  "translate (stub_platform table) list_tool [(''top'', JObj [(''toString'', JNum 1)])] =
     Inl (TypeError ''Cannot convert object to primitive value'')"
  by (simp add: translate_def translateParam_def bindE_def list_tool_def)

lemma two_pages_pageOf:
  "pageOf (stub_platform two_pages) (Defined (textResponse ''page1'')) =
     Some ([JNum 1], JStr ''https://g/v1.0/m?skip=1'')"
  "pageOf (stub_platform two_pages) (Defined (textResponse ''page2'')) =
     Some ([JNum 2], JStr ''https://g/v1.0/m?skip=2'')"
  "pageOf (stub_platform two_pages) (Defined (textResponse ''last2'')) = Some ([JNum 2], JUndefined)"
  by (simp_all add: pageOf_def firstItem_def textResponse_def two_pages_parse)

lemma two_pages_step:
  assumes "pageOf (stub_platform two_pages) (Defined r) = Some (ys, l)"
  shows "fetchNextPage (stub_platform two_pages) scripted list_options (JArr xs)
      (JStr ''https://g/v1.0/m?skip=1'') \<lparr>env = Inr (Defined r) # rest, sent = s\<rparr>
      = (Next (JArr (xs @ ys)) l,
         \<lparr>env = rest,
          sent = s @ [(''/m'', list_options\<lparr>opt_queryParams := Some [(''skip'', ''1'')]\<rparr>)]\<rparr>)"
  using fetchNextPage_page [of "stub_platform two_pages" "''https://g/v1.0/m?skip=1''"
      "\<lparr>pathname = ''/v1.0/m'', searchParams = [(''skip'', ''1'')]\<rparr>" scripted
      "\<lparr>env = Inr (Defined r) # rest, sent = s\<rparr>" list_options "Defined r" rest ys l xs] assms
  by (simp add: stub_platform_fields stub_URL_skip strip_version scripted_def)

section \<open>Properties of the pagination\<close>

lemma validLink_cases:
  assumes "validLink P l"
  obtains s u where "l = JStr s" "s \<noteq> []" "new_URL P s = Inr u"
  using assms by (auto simp: validLink_def split: jsval.splits sum.splits)

lemma combine_object:
  assumes "combine (JObj kvs) (JArr zs) = c"
  shows "\<exists>kvs'. c = Inr (JObj kvs') \<and>
           map_of kvs' ''value'' = Some (JArr zs) \<and>
           map_of kvs' ''@odata.nextLink'' = None \<and>
           map_of kvs' ''@odata.count'' =
             (case map_of kvs ''@odata.count'' of
                None \<Rightarrow> None
              | Some cnt \<Rightarrow> Some (if truthy cnt then JNum (int (length zs)) else cnt))"
  using assms
  by (auto simp: combine_def bindE_def update_conv' delete_conv' split: option.splits)

lemma endless_step:
  assumes "endless P T" and "validLink P l"
  shows "\<exists>ys l' w'. fetchNextPage P T options (JArr xs) l w = (Next (JArr (xs @ ys)) l', w') \<and>
           validLink P l' \<and> length (sent w') = Suc (length (sent w))"
proof -
  from assms(2) obtain s u where l: "l = JStr s" "s \<noteq> []" "new_URL P s = Inr u"
    by (rule validLink_cases)
  let ?p = "String_replace ''/v1.0'' [] (pathname u)"
  let ?o = "options\<lparr>opt_queryParams :=
              Some (fold (\<lambda>(key, v). AList.update key v) (searchParams u) [])\<rparr>"
  obtain res e' where t: "T (env w) ?p ?o = (res, e')" by fastforce
  from assms(1) [unfolded endless_def, THEN spec, THEN spec, THEN spec, of "env w" ?p ?o]
  have "case T (env w) ?p ?o of
      (Inr response, e') \<Rightarrow>
        (case pageOf P response of None \<Rightarrow> False | Some (ys, l) \<Rightarrow> validLink P l)
    | (Inl err, e') \<Rightarrow> False" .
  with t obtain response ys l' where r: "res = Inr response"
    and pg: "pageOf P response = Some (ys, l')" and v: "validLink P l'"
    by (cases res) (auto split: option.splits)
  from fetchNextPage_page [where T = T and options = options, OF l(3) t [unfolded r] pg, of xs] v l(1)
  show ?thesis by simp
qed

lemma endless_loop:
  assumes "endless P T"
  shows "validLink P l \<Longrightarrow> pageCount \<le> 100 \<Longrightarrow>
     \<exists>zs w'. fetchPages P T options (JArr xs) l pageCount w = (Inr (JArr zs, 101), w') \<and>
             length (sent w') = length (sent w) + (101 - pageCount)"
proof (induction "100 - pageCount" arbitrary: pageCount xs l w)
  case 0
  then have pc: "pageCount = 100" by simp
  from 0 have tr: "truthy l" by (auto elim: validLink_cases)
  from endless_step [OF assms "0.prems"(1), of options xs w]
  obtain ys l' w' where st: "fetchNextPage P T options (JArr xs) l w = (Next (JArr (xs @ ys)) l', w')"
    and len: "length (sent w') = Suc (length (sent w))"
    by blast
  from fetchPages_next [OF tr st, of pageCount] pc len show ?case by simp
next
  case (Suc n)
  then have pc: "pageCount < 100" by simp
  from Suc.prems have tr: "truthy l" by (auto elim: validLink_cases)
  from endless_step [OF assms Suc.prems(1), of options xs w]
  obtain ys l' w1 where st: "fetchNextPage P T options (JArr xs) l w = (Next (JArr (xs @ ys)) l', w1)"
    and v: "validLink P l'" and len: "length (sent w1) = Suc (length (sent w))"
    by blast
  from Suc.hyps(2) have n: "n = 100 - (pageCount + 1)" by simp
  from Suc.hyps(1) [OF n v, of "xs @ ys" w1] pc
  obtain zs w' where
    "fetchPages P T options (JArr (xs @ ys)) l' (pageCount + 1) w1 = (Inr (JArr zs, 101), w')"
    and "length (sent w') = length (sent w1) + (101 - (pageCount + 1))"
    by auto
  with fetchPages_next [OF tr st, of pageCount] pc len show ?case by simp
qed

text \<open>
  C4: when every response of the Graph client is a page with a usable cursor, a paginated
  invocation whose translation does not throw issues exactly 101 requests, the first one
  and 100 follow-up requests; the loop then stops with the page count 101 although the
  last page carries a cursor; nothing is thrown, and the result is the first response
  with the text of its first item replaced by the serialised combined payload, which has
  no cursor.
\<close>

theorem C4_page_cap:
  assumes "endless P T"
    and "map_of params ''fetchAllPages'' = Some (JBool True)"
    and "translate P tool params = Inr (p, options)"
  shows "(\<forall>xs l w0. validLink P l \<longrightarrow>
            (\<exists>zs w'. fetchPages P T options (JArr xs) l 1 w0 = (Inr (JArr zs, 101), w') \<and>
                     length (sent w') = length (sent w0) + 100)) \<and>
         (\<exists>result w' c. handler_try P T tool params w = (Inr result, w') \<and>
            handler P T tool params w = (Inr result, w') \<and>
            length (sent w') = length (sent w) + 101 \<and>
            res_content result \<noteq> [] \<and>
            item_text (hd (res_content result)) = JSON_stringify P c \<and>
            js_get c ''@odata.nextLink'' = Inr JUndefined)"
proof
  show "\<forall>xs l w0. validLink P l \<longrightarrow>
            (\<exists>zs w'. fetchPages P T options (JArr xs) l 1 w0 = (Inr (JArr zs, 101), w') \<and>
                     length (sent w') = length (sent w0) + 100)"
    using endless_loop [OF assms(1), of _ 1 options] by fastforce
next
  obtain res e1 where t: "T (env w) p options = (res, e1)" by fastforce
  from assms(1) [unfolded endless_def, THEN spec, THEN spec, THEN spec, of "env w" p options]
  have "case T (env w) p options of
      (Inr response, e') \<Rightarrow>
        (case pageOf P response of None \<Rightarrow> False | Some (ys, l) \<Rightarrow> validLink P l)
    | (Inl err, e') \<Rightarrow> False" .
  with t obtain response ys l where res: "res = Inr response"
    and pg: "pageOf P response = Some (ys, l)" and v: "validLink P l"
    by (cases res) (auto split: option.splits)
  from pg obtain r item rest kvs where resp: "response = Defined r"
    and ct: "content r = Defined (item # rest)"
    and pj: "JSON_parse P (item_text item) = Inr (JObj kvs)"
    and val: "map_of kvs ''value'' = Some (JArr ys)"
    and lk: "l = (case map_of kvs ''@odata.nextLink'' of None \<Rightarrow> JUndefined | Some l \<Rightarrow> l)"
    by (auto simp: pageOf_def firstItem_def
        split: option.splits sum.splits jsval.splits list.splits nullable.splits)
  let ?w1 = "\<lparr>env = e1, sent = sent w @ [(p, options)]\<rparr>"
  from endless_loop [OF assms(1) v, of 1 options ys ?w1]
  obtain zs w2 where lp: "fetchPages P T options (JArr ys) l 1 ?w1 = (Inr (JArr zs, 101), w2)"
    and len: "length (sent w2) = length (sent w) + 101"
    by auto
  from combine_object [OF refl, of kvs zs]
  obtain kvs' where cb: "combine (JObj kvs) (JArr zs) = Inr (JObj kvs')"
    and nl: "map_of kvs' ''@odata.nextLink'' = None"
    by blast
  have cr: "combinedResponse P T options item ?w1 = (Inr (JObj kvs'), w2)"
    using combinedResponse_page [OF pj val, of T options ?w1] lp cb lk by simp
  from handler_try_paginated [OF assms(2,3) t [unfolded res resp] ct cr]
  have ht: "handler_try P T tool params w =
     (Inr \<lparr>res_content =
             \<lparr>item_type = ''text'', item_text = JSON_stringify P (JObj kvs')\<rparr>
             # map (\<lambda>i. \<lparr>item_type = ''text'', item_text = item_text i\<rparr>) rest,
           res_meta = Some (meta r), res_isError = isError r\<rparr>, w2)"
    by simp
  then have "handler P T tool params w =
     (Inr \<lparr>res_content =
         \<lparr>item_type = ''text'', item_text = JSON_stringify P (JObj kvs')\<rparr>
         # map (\<lambda>i. \<lparr>item_type = ''text'', item_text = item_text i\<rparr>) rest,
       res_meta = Some (meta r), res_isError = isError r\<rparr>, w2)"
    by (simp add: handler_def)
  with ht len nl show "\<exists>result w' c. handler_try P T tool params w = (Inr result, w') \<and>
            handler P T tool params w = (Inr result, w') \<and>
            length (sent w') = length (sent w) + 101 \<and>
            res_content result \<noteq> [] \<and>
            item_text (hd (res_content result)) = JSON_stringify P c \<and>
            js_get c ''@odata.nextLink'' = Inr JUndefined"
    by (intro exI [of _ "JObj kvs'"] exI conjI) (assumption | simp)+
qed

lemma link1_valid: "validLink (stub_platform table) (JStr ''https://g/v1.0/m?skip=1'')"
  by (simp add: validLink_def stub_platform_fields stub_URL_skip)

theorem C4_page_cap_witness:
  "(\<exists>zs w'. fetchPages (stub_platform two_pages) endless_client list_options (JArr [])
        (JStr ''https://g/v1.0/m?skip=1'') 1 \<lparr>env = (), sent = []\<rparr> = (Inr (JArr zs, 101), w') \<and>
      length (sent w') = 100) \<and>
   (\<exists>result w' c.
      handler_try (stub_platform two_pages) endless_client list_tool
        [(''fetchAllPages'', JBool True)] \<lparr>env = (), sent = []\<rparr> = (Inr result, w') \<and>
      handler (stub_platform two_pages) endless_client list_tool
        [(''fetchAllPages'', JBool True)] \<lparr>env = (), sent = []\<rparr> = (Inr result, w') \<and>
      length (sent w') = 101 \<and>
      res_content result \<noteq> [] \<and>
      item_text (hd (res_content result)) = stub_stringify c \<and>
      js_get c ''@odata.nextLink'' = Inr JUndefined)"
proof -
  let ?P = "stub_platform two_pages"
  have e: "endless ?P endless_client"
    by (simp add: endless_def endless_client_def two_pages_pageOf link1_valid)
  have fa: "map_of [(''fetchAllPages'', JBool True)] ''fetchAllPages'' = Some (JBool True)"
    by simp
  note inst = C4_page_cap [OF e fa list_tool_translate, of "\<lparr>env = (), sent = []\<rparr>"]
  from inst [THEN conjunct1, THEN spec, of "[]", THEN spec, of "JStr ''https://g/v1.0/m?skip=1''",
      THEN spec, of "\<lparr>env = (), sent = []\<rparr>"] link1_valid [of two_pages]
  have a: "\<exists>zs w'. fetchPages ?P endless_client list_options (JArr [])
        (JStr ''https://g/v1.0/m?skip=1'') 1 \<lparr>env = (), sent = []\<rparr> = (Inr (JArr zs, 101), w') \<and>
      length (sent w') = 100"
    by simp
  from inst [THEN conjunct2] have b: "\<exists>result w' c.
      handler_try ?P endless_client list_tool
        [(''fetchAllPages'', JBool True)] \<lparr>env = (), sent = []\<rparr> = (Inr result, w') \<and>
      handler ?P endless_client list_tool
        [(''fetchAllPages'', JBool True)] \<lparr>env = (), sent = []\<rparr> = (Inr result, w') \<and>
      length (sent w') = 101 \<and>
      res_content result \<noteq> [] \<and>
      item_text (hd (res_content result)) = stub_stringify c \<and>
      js_get c ''@odata.nextLink'' = Inr JUndefined"
    by (simp add: stub_platform_fields)
  from a b show ?thesis by blast
qed

lemma numbered_facts:
  assumes "numberedPages P texts" and "i < length texts"
  shows "pageOf P (Defined (textResponse (texts ! i))) =
           Some ([JNum (int (Suc i))], linkOf P (texts ! i))"
    and "Suc i < length texts \<Longrightarrow> validLink P (linkOf P (texts ! i))"
    and "Suc i = length texts \<Longrightarrow> linkOf P (texts ! i) = JUndefined"
    and "\<exists>kvs. JSON_parse P (texts ! i) = Inr (JObj kvs) \<and>
           map_of kvs ''value'' = Some (JArr [JNum (int (Suc i))])"
proof -
  from assms have np: "numberedPage P (length texts) (Suc i) (texts ! i)"
    by (simp add: numberedPages_def list_all_iff)
  then obtain kvs where pj: "JSON_parse P (texts ! i) = Inr (JObj kvs)"
    and v: "map_of kvs ''value'' = Some (JArr [JNum (int (Suc i))])"
    and l: "if Suc i < length texts
            then (case map_of kvs ''@odata.nextLink'' of None \<Rightarrow> False | Some l \<Rightarrow> validLink P l)
            else map_of kvs ''@odata.nextLink'' = None"
    by (auto simp: numberedPage_def split: sum.splits jsval.splits)
  from pj v show "pageOf P (Defined (textResponse (texts ! i))) =
           Some ([JNum (int (Suc i))], linkOf P (texts ! i))"
    by (simp add: pageOf_def firstItem_def textResponse_def linkOf_def)
  from pj l show "Suc i < length texts \<Longrightarrow> validLink P (linkOf P (texts ! i))"
    by (auto simp: linkOf_def split: option.splits)
  from pj l show "Suc i = length texts \<Longrightarrow> linkOf P (texts ! i) = JUndefined"
    by (auto simp: linkOf_def)
  from pj v show "\<exists>kvs. JSON_parse P (texts ! i) = Inr (JObj kvs) \<and>
           map_of kvs ''value'' = Some (JArr [JNum (int (Suc i))])"
    by blast
qed

lemma scripted_step:
  assumes "validLink P l" and "pageOf P (Defined r) = Some (ys, l')"
    and "env w = Inr (Defined r) # rest"
  shows "\<exists>w'. fetchNextPage P scripted options (JArr xs) l w = (Next (JArr (xs @ ys)) l', w') \<and>
           env w' = rest"
proof -
  from assms(1) obtain s u where l: "l = JStr s" "s \<noteq> []" "new_URL P s = Inr u"
    by (rule validLink_cases)
  have t: "scripted (env w) (String_replace ''/v1.0'' [] (pathname u))
      (options\<lparr>opt_queryParams :=
         Some (fold (\<lambda>(key, v). AList.update key v) (searchParams u) [])\<rparr>)
      = (Inr (Defined r), rest)"
    by (simp add: scripted_def assms(3))
  from fetchNextPage_page [where T = scripted and options = options, OF l(3) t assms(2), of xs] l(1)
  show ?thesis by simp
qed

lemma numbered_loop:
  assumes np: "numberedPages P texts" and cap: "length texts \<le> 101"
  shows "1 \<le> k \<Longrightarrow> k \<le> length texts \<Longrightarrow>
     env w = map (\<lambda>t. Inr (Defined (textResponse t))) (drop k texts) \<Longrightarrow>
     fst (fetchPages P scripted options (JArr (map (\<lambda>i. JNum (int i)) [1..<Suc k]))
            (linkOf P (texts ! (k - 1))) k w)
       = Inr (JArr (map (\<lambda>i. JNum (int i)) [1..<Suc (length texts)]), length texts)"
proof (induction "length texts - k" arbitrary: k w)
  case 0
  then have k: "k = length texts" by simp
  with "0.prems" have "Suc (k - 1) = length texts" "k - 1 < length texts" by simp_all
  with numbered_facts(3) [OF np, of "k - 1"] have "linkOf P (texts ! (k - 1)) = JUndefined"
    by simp
  then show ?case by (simp add: fetchPages_stop k)
next
  case (Suc n)
  then have lt: "k < length texts" by simp
  from Suc.prems lt have "k - 1 < length texts" "Suc (k - 1) < length texts" by simp_all
  with numbered_facts(2) [OF np, of "k - 1"]
  have v: "validLink P (linkOf P (texts ! (k - 1)))" by simp
  then have tr: "truthy (linkOf P (texts ! (k - 1)))" by (auto elim: validLink_cases)
  from lt Suc.prems(3)
  have env: "env w = Inr (Defined (textResponse (texts ! k)))
                     # map (\<lambda>t. Inr (Defined (textResponse t))) (drop (Suc k) texts)"
    by (simp add: Cons_nth_drop_Suc [symmetric])
  from scripted_step [OF v numbered_facts(1) [OF np lt] env,
      of options "map (\<lambda>i. JNum (int i)) [1..<Suc k]"]
  obtain w1 where st: "fetchNextPage P scripted options (JArr (map (\<lambda>i. JNum (int i)) [1..<Suc k]))
        (linkOf P (texts ! (k - 1))) w
      = (Next (JArr (map (\<lambda>i. JNum (int i)) [1..<Suc k] @ [JNum (int (Suc k))]))
           (linkOf P (texts ! k)), w1)"
    and env1: "env w1 = map (\<lambda>t. Inr (Defined (textResponse t))) (drop (Suc k) texts)"
    by blast
  have items: "map (\<lambda>i. JNum (int i)) [1..<Suc k] @ [JNum (int (Suc k))]
      = map (\<lambda>i. JNum (int i)) [1..<Suc (Suc k)]"
    using Suc.prems(1) by simp
  show ?case
  proof (cases "k + 1 > 100")
    case True
    with lt cap have "Suc k = length texts" by simp
    with fetchPages_next [OF tr st, of k] True items show ?thesis by simp
  next
    case False
    from Suc.hyps(2) have n: "n = length texts - Suc k" by simp
    from Suc.hyps(1) [OF n _ _ env1, of ] lt
    have "fst (fetchPages P scripted options (JArr (map (\<lambda>i. JNum (int i)) [1..<Suc (Suc k)]))
            (linkOf P (texts ! k)) (Suc k) w1)
       = Inr (JArr (map (\<lambda>i. JNum (int i)) [1..<Suc (length texts)]), length texts)"
      by simp
    with fetchPages_next [OF tr st, of k] False items show ?thesis by simp
  qed
qed

lemma two_pages_parse_counted:
  "JSON_parse (stub_platform two_pages) ''first1'' =
     Inr (JObj [(''value'', JArr [JNum 1]), (''@odata.count'', JNum 1),
                (''@odata.nextLink'', JStr ''https://g/v1.0/m?skip=1'')])"
  "JSON_parse (stub_platform two_pages) ''only1'' =
     Inr (JObj [(''value'', JArr [JNum 1]), (''@odata.count'', JNum 0)])"
  by (simp_all add: stub_platform_fields two_pages_def)

text \<open>
  C3, as stated, at a single page whose \<^verbatim>\<open>@odata.count\<close> is 0: the pages are numbered as
  the claim wants (\<open>N = 1\<close>), the field is present, and in the combined payload it is
  still 0, not 1.
\<close>

theorem C3_zero_count_counterexample:
  "numberedPages (stub_platform two_pages) [''only1''] \<and>
   combinedResponse (stub_platform two_pages) scripted list_options
      \<lparr>item_type = ''text'', item_text = ''only1''\<rparr>
      \<lparr>env = [], sent = [(''/me/messages'', list_options)]\<rparr>
    = (Inr (JObj [(''value'', JArr [JNum 1]), (''@odata.count'', JNum 0)]),
       \<lparr>env = [], sent = [(''/me/messages'', list_options)]\<rparr>)"
proof
  show "numberedPages (stub_platform two_pages) [''only1'']"
    by (simp add: numberedPages_def numberedPage_def two_pages_parse_counted)
next
  let ?w = "\<lparr>env = [], sent = [(''/me/messages'', list_options)]\<rparr>
              :: (exn + mcp_response nullable) list world"
  have "fetchPages (stub_platform two_pages) scripted list_options (JArr [JNum 1]) JUndefined 1 ?w
      = (Inr (JArr [JNum 1], 1), ?w)"
    by (rule fetchPages_stop) simp
  with combinedResponse_page [of "stub_platform two_pages"
      "\<lparr>item_type = ''text'', item_text = ''only1''\<rparr>"
      "[(''value'', JArr [JNum 1]), (''@odata.count'', JNum 0)]" "[JNum 1]"
      scripted list_options ?w] two_pages_parse_counted(2)
  show "combinedResponse (stub_platform two_pages) scripted list_options
      \<lparr>item_type = ''text'', item_text = ''only1''\<rparr> ?w
    = (Inr (JObj [(''value'', JArr [JNum 1]), (''@odata.count'', JNum 0)]), ?w)"
    by (simp add: combine_def bindE_def)
qed

text \<open>
  C3, amended: for \<open>N\<close> numbered pages, \<open>1 \<le> N \<le> 100\<close>, of which the first is the first
  response and the others are the answers to the follow-up requests in order, the
  pagination yields the first response with the text of its first item replaced by the
  serialised combined payload; in that payload \<^verbatim>\<open>value\<close> is \<^verbatim>\<open>[1, ..., N]\<close>, there is
  no \<^verbatim>\<open>@odata.nextLink\<close>, and \<^verbatim>\<open>@odata.count\<close> is \<open>N\<close> when the first page carries a
  truthy count (a number other than 0), and is as on the first page otherwise (absent
  when absent).
\<close>

theorem C3_numbered_pages_combined:
  assumes "numberedPages P texts" and "texts \<noteq> []" and "length texts \<le> 100"
    and "item_text item = hd texts"
    and "env w = map (\<lambda>t. Inr (Defined (textResponse t))) (tl texts)"
  shows "\<exists>c w'. combinedResponse P scripted options item w = (Inr c, w') \<and>
           paginate_try P scripted options r item rest w =
             (Inr (r\<lparr>content := Defined (item\<lparr>item_text := JSON_stringify P c\<rparr> # rest)\<rparr>), w') \<and>
           js_get c ''value'' = Inr (JArr (map (\<lambda>i. JNum (int i)) [1..<Suc (length texts)])) \<and>
           js_get c ''@odata.nextLink'' = Inr JUndefined \<and>
           js_get c ''@odata.count'' =
             Inr (if truthy (countOf P (hd texts)) then JNum (int (length texts))
                  else countOf P (hd texts))"
proof -
  from assms(2) have pos: "0 < length texts" and hd: "hd texts = texts ! 0"
    by (simp_all add: hd_conv_nth)
  from numbered_facts(4) [OF assms(1) pos]
  obtain kvs where pj: "JSON_parse P (texts ! 0) = Inr (JObj kvs)"
    and val: "map_of kvs ''value'' = Some (JArr [JNum 1])"
    by auto
  from pj have pi: "JSON_parse P (item_text item) = Inr (JObj kvs)"
    by (simp add: assms(4) hd)
  have lk: "linkOf P (texts ! 0) =
      (case map_of kvs ''@odata.nextLink'' of None \<Rightarrow> JUndefined | Some l \<Rightarrow> l)"
    by (simp add: linkOf_def pj)
  have cnt: "countOf P (hd texts) =
      (case map_of kvs ''@odata.count'' of None \<Rightarrow> JUndefined | Some c \<Rightarrow> c)"
    by (simp add: countOf_def pj hd)
  let ?zs = "map (\<lambda>i. JNum (int i)) [1..<Suc (length texts)]"
  have env: "env w = map (\<lambda>t. Inr (Defined (textResponse t))) (drop 1 texts)"
    by (simp add: assms(5) drop_Suc)
  have cap: "length texts \<le> 101" using assms(3) by simp
  have le1: "1 \<le> length texts" using assms(2) by (cases texts) simp_all
  have one: "map (\<lambda>i. JNum (int i)) [1..<Suc 1] = [JNum 1]" "(1::nat) - 1 = 0"
    by simp_all
  from numbered_loop [OF assms(1) cap order_refl le1 env, of options]
  have "fst (fetchPages P scripted options (JArr [JNum 1]) (linkOf P (texts ! 0)) 1 w)
      = Inr (JArr ?zs, length texts)"
    by (simp only: one)
  then obtain w' where lp: "fetchPages P scripted options (JArr [JNum 1])
      (linkOf P (texts ! 0)) 1 w = (Inr (JArr ?zs, length texts), w')"
    by (cases "fetchPages P scripted options (JArr [JNum 1]) (linkOf P (texts ! 0)) 1 w") simp
  have len: "length ?zs = length texts" by (simp del: upt_Suc)
  from combine_object [OF refl, of kvs ?zs]
  obtain kvs' where cb: "combine (JObj kvs) (JArr ?zs) = Inr (JObj kvs')"
    and f1: "map_of kvs' ''value'' = Some (JArr ?zs)"
    and f2: "map_of kvs' ''@odata.nextLink'' = None"
    and f3: "map_of kvs' ''@odata.count'' =
             (case map_of kvs ''@odata.count'' of
                None \<Rightarrow> None
              | Some cnt \<Rightarrow> Some (if truthy cnt then JNum (int (length ?zs)) else cnt))"
    by blast
  have cr: "combinedResponse P scripted options item w = (Inr (JObj kvs'), w')"
    using combinedResponse_page [OF pi val, of scripted options w] lp cb lk by simp
  then have pt: "paginate_try P scripted options r item rest w =
      (Inr (r\<lparr>content := Defined (item\<lparr>item_text := JSON_stringify P (JObj kvs')\<rparr> # rest)\<rparr>), w')"
    by (simp add: paginate_try_def)
  have c3: "js_get (JObj kvs') ''@odata.count'' =
      Inr (if truthy (countOf P (hd texts)) then JNum (int (length texts))
           else countOf P (hd texts))"
    using f3 [unfolded len] by (simp add: cnt split: option.splits)
  from cr pt f1 f2 c3 show ?thesis
    by (intro exI [of _ "JObj kvs'"] exI [of _ w'] conjI) simp_all
qed

theorem C3_numbered_pages_combined_witness:
  "\<exists>c w'. combinedResponse (stub_platform two_pages) scripted list_options
             \<lparr>item_type = ''text'', item_text = ''first1''\<rparr>
             \<lparr>env = [Inr (Defined (textResponse ''last2''))],
              sent = [(''/me/messages'', list_options)]\<rparr> = (Inr c, w') \<and>
          js_get c ''value'' = Inr (JArr [JNum 1, JNum 2]) \<and>
          js_get c ''@odata.nextLink'' = Inr JUndefined \<and>
          js_get c ''@odata.count'' = Inr (JNum 2)"
proof -
  let ?P = "stub_platform two_pages"
  have np: "numberedPages ?P [''first1'', ''last2'']"
    by (simp add: numberedPages_def numberedPage_def two_pages_parse_counted two_pages_parse
        link1_valid)
  have cnt: "countOf ?P ''first1'' = JNum 1"
    by (simp add: countOf_def two_pages_parse_counted)
  from C3_numbered_pages_combined [OF np, of "\<lparr>item_type = ''text'', item_text = ''first1''\<rparr>"
      "\<lparr>env = [Inr (Defined (textResponse ''last2''))], sent = [(''/me/messages'', list_options)]\<rparr>"
      list_options "textResponse ''first1''" "[]"] cnt
  show ?thesis by (auto simp: numeral_2_eq_2 numeral_3_eq_3)
qed

section \<open>Properties of the failures\<close>

lemma scripted_page:
  assumes "validLink P l" and "pageOf P (Defined r) = Some (ys, l')"
    and "env w = Inr (Defined r) # rest"
  shows "\<exists>w'. fetchNextPage P scripted options (JArr xs) l w = (Next (JArr (xs @ ys)) l', w') \<and>
           env w' = rest \<and> length (sent w') = Suc (length (sent w))"
proof -
  from assms(1) obtain s u where l: "l = JStr s" "s \<noteq> []" "new_URL P s = Inr u"
    by (rule validLink_cases)
  have t: "scripted (env w) (String_replace ''/v1.0'' [] (pathname u))
      (options\<lparr>opt_queryParams :=
         Some (fold (\<lambda>(key, v). AList.update key v) (searchParams u) [])\<rparr>)
      = (Inr (Defined r), rest)"
    by (simp add: scripted_def assms(3))
  from fetchNextPage_page [where T = scripted and options = options, OF l(3) t assms(2), of xs] l(1)
  show ?thesis by simp
qed

lemma scripted_failure:
  assumes "validLink P l" and "failedFetch P failure" and "env w = failure # later"
  shows "\<exists>e w'. fetchNextPage P scripted options allItems l w = (Thrown e, w') \<and>
           env w' = later \<and> length (sent w') = Suc (length (sent w))"
proof -
  from assms(1) obtain s u where l: "l = JStr s" "s \<noteq> []" "new_URL P s = Inr u"
    by (rule validLink_cases)
  have t: "scripted (env w) (String_replace ''/v1.0'' [] (pathname u))
      (options\<lparr>opt_queryParams :=
         Some (fold (\<lambda>(key, v). AList.update key v) (searchParams u) [])\<rparr>)
      = (failure, later)"
    by (simp add: scripted_def assms(3))
  show ?thesis
  proof (cases failure)
    case (Inl e)
    from fetchNextPage_throws [where T = scripted and options = options, OF l(3) t [unfolded Inl],
        of allItems] l(1)
    show ?thesis by simp
  next
    case (Inr response)
    with assms(2) obtain item rest e where fi: "firstItem response = Some (item, rest)"
      and pj: "JSON_parse P (item_text item) = Inl e"
      by (auto simp: failedFetch_def split: option.splits sum.splits)
    from fetchNextPage_unparsable [where T = scripted and options = options,
        OF l(3) t [unfolded Inr] fi pj, of allItems] l(1)
    show ?thesis by simp
  qed
qed

lemma failing_loop:
  assumes "failedFetch P failure"
  shows "\<forall>r \<in> set pages. linkedPage P (Defined r) \<Longrightarrow> validLink P l \<Longrightarrow>
     pageCount + length pages \<le> 100 \<Longrightarrow>
     env w = map (\<lambda>r. Inr (Defined r)) pages @ failure # later \<Longrightarrow>
     \<exists>e w'. fetchPages P scripted options (JArr xs) l pageCount w = (Inl e, w') \<and>
            env w' = later \<and> length (sent w') = length (sent w) + length pages + 1"
proof (induction pages arbitrary: xs l pageCount w)
  case Nil
  then have tr: "truthy l" by (auto elim: validLink_cases)
  from Nil have env: "env w = failure # later" by simp
  from scripted_failure [OF Nil.prems(2) assms env, of options "JArr xs"]
  obtain e w' where "fetchNextPage P scripted options (JArr xs) l w = (Thrown e, w')"
    and "env w' = later" and "length (sent w') = Suc (length (sent w))"
    by blast
  with fetchPages_thrown [OF tr, of P scripted options "JArr xs" w e w' pageCount]
  show ?case by simp
next
  case (Cons r pages)
  then have tr: "truthy l" by (auto elim: validLink_cases)
  from Cons.prems(1) obtain ys l' where pg: "pageOf P (Defined r) = Some (ys, l')"
    and v: "validLink P l'"
    by (auto simp: linkedPage_def split: option.splits)
  from Cons.prems(4)
  have env: "env w = Inr (Defined r) # (map (\<lambda>r. Inr (Defined r)) pages @ failure # later)"
    by simp
  from scripted_page [OF Cons.prems(2) pg env, of options xs]
  obtain w1 where st: "fetchNextPage P scripted options (JArr xs) l w = (Next (JArr (xs @ ys)) l', w1)"
    and env1: "env w1 = map (\<lambda>r. Inr (Defined r)) pages @ failure # later"
    and len1: "length (sent w1) = Suc (length (sent w))"
    by blast
  from Cons.prems(3) have le: "\<not> pageCount + 1 > 100" and le': "(pageCount + 1) + length pages \<le> 100"
    by simp_all
  from Cons.prems(1) have rest: "\<forall>r \<in> set pages. linkedPage P (Defined r)" by simp
  from Cons.IH [OF rest v le' env1, of "xs @ ys"]
  obtain e w' where "fetchPages P scripted options (JArr (xs @ ys)) l' (pageCount + 1) w1 = (Inl e, w')"
    and "env w' = later" and "length (sent w') = length (sent w1) + length pages + 1"
    by blast
  with fetchPages_next [OF tr st, of pageCount] le len1 show ?case by simp
qed

text \<open>
  C2, as stated, at an invocation whose second follow-up response does not parse: the
  second page was fetched and its item accumulated, and yet the result is the text of the
  first response, whose payload holds the item of the first page only.
\<close>

theorem C2_partial_results_counterexample:
  "handler (stub_platform two_pages) scripted list_tool [(''fetchAllPages'', JBool True)]
      \<lparr>env = [Inr (Defined (textResponse ''page1'')), Inr (Defined (textResponse ''page2'')),
               Inr (Defined (textResponse ''<html>''))], sent = []\<rparr>
    = (Inr \<lparr>res_content = [\<lparr>item_type = ''text'', item_text = ''page1''\<rparr>],
            res_meta = Some JUndefined, res_isError = Undefined\<rparr>,
       \<lparr>env = [],
        sent = [(''/me/messages'', list_options),
                (''/m'', list_options\<lparr>opt_queryParams := Some [(''skip'', ''1'')]\<rparr>),
                (''/m'', list_options\<lparr>opt_queryParams := Some [(''skip'', ''2'')]\<rparr>)]\<rparr>) \<and>
   pageOf (stub_platform two_pages) (Defined (textResponse ''page1'')) =
     Some ([JNum 1], JStr ''https://g/v1.0/m?skip=1'') \<and>
   pageOf (stub_platform two_pages) (Defined (textResponse ''page2'')) =
     Some ([JNum 2], JStr ''https://g/v1.0/m?skip=2'')"
proof -
  let ?P = "stub_platform two_pages"
  let ?item = "\<lparr>item_type = ''text'', item_text = ''page1''\<rparr>"
  let ?r2 = "Inr (Defined (textResponse ''page2'')) :: exn + mcp_response nullable"
  let ?r3 = "Inr (Defined (textResponse ''<html>'')) :: exn + mcp_response nullable"
  let ?s1 = "[(''/me/messages'', list_options)]"
  let ?s2 = "?s1 @ [(''/m'', list_options\<lparr>opt_queryParams := Some [(''skip'', ''1'')]\<rparr>)]"
  let ?s3 = "?s2 @ [(''/m'', list_options\<lparr>opt_queryParams := Some [(''skip'', ''2'')]\<rparr>)]"
  have step1: "fetchNextPage ?P scripted list_options (JArr [JNum 1])
      (JStr ''https://g/v1.0/m?skip=1'') \<lparr>env = [?r2, ?r3], sent = ?s1\<rparr>
      = (Next (JArr [JNum 1, JNum 2]) (JStr ''https://g/v1.0/m?skip=2''),
         \<lparr>env = [?r3], sent = ?s2\<rparr>)"
    using two_pages_step [OF two_pages_pageOf(2), of "[JNum 1]" "[?r3]" ?s1] by simp
  have step2: "fetchNextPage ?P scripted list_options (JArr [JNum 1, JNum 2])
      (JStr ''https://g/v1.0/m?skip=2'') \<lparr>env = [?r3], sent = ?s2\<rparr>
      = (Thrown (SyntaxError ''Unexpected token''), \<lparr>env = [], sent = ?s3\<rparr>)"
    using fetchNextPage_unparsable [of ?P "''https://g/v1.0/m?skip=2''"
        "\<lparr>pathname = ''/v1.0/m'', searchParams = [(''skip'', ''2'')]\<rparr>" scripted
        "\<lparr>env = [?r3], sent = ?s2\<rparr>" list_options "Defined (textResponse ''<html>'')" "[]"
        "\<lparr>item_type = ''text'', item_text = ''<html>''\<rparr>" "[]"
        "SyntaxError ''Unexpected token''" "JArr [JNum 1, JNum 2]"]
    by (simp add: stub_platform_fields stub_URL_skip strip_version scripted_def firstItem_def
        textResponse_def two_pages_def)
  have loop2: "fetchPages ?P scripted list_options (JArr [JNum 1, JNum 2])
      (JStr ''https://g/v1.0/m?skip=2'') 2 \<lparr>env = [?r3], sent = ?s2\<rparr>
      = (Inl (SyntaxError ''Unexpected token''), \<lparr>env = [], sent = ?s3\<rparr>)"
    by (rule fetchPages_thrown [OF _ step2]) simp
  have loop1: "fetchPages ?P scripted list_options (JArr [JNum 1])
      (JStr ''https://g/v1.0/m?skip=1'') 1 \<lparr>env = [?r2, ?r3], sent = ?s1\<rparr>
      = (Inl (SyntaxError ''Unexpected token''), \<lparr>env = [], sent = ?s3\<rparr>)"
    using fetchPages_next [OF _ step1, of 1] loop2 by (simp add: numeral_2_eq_2)
  have cr: "combinedResponse ?P scripted list_options ?item \<lparr>env = [?r2, ?r3], sent = [] @ ?s1\<rparr>
      = (Inl (SyntaxError ''Unexpected token''), \<lparr>env = [], sent = ?s3\<rparr>)"
    using combinedResponse_page [of ?P ?item _ "[JNum 1]" scripted list_options
        "\<lparr>env = [?r2, ?r3], sent = ?s1\<rparr>"] two_pages_parse(1) loop1
    by simp
  have "handler_try ?P scripted list_tool [(''fetchAllPages'', JBool True)]
      \<lparr>env = [Inr (Defined (textResponse ''page1'')), ?r2, ?r3], sent = []\<rparr>
    = (Inr \<lparr>res_content = [\<lparr>item_type = ''text'', item_text = ''page1''\<rparr>],
            res_meta = Some JUndefined, res_isError = Undefined\<rparr>, \<lparr>env = [], sent = ?s3\<rparr>)"
    using handler_try_paginated [of "[(''fetchAllPages'', JBool True)]" ?P list_tool
        "''/me/messages''" list_options scripted
        "\<lparr>env = [Inr (Defined (textResponse ''page1'')), ?r2, ?r3], sent = []\<rparr>"
        "textResponse ''page1''" "[?r2, ?r3]" ?item "[]"
        "Inl (SyntaxError ''Unexpected token'')" "\<lparr>env = [], sent = ?s3\<rparr>"]
      list_tool_translate [of two_pages] cr
    by (simp add: scripted_def textResponse_def)
  then show ?thesis using two_pages_pageOf(1,2) by (simp add: handler_def)
qed

text \<open>
  C2, amended: in a paginated invocation whose first response is a page with a usable
  cursor, let any number of follow-up fetches (up to 99) succeed with such pages, and let
  the next one fail: the Graph client throws, or the payload of its response does not
  parse as JSON. Then the pagination ends without an exception reaching the caller or the
  error handler of the invocation, no further request is made, and the result is the
  first response as the Graph client returned it: the text of every item unchanged, so
  the items of the first page only with its cursor, its metadata and its error flag. The
  items accumulated from the follow-up pages are dropped.
\<close>

theorem C2_pagination_failure_returns_first_response:
  assumes "map_of params ''fetchAllPages'' = Some (JBool True)"
    and "translate P tool params = Inr (p, options)"
    and "env w = Inr (Defined first) # map (\<lambda>r. Inr (Defined r)) pages @ failure # later"
    and "linkedPage P (Defined first)"
    and "\<forall>r \<in> set pages. linkedPage P (Defined r)"
    and "length pages \<le> 99"
    and "failedFetch P failure"
  shows "\<exists>items w'. content first = Defined items \<and> items \<noteq> [] \<and>
           handler P scripted tool params w = (Inr (resultOf first items), w') \<and>
           env w' = later \<and> length (sent w') = length (sent w) + length pages + 2"
proof -
  from assms(4) obtain ys l where pg: "pageOf P (Defined first) = Some (ys, l)"
    and v: "validLink P l"
    by (auto simp: linkedPage_def split: option.splits)
  from pg obtain item rest kvs where ct: "content first = Defined (item # rest)"
    and pj: "JSON_parse P (item_text item) = Inr (JObj kvs)"
    and val: "map_of kvs ''value'' = Some (JArr ys)"
    and lk: "l = (case map_of kvs ''@odata.nextLink'' of None \<Rightarrow> JUndefined | Some l \<Rightarrow> l)"
    by (auto simp: pageOf_def firstItem_def
        split: option.splits sum.splits jsval.splits list.splits nullable.splits)
  let ?rest = "map (\<lambda>r. Inr (Defined r)) pages @ failure # later"
  let ?w1 = "\<lparr>env = ?rest, sent = sent w @ [(p, options)]\<rparr>"
  have t: "scripted (env w) p options = (Inr (Defined first), ?rest)"
    by (simp add: scripted_def assms(3))
  have cap: "1 + length pages \<le> 100" using assms(6) by simp
  from failing_loop [OF assms(7,5) v cap, of ?w1 later options ys]
  obtain e w' where lp: "fetchPages P scripted options (JArr ys) l 1 ?w1 = (Inl e, w')"
    and env': "env w' = later" and len: "length (sent w') = length (sent w) + length pages + 2"
    by auto
  have cr: "combinedResponse P scripted options item ?w1 = (Inl e, w')"
    using combinedResponse_page [OF pj val, of scripted options ?w1] lp lk by simp
  from handler_try_paginated [OF assms(1,2) t ct cr]
  have "handler P scripted tool params w = (Inr (resultOf first (item # rest)), w')"
    by (simp add: handler_def resultOf_def)
  with ct env' len show ?thesis by blast
qed

theorem C2_pagination_failure_returns_first_response_witness:
  "(\<exists>w'. handler (stub_platform two_pages) scripted list_tool [(''fetchAllPages'', JBool True)]
          \<lparr>env = [Inr (Defined (textResponse ''page1'')),
                  Inr (Defined (textResponse ''page2'')),
                  Inl (Error ''ECONNRESET''),
                  Inr (Defined (textResponse ''last2''))], sent = []\<rparr>
        = (Inr \<lparr>res_content = [\<lparr>item_type = ''text'', item_text = ''page1''\<rparr>],
                res_meta = Some JUndefined, res_isError = Undefined\<rparr>, w') \<and>
        env w' = [Inr (Defined (textResponse ''last2''))] \<and>
        length (sent w') = 3) \<and>
   (\<exists>w'. handler (stub_platform two_pages) scripted list_tool [(''fetchAllPages'', JBool True)]
          \<lparr>env = [Inr (Defined (textResponse ''page1'')),
                  Inr (Defined (textResponse ''<html>''))], sent = []\<rparr>
        = (Inr \<lparr>res_content = [\<lparr>item_type = ''text'', item_text = ''page1''\<rparr>],
                res_meta = Some JUndefined, res_isError = Undefined\<rparr>, w') \<and>
        env w' = [] \<and> length (sent w') = 2)"
proof -
  let ?P = "stub_platform two_pages"
  let ?fail = "Inl (Error ''ECONNRESET'') :: exn + mcp_response nullable"
  let ?w = "\<lparr>env = [Inr (Defined (textResponse ''page1'')),
                  Inr (Defined (textResponse ''page2'')),
                  ?fail, Inr (Defined (textResponse ''last2''))], sent = []\<rparr>"
  have fa: "map_of [(''fetchAllPages'', JBool True)] ''fetchAllPages'' = Some (JBool True)"
    by simp
  have env: "env ?w = Inr (Defined (textResponse ''page1''))
      # map (\<lambda>r. Inr (Defined r)) [textResponse ''page2''] @ ?fail
      # [Inr (Defined (textResponse ''last2''))]"
    by simp
  have l1: "linkedPage ?P (Defined (textResponse ''page1''))"
    and l2: "\<forall>r \<in> set [textResponse ''page2'']. linkedPage ?P (Defined r)"
    by (simp_all add: linkedPage_def two_pages_pageOf validLink_def stub_platform_fields
        stub_URL_skip)
  have ff: "failedFetch ?P ?fail"
    by (simp add: failedFetch_def)
  from C2_pagination_failure_returns_first_response [OF fa list_tool_translate env l1 l2 _ ff]
  have a: "\<exists>w'. handler ?P scripted list_tool [(''fetchAllPages'', JBool True)] ?w
        = (Inr \<lparr>res_content = [\<lparr>item_type = ''text'', item_text = ''page1''\<rparr>],
                res_meta = Some JUndefined, res_isError = Undefined\<rparr>, w') \<and>
        env w' = [Inr (Defined (textResponse ''last2''))] \<and>
        length (sent w') = 3"
    by (auto simp: resultOf_def textResponse_def)
  let ?bad = "Inr (Defined (textResponse ''<html>'')) :: exn + mcp_response nullable"
  let ?v = "\<lparr>env = [Inr (Defined (textResponse ''page1'')), ?bad], sent = []\<rparr>"
  have env2: "env ?v = Inr (Defined (textResponse ''page1''))
      # map (\<lambda>r. Inr (Defined r)) [] @ ?bad # []"
    by simp
  have ff2: "failedFetch ?P ?bad"
    by (simp add: failedFetch_def firstItem_def textResponse_def two_pages_parse)
  from C2_pagination_failure_returns_first_response [OF fa list_tool_translate env2 l1 _ _ ff2]
  have b: "\<exists>w'. handler ?P scripted list_tool [(''fetchAllPages'', JBool True)] ?v
        = (Inr \<lparr>res_content = [\<lparr>item_type = ''text'', item_text = ''page1''\<rparr>],
                res_meta = Some JUndefined, res_isError = Undefined\<rparr>, w') \<and>
        env w' = [] \<and> length (sent w') = 2"
    by (auto simp: resultOf_def textResponse_def)
  from a b show ?thesis by blast
qed

lemma ToString_TypeError:
  "ToString P v = Inl e \<Longrightarrow> \<exists>m. e = TypeError m"
  "Array_join P vs = Inl e \<Longrightarrow> \<exists>m. e = TypeError m"
  by (induction P v and P vs arbitrary: e and e rule: ToString_Array_join.induct)
     (auto split: if_splits sum.splits)

lemma translateParam_TypeError:
  "translateParam P defs st entry = Inl e \<Longrightarrow> \<exists>m. e = TypeError m"
  by (cases entry)
     (auto simp: translateParam_def bindE_def encodeURIComponent_def
           split: if_splits option.splits sum.splits dest: ToString_TypeError(1))

lemma translateParams_TypeError:
  "translateParams P defs st entries = Inl e \<Longrightarrow> \<exists>m. e = TypeError m"
  by (induction entries arbitrary: st)
     (auto split: sum.splits dest: translateParam_TypeError)

lemma translate_TypeError:
  "translate P tool params = Inl e \<Longrightarrow> \<exists>m. e = TypeError m"
  by (auto simp: translate_def bindE_def Let_def split: sum.splits
      dest: translateParams_TypeError)

lemma paginate_shape:
  assumes "paginate P T options params (Defined r) w = (response', w')"
    and "content r = Defined items"
  shows "response' = Defined r \<or>
         (\<exists>item rest c. items = item # rest \<and>
            response' = Defined (r\<lparr>content := Defined (item\<lparr>item_text := JSON_stringify P c\<rparr> # rest)\<rparr>))"
proof (cases "map_of params ''fetchAllPages'' = Some (JBool True) \<and> items \<noteq> []")
  case False
  with assms show ?thesis
    by (auto simp: paginate_def firstItem_def split: if_splits list.splits)
next
  case True
  then obtain item rest where items: "items = item # rest" by (cases items) auto
  obtain c w2 where c: "combinedResponse P T options item w = (c, w2)" by fastforce
  from assms True items c show ?thesis
    by (cases c) (auto simp: paginate_def paginate_try_def firstItem_def)
qed

lemma paginate_missing:
  assumes "firstItem response = None"
  shows "paginate P T options params response w = (response, w)"
  using assms by (auto simp: paginate_def split: nullable.splits)

lemma handler_caught:
  assumes "handler_try P T tool params w = (Inl error, w')"
  shows "handler P T tool params w =
     (case error_message error of
        Inl thrown \<Rightarrow> Inl thrown
      | Inr m \<Rightarrow> Inr (errorBlock P tool m), w')"
  using assms
  by (simp add: handler_def errorResult_def errorBlock_def bindE_def split: sum.splits)

lemma handler_try_first_response:
  assumes "translate P tool params = Inr (p, options)"
    and "T (env w) p options = (Inr response, e')"
  shows "handler_try P T tool params w =
     (case paginate P T options params response \<lparr>env = e', sent = sent w @ [(p, options)]\<rparr> of
        (response', w2) \<Rightarrow> (toResult response', w2))"
  using assms by (simp add: handler_try_def graphRequest_def)

lemma handler_try_thrown:
  assumes "handler_try P T tool params w = (Inl error, w')"
  shows "(\<exists>m. error = TypeError m) \<or>
         (\<exists>p options e'. translate P tool params = Inr (p, options) \<and>
            T (env w) p options = (Inl error, e'))"
proof (cases "translate P tool params")
  case (Inl e)
  with assms have "error = e" by (simp add: handler_try_def)
  with translate_TypeError [OF Inl] show ?thesis by blast
next
  case (Inr po)
  obtain p options where po: "po = (p, options)" by (cases po)
  obtain res e' where t: "T (env w) p options = (res, e')" by fastforce
  show ?thesis
  proof (cases res)
    case (Inl e)
    with assms Inr po t have "error = e"
      by (simp add: handler_try_def graphRequest_def)
    with Inr po t Inl show ?thesis by blast
  next
    case r: (Inr response)
    obtain response' w2 where
      pg: "paginate P T options params response \<lparr>env = e', sent = sent w @ [(p, options)]\<rparr>
             = (response', w2)"
      by fastforce
    from handler_try_first_response [where T = T and w = w, OF Inr [unfolded po] t [unfolded r]] pg assms
    have "toResult response' = Inl error" by simp
    then have "\<exists>m. error = TypeError m"
      by (auto simp: toResult_def split: nullable.splits)
    then show ?thesis by blast
  qed
qed

lemma hang_up_run:
  "combinedResponse (stub_platform two_pages) scripted list_options
      \<lparr>item_type = ''text'', item_text = ''page1''\<rparr>
      \<lparr>env = [Inl (Error ''socket hang up'')], sent = [(''/me/messages'', list_options)]\<rparr>
    = (Inl (Error ''socket hang up''),
       \<lparr>env = [],
        sent = [(''/me/messages'', list_options),
                (''/m'', list_options\<lparr>opt_queryParams := Some [(''skip'', ''1'')]\<rparr>)]\<rparr>)"
proof -
  let ?P = "stub_platform two_pages"
  let ?item = "\<lparr>item_type = ''text'', item_text = ''page1''\<rparr>"
  let ?w1 = "\<lparr>env = [Inl (Error ''socket hang up'')], sent = [(''/me/messages'', list_options)]\<rparr>"
  let ?w2 = "\<lparr>env = [],
        sent = [(''/me/messages'', list_options),
                (''/m'', list_options\<lparr>opt_queryParams := Some [(''skip'', ''1'')]\<rparr>)]\<rparr>"
  have step: "fetchNextPage ?P scripted list_options (JArr [JNum 1])
      (JStr ''https://g/v1.0/m?skip=1'') ?w1 = (Thrown (Error ''socket hang up''), ?w2)"
    using fetchNextPage_throws [of ?P "''https://g/v1.0/m?skip=1''"
        "\<lparr>pathname = ''/v1.0/m'', searchParams = [(''skip'', ''1'')]\<rparr>" scripted ?w1 list_options
        "Error ''socket hang up''" "[]" "JArr [JNum 1]"]
    by (simp add: stub_platform_fields stub_URL_skip strip_version scripted_def)
  have loop: "fetchPages ?P scripted list_options (JArr [JNum 1])
      (JStr ''https://g/v1.0/m?skip=1'') 1 ?w1 = (Inl (Error ''socket hang up''), ?w2)"
    by (rule fetchPages_thrown [OF _ step]) simp
  show ?thesis
    using combinedResponse_page [of ?P ?item _ "[JNum 1]" scripted list_options ?w1,
        OF _ _] two_pages_parse(1) loop
    by simp
qed

text \<open>
  C6, as stated, fails in two ways. At an invocation whose first follow-up request fails,
  the exception is raised in the pagination, it is caught by the inner handler, and the
  result is the first page with the error flag of the first response, not an error
  result. And when the Graph client rejects the first request without a reason, the
  handler itself throws while it reads the message of what it caught, so the exception
  reaches the caller.
\<close>

theorem C6_pagination_exception_counterexample:
  "combinedResponse (stub_platform two_pages) scripted list_options
      \<lparr>item_type = ''text'', item_text = ''page1''\<rparr>
      \<lparr>env = [Inl (Error ''socket hang up'')], sent = [(''/me/messages'', list_options)]\<rparr>
    = (Inl (Error ''socket hang up''),
       \<lparr>env = [],
        sent = [(''/me/messages'', list_options),
                (''/m'', list_options\<lparr>opt_queryParams := Some [(''skip'', ''1'')]\<rparr>)]\<rparr>) \<and>
   fst (handler (stub_platform two_pages) scripted list_tool [(''fetchAllPages'', JBool True)]
      \<lparr>env = [Inr (Defined (textResponse ''page1'')), Inl (Error ''socket hang up'')],
       sent = []\<rparr>)
    = Inr \<lparr>res_content = [\<lparr>item_type = ''text'', item_text = ''page1''\<rparr>],
           res_meta = Some JUndefined, res_isError = Undefined\<rparr> \<and>
   fst (handler (stub_platform two_pages) scripted list_tool []
      \<lparr>env = [Inl ThrownUndefined], sent = []\<rparr>)
    = Inl (TypeError (''Cannot read properties of undefined (reading '' @ [CHR 0x27] @
                       ''message'' @ [CHR 0x27] @ '')''))"
proof -
  let ?P = "stub_platform two_pages"
  let ?item = "\<lparr>item_type = ''text'', item_text = ''page1''\<rparr>"
  let ?w1 = "\<lparr>env = [Inl (Error ''socket hang up'')], sent = [(''/me/messages'', list_options)]\<rparr>"
  let ?w2 = "\<lparr>env = [],
        sent = [(''/me/messages'', list_options),
                (''/m'', list_options\<lparr>opt_queryParams := Some [(''skip'', ''1'')]\<rparr>)]\<rparr>"
  have cr: "combinedResponse ?P scripted list_options ?item ?w1
      = (Inl (Error ''socket hang up''), ?w2)"
    by (rule hang_up_run)
  have "handler_try ?P scripted list_tool [(''fetchAllPages'', JBool True)]
      \<lparr>env = [Inr (Defined (textResponse ''page1'')), Inl (Error ''socket hang up'')], sent = []\<rparr>
    = (Inr \<lparr>res_content = [\<lparr>item_type = ''text'', item_text = ''page1''\<rparr>],
            res_meta = Some JUndefined, res_isError = Undefined\<rparr>, ?w2)"
    using handler_try_paginated [of "[(''fetchAllPages'', JBool True)]" ?P list_tool
        "''/me/messages''" list_options scripted
        "\<lparr>env = [Inr (Defined (textResponse ''page1'')), Inl (Error ''socket hang up'')], sent = []\<rparr>"
        "textResponse ''page1''" "[Inl (Error ''socket hang up'')]" ?item "[]"
        "Inl (Error ''socket hang up'')" ?w2]
      list_tool_translate [of two_pages] cr
    by (simp add: scripted_def textResponse_def)
  then have a: "fst (handler ?P scripted list_tool [(''fetchAllPages'', JBool True)]
      \<lparr>env = [Inr (Defined (textResponse ''page1'')), Inl (Error ''socket hang up'')],
       sent = []\<rparr>)
    = Inr \<lparr>res_content = [\<lparr>item_type = ''text'', item_text = ''page1''\<rparr>],
           res_meta = Some JUndefined, res_isError = Undefined\<rparr>"
    by (simp add: handler_def)
  have "handler_try ?P scripted list_tool [] \<lparr>env = [Inl ThrownUndefined], sent = []\<rparr>
    = (Inl ThrownUndefined, \<lparr>env = [], sent = [(''/me/messages'', list_options)]\<rparr>)"
    using handler_try_transport_throws [of ?P list_tool "[]" "''/me/messages''" list_options
        scripted "\<lparr>env = [Inl ThrownUndefined], sent = []\<rparr>" ThrownUndefined "[]"]
      list_tool_translate_empty [of two_pages]
    by (simp add: scripted_def)
  then have b: "fst (handler ?P scripted list_tool []
      \<lparr>env = [Inl ThrownUndefined], sent = []\<rparr>)
    = Inl (TypeError (''Cannot read properties of undefined (reading '' @ [CHR 0x27] @
                       ''message'' @ [CHR 0x27] @ '')''))"
    by (simp add: handler_def errorResult_def bindE_def cannotRead_def)
  from cr a b show ?thesis by blast
qed

text \<open>
  C6, amended: what the handler returns is determined by the first thing that goes wrong,
  for every Graph client. An exception of the translation (always a TypeError of a
  conversion) gives the error result, with its message, and no request. An Error object
  thrown by the first request gives the error result with its message; \<^verbatim>\<open>undefined\<close> or
  \<^verbatim>\<open>null\<close> thrown there makes the handler throw a TypeError to its caller. A first
  response that is \<^verbatim>\<open>undefined\<close> or \<^verbatim>\<open>null\<close>, or whose content is, makes the assembly
  of the result throw, which gives the error result with the message of that TypeError.
  A first response with a content gives the result built from that response, with its
  metadata and its error flag, whatever happens in the pagination: the items are as they
  came, or the text of the first one is a serialised combined payload; and when the
  pagination throws they are as they came. The handler lets an exception through to its
  caller only when the first request is rejected with \<^verbatim>\<open>undefined\<close> or \<^verbatim>\<open>null\<close>.
\<close>

theorem C6_outer_exception_becomes_error_result:
  "(\<forall>error. translate P tool params = Inl error \<longrightarrow>
      (\<exists>m. error = TypeError m \<and>
           handler P T tool params w = (Inr (errorBlock P tool m), w))) \<and>
   (\<forall>p options error e'.
      translate P tool params = Inr (p, options) \<and> T (env w) p options = (Inl error, e') \<longrightarrow>
      (\<forall>m. error = Error m \<or> error = TypeError m \<or> error = SyntaxError m \<longrightarrow>
         handler P T tool params w =
           (Inr (errorBlock P tool m), \<lparr>env = e', sent = sent w @ [(p, options)]\<rparr>)) \<and>
      (error = ThrownUndefined \<longrightarrow>
         handler P T tool params w =
           (Inl (TypeError (cannotRead ''undefined'' ''message'')),
            \<lparr>env = e', sent = sent w @ [(p, options)]\<rparr>)) \<and>
      (error = ThrownNull \<longrightarrow>
         handler P T tool params w =
           (Inl (TypeError (cannotRead ''null'' ''message'')),
            \<lparr>env = e', sent = sent w @ [(p, options)]\<rparr>))) \<and>
   (\<forall>p options response e'.
      translate P tool params = Inr (p, options) \<and> T (env w) p options = (Inr response, e') \<longrightarrow>
      (response = Undefined \<longrightarrow>
         handler P T tool params w =
           (Inr (errorBlock P tool (cannotRead ''undefined'' ''content'')),
            \<lparr>env = e', sent = sent w @ [(p, options)]\<rparr>)) \<and>
      (response = Null \<longrightarrow>
         handler P T tool params w =
           (Inr (errorBlock P tool (cannotRead ''null'' ''content'')),
            \<lparr>env = e', sent = sent w @ [(p, options)]\<rparr>)) \<and>
      (\<forall>r. response = Defined r \<and> content r = Undefined \<longrightarrow>
         handler P T tool params w =
           (Inr (errorBlock P tool (cannotRead ''undefined'' ''map'')),
            \<lparr>env = e', sent = sent w @ [(p, options)]\<rparr>)) \<and>
      (\<forall>r. response = Defined r \<and> content r = Null \<longrightarrow>
         handler P T tool params w =
           (Inr (errorBlock P tool (cannotRead ''null'' ''map'')),
            \<lparr>env = e', sent = sent w @ [(p, options)]\<rparr>)) \<and>
      (\<forall>r items. response = Defined r \<and> content r = Defined items \<longrightarrow>
         (\<exists>items' w'. handler P T tool params w = (Inr (resultOf r items'), w') \<and>
            (items' = items \<or>
             (\<exists>item rest c. items = item # rest \<and>
                items' = item\<lparr>item_text := JSON_stringify P c\<rparr> # rest)))) \<and>
      (\<forall>r item rest err w2.
         map_of params ''fetchAllPages'' = Some (JBool True) \<and>
         response = Defined r \<and> content r = Defined (item # rest) \<and>
         combinedResponse P T options item \<lparr>env = e', sent = sent w @ [(p, options)]\<rparr>
           = (Inl err, w2) \<longrightarrow>
         handler P T tool params w = (Inr (resultOf r (item # rest)), w2))) \<and>
   (\<forall>thrown w'. handler P T tool params w = (Inl thrown, w') \<longrightarrow>
      (\<exists>p options e'. translate P tool params = Inr (p, options) \<and>
         (T (env w) p options = (Inl ThrownUndefined, e') \<or>
          T (env w) p options = (Inl ThrownNull, e'))))"
proof (intro conjI allI impI)
  fix error
  assume tr: "translate P tool params = Inl error"
  then obtain m where m: "error = TypeError m" by (auto dest: translate_TypeError)
  from tr have "handler_try P T tool params w = (Inl error, w)"
    by (simp add: handler_try_def)
  from handler_caught [OF this] m
  show "\<exists>m. error = TypeError m \<and> handler P T tool params w = (Inr (errorBlock P tool m), w)"
    by simp
next
  fix p options error e' m
  assume h: "translate P tool params = Inr (p, options) \<and> T (env w) p options = (Inl error, e')"
    and e: "error = Error m \<or> error = TypeError m \<or> error = SyntaxError m"
  from h have "handler_try P T tool params w =
      (Inl error, \<lparr>env = e', sent = sent w @ [(p, options)]\<rparr>)"
    by (simp add: handler_try_transport_throws)
  from handler_caught [OF this] e
  show "handler P T tool params w =
           (Inr (errorBlock P tool m), \<lparr>env = e', sent = sent w @ [(p, options)]\<rparr>)"
    by auto
next
  fix p options error e'
  assume h: "translate P tool params = Inr (p, options) \<and> T (env w) p options = (Inl error, e')"
    and e: "error = ThrownUndefined"
  from h have "handler_try P T tool params w =
      (Inl error, \<lparr>env = e', sent = sent w @ [(p, options)]\<rparr>)"
    by (simp add: handler_try_transport_throws)
  from handler_caught [OF this] e
  show "handler P T tool params w =
           (Inl (TypeError (cannotRead ''undefined'' ''message'')),
            \<lparr>env = e', sent = sent w @ [(p, options)]\<rparr>)"
    by simp
next
  fix p options error e'
  assume h: "translate P tool params = Inr (p, options) \<and> T (env w) p options = (Inl error, e')"
    and e: "error = ThrownNull"
  from h have "handler_try P T tool params w =
      (Inl error, \<lparr>env = e', sent = sent w @ [(p, options)]\<rparr>)"
    by (simp add: handler_try_transport_throws)
  from handler_caught [OF this] e
  show "handler P T tool params w =
           (Inl (TypeError (cannotRead ''null'' ''message'')),
            \<lparr>env = e', sent = sent w @ [(p, options)]\<rparr>)"
    by simp
next
  fix p options response e'
  assume h: "translate P tool params = Inr (p, options) \<and> T (env w) p options = (Inr response, e')"
    and r: "response = Undefined"
  from h have ht: "handler_try P T tool params w =
     (case paginate P T options params response \<lparr>env = e', sent = sent w @ [(p, options)]\<rparr> of
        (response', w2) \<Rightarrow> (toResult response', w2))"
    by (simp add: handler_try_first_response)
  from r have "firstItem response = None" by (simp add: firstItem_def)
  with ht r have "handler_try P T tool params w =
      (Inl (TypeError (cannotRead ''undefined'' ''content'')),
       \<lparr>env = e', sent = sent w @ [(p, options)]\<rparr>)"
    by (simp add: paginate_missing toResult_def)
  from handler_caught [OF this]
  show "handler P T tool params w =
           (Inr (errorBlock P tool (cannotRead ''undefined'' ''content'')),
            \<lparr>env = e', sent = sent w @ [(p, options)]\<rparr>)"
    by simp
next
  fix p options response e'
  assume h: "translate P tool params = Inr (p, options) \<and> T (env w) p options = (Inr response, e')"
    and r: "response = Null"
  from h have ht: "handler_try P T tool params w =
     (case paginate P T options params response \<lparr>env = e', sent = sent w @ [(p, options)]\<rparr> of
        (response', w2) \<Rightarrow> (toResult response', w2))"
    by (simp add: handler_try_first_response)
  from r have "firstItem response = None" by (simp add: firstItem_def)
  with ht r have "handler_try P T tool params w =
      (Inl (TypeError (cannotRead ''null'' ''content'')),
       \<lparr>env = e', sent = sent w @ [(p, options)]\<rparr>)"
    by (simp add: paginate_missing toResult_def)
  from handler_caught [OF this]
  show "handler P T tool params w =
           (Inr (errorBlock P tool (cannotRead ''null'' ''content'')),
            \<lparr>env = e', sent = sent w @ [(p, options)]\<rparr>)"
    by simp
next
  fix p options response e' r
  assume h: "translate P tool params = Inr (p, options) \<and> T (env w) p options = (Inr response, e')"
    and r: "response = Defined r \<and> content r = Undefined"
  from h have ht: "handler_try P T tool params w =
     (case paginate P T options params response \<lparr>env = e', sent = sent w @ [(p, options)]\<rparr> of
        (response', w2) \<Rightarrow> (toResult response', w2))"
    by (simp add: handler_try_first_response)
  from r have "firstItem response = None" by (simp add: firstItem_def)
  with ht r have "handler_try P T tool params w =
      (Inl (TypeError (cannotRead ''undefined'' ''map'')),
       \<lparr>env = e', sent = sent w @ [(p, options)]\<rparr>)"
    by (simp add: paginate_missing toResult_def)
  from handler_caught [OF this]
  show "handler P T tool params w =
           (Inr (errorBlock P tool (cannotRead ''undefined'' ''map'')),
            \<lparr>env = e', sent = sent w @ [(p, options)]\<rparr>)"
    by simp
next
  fix p options response e' r
  assume h: "translate P tool params = Inr (p, options) \<and> T (env w) p options = (Inr response, e')"
    and r: "response = Defined r \<and> content r = Null"
  from h have ht: "handler_try P T tool params w =
     (case paginate P T options params response \<lparr>env = e', sent = sent w @ [(p, options)]\<rparr> of
        (response', w2) \<Rightarrow> (toResult response', w2))"
    by (simp add: handler_try_first_response)
  from r have "firstItem response = None" by (simp add: firstItem_def)
  with ht r have "handler_try P T tool params w =
      (Inl (TypeError (cannotRead ''null'' ''map'')),
       \<lparr>env = e', sent = sent w @ [(p, options)]\<rparr>)"
    by (simp add: paginate_missing toResult_def)
  from handler_caught [OF this]
  show "handler P T tool params w =
           (Inr (errorBlock P tool (cannotRead ''null'' ''map'')),
            \<lparr>env = e', sent = sent w @ [(p, options)]\<rparr>)"
    by simp
next
  fix p options response e' r items
  assume h: "translate P tool params = Inr (p, options) \<and> T (env w) p options = (Inr response, e')"
    and r: "response = Defined r \<and> content r = Defined items"
  let ?w1 = "\<lparr>env = e', sent = sent w @ [(p, options)]\<rparr>"
  obtain response' w2 where pg: "paginate P T options params (Defined r) ?w1 = (response', w2)"
    by fastforce
  from h r pg have ht: "handler_try P T tool params w = (toResult response', w2)"
    by (simp add: handler_try_first_response)
  from paginate_shape [OF pg] r
  consider "response' = Defined r"
    | item rest c where "items = item # rest"
        "response' = Defined (r\<lparr>content := Defined (item\<lparr>item_text := JSON_stringify P c\<rparr> # rest)\<rparr>)"
    by blast
  then show "\<exists>items' w'. handler P T tool params w = (Inr (resultOf r items'), w') \<and>
            (items' = items \<or>
             (\<exists>item rest c. items = item # rest \<and>
                items' = item\<lparr>item_text := JSON_stringify P c\<rparr> # rest))"
  proof cases
    case 1
    with ht r have "handler P T tool params w = (Inr (resultOf r items), w2)"
      by (simp add: handler_def toResult_def resultOf_def)
    then show ?thesis by blast
  next
    case 2
    with ht have "handler P T tool params w =
        (Inr (resultOf r (item\<lparr>item_text := JSON_stringify P c\<rparr> # rest)), w2)"
      by (simp add: handler_def toResult_def resultOf_def)
    with 2(1) show ?thesis by blast
  qed
next
  fix p options response e' r item rest err w2
  assume h: "translate P tool params = Inr (p, options) \<and> T (env w) p options = (Inr response, e')"
    and r: "map_of params ''fetchAllPages'' = Some (JBool True) \<and>
         response = Defined r \<and> content r = Defined (item # rest) \<and>
         combinedResponse P T options item \<lparr>env = e', sent = sent w @ [(p, options)]\<rparr>
           = (Inl err, w2)"
  from h r have t: "T (env w) p options = (Inr (Defined r), e')" by simp
  from handler_try_paginated [where T = T and w = w, OF r [THEN conjunct1] h [THEN conjunct1] t
      r [THEN conjunct2, THEN conjunct2, THEN conjunct1]
      r [THEN conjunct2, THEN conjunct2, THEN conjunct2]]
  show "handler P T tool params w = (Inr (resultOf r (item # rest)), w2)"
    by (simp add: handler_def resultOf_def)
next
  fix thrown w'
  assume h: "handler P T tool params w = (Inl thrown, w')"
  obtain res w1 where ht: "handler_try P T tool params w = (res, w1)" by fastforce
  from h ht obtain error where res: "res = Inl error"
    by (cases res) (simp_all add: handler_def)
  from handler_caught [OF ht [unfolded res]] h
  have em: "error_message error = Inl thrown" by (simp split: sum.splits)
  then have nullish: "error = ThrownUndefined \<or> error = ThrownNull"
    by (cases error) simp_all
  with handler_try_thrown [OF ht [unfolded res]]
  show "\<exists>p options e'. translate P tool params = Inr (p, options) \<and>
         (T (env w) p options = (Inl ThrownUndefined, e') \<or>
          T (env w) p options = (Inl ThrownNull, e'))"
    by auto
qed

theorem C6_outer_exception_becomes_error_result_witness:
  "handler (stub_platform two_pages) scripted list_tool [(''top'', JObj [(''toString'', JNum 1)])]
      \<lparr>env = [], sent = []\<rparr>
    = (Inr \<lparr>res_content =
              [\<lparr>item_type = ''text'',
                item_text = stub_stringify
                  (JObj [(''error'', JStr (''Error in tool list-mail-messages: '' @
                                            ''Cannot convert object to primitive value''))])\<rparr>],
            res_meta = None, res_isError = Defined True\<rparr>,
       \<lparr>env = [], sent = []\<rparr>) \<and>
   handler (stub_platform two_pages) scripted list_tool []
      \<lparr>env = [Inl (Error ''401 Unauthorized'')], sent = []\<rparr>
    = (Inr \<lparr>res_content =
              [\<lparr>item_type = ''text'',
                item_text = stub_stringify
                  (JObj [(''error'', JStr ''Error in tool list-mail-messages: 401 Unauthorized'')])\<rparr>],
            res_meta = None, res_isError = Defined True\<rparr>,
       \<lparr>env = [], sent = [(''/me/messages'', list_options)]\<rparr>) \<and>
   handler (stub_platform two_pages) scripted list_tool []
      \<lparr>env = [Inl ThrownNull], sent = []\<rparr>
    = (Inl (TypeError (''Cannot read properties of null (reading '' @ [CHR 0x27] @
                        ''message'' @ [CHR 0x27] @ '')'')),
       \<lparr>env = [], sent = [(''/me/messages'', list_options)]\<rparr>) \<and>
   (\<exists>p options e'. translate (stub_platform two_pages) list_tool [] = Inr (p, options) \<and>
      (scripted [Inl ThrownNull] p options = (Inl ThrownUndefined, e') \<or>
       scripted [Inl ThrownNull] p options = (Inl ThrownNull, e'))) \<and>
   handler (stub_platform two_pages) scripted list_tool []
      \<lparr>env = [Inl ThrownUndefined], sent = []\<rparr>
    = (Inl (TypeError (''Cannot read properties of undefined (reading '' @ [CHR 0x27] @
                        ''message'' @ [CHR 0x27] @ '')'')),
       \<lparr>env = [], sent = [(''/me/messages'', list_options)]\<rparr>) \<and>
   handler (stub_platform two_pages) scripted list_tool []
      \<lparr>env = [Inr Undefined], sent = []\<rparr>
    = (Inr \<lparr>res_content =
              [\<lparr>item_type = ''text'',
                item_text = stub_stringify
                  (JObj [(''error'', JStr (''Error in tool list-mail-messages: '' @
                     ''Cannot read properties of undefined (reading '' @ [CHR 0x27] @
                     ''content'' @ [CHR 0x27] @ '')''))])\<rparr>],
            res_meta = None, res_isError = Defined True\<rparr>,
       \<lparr>env = [], sent = [(''/me/messages'', list_options)]\<rparr>) \<and>
   handler (stub_platform two_pages) scripted list_tool []
      \<lparr>env = [Inr (Defined \<lparr>content = Null, meta = JNull, isError = Undefined\<rparr>)],
       sent = []\<rparr>
    = (Inr \<lparr>res_content =
              [\<lparr>item_type = ''text'',
                item_text = stub_stringify
                  (JObj [(''error'', JStr (''Error in tool list-mail-messages: '' @
                     ''Cannot read properties of null (reading '' @ [CHR 0x27] @
                     ''map'' @ [CHR 0x27] @ '')''))])\<rparr>],
            res_meta = None, res_isError = Defined True\<rparr>,
       \<lparr>env = [], sent = [(''/me/messages'', list_options)]\<rparr>) \<and>
   handler (stub_platform two_pages) scripted list_tool []
      \<lparr>env = [Inr Null], sent = []\<rparr>
    = (Inr \<lparr>res_content =
              [\<lparr>item_type = ''text'',
                item_text = stub_stringify
                  (JObj [(''error'', JStr (''Error in tool list-mail-messages: '' @
                     ''Cannot read properties of null (reading '' @ [CHR 0x27] @
                     ''content'' @ [CHR 0x27] @ '')''))])\<rparr>],
            res_meta = None, res_isError = Defined True\<rparr>,
       \<lparr>env = [], sent = [(''/me/messages'', list_options)]\<rparr>) \<and>
   handler (stub_platform two_pages) scripted list_tool []
      \<lparr>env = [Inr (Defined \<lparr>content = Undefined, meta = JNull, isError = Undefined\<rparr>)],
       sent = []\<rparr>
    = (Inr \<lparr>res_content =
              [\<lparr>item_type = ''text'',
                item_text = stub_stringify
                  (JObj [(''error'', JStr (''Error in tool list-mail-messages: '' @
                     ''Cannot read properties of undefined (reading '' @ [CHR 0x27] @
                     ''map'' @ [CHR 0x27] @ '')''))])\<rparr>],
            res_meta = None, res_isError = Defined True\<rparr>,
       \<lparr>env = [], sent = [(''/me/messages'', list_options)]\<rparr>) \<and>
   (\<exists>items' w'. handler (stub_platform two_pages) scripted list_tool []
        \<lparr>env = [Inr (Defined (textResponse ''page1''))], sent = []\<rparr>
      = (Inr (resultOf (textResponse ''page1'') items'), w') \<and>
      (items' = [\<lparr>item_type = ''text'', item_text = ''page1''\<rparr>] \<or>
       (\<exists>c. items' = [\<lparr>item_type = ''text'', item_text = stub_stringify c\<rparr>]))) \<and>
   handler (stub_platform two_pages) scripted list_tool [(''fetchAllPages'', JBool True)]
      \<lparr>env = [Inr (Defined (textResponse ''page1'')), Inl (Error ''socket hang up'')],
       sent = []\<rparr>
    = (Inr \<lparr>res_content = [\<lparr>item_type = ''text'', item_text = ''page1''\<rparr>],
            res_meta = Some JUndefined, res_isError = Undefined\<rparr>,
       \<lparr>env = [],
        sent = [(''/me/messages'', list_options),
                (''/m'', list_options\<lparr>opt_queryParams := Some [(''skip'', ''1'')]\<rparr>)]\<rparr>)"
proof -
  let ?P = "stub_platform two_pages"
  let ?fa = "[(''fetchAllPages'', JBool True)]"
  let ?bad = "[(''top'', JObj [(''toString'', JNum 1)])]"
  note tr = list_tool_translate_empty [of two_pages]
  have blk: "errorBlock ?P list_tool m =
      \<lparr>res_content =
         [\<lparr>item_type = ''text'',
           item_text = stub_stringify
             (JObj [(''error'', JStr (''Error in tool list-mail-messages: '' @ m))])\<rparr>],
       res_meta = None, res_isError = Defined True\<rparr>" for m
    by (simp add: errorBlock_def stub_platform_fields list_tool_def)
  let ?w0 = "\<lparr>env = [], sent = []\<rparr> :: (exn + mcp_response nullable) list world"
  note i0 = C6_outer_exception_becomes_error_result [of ?P list_tool ?bad scripted ?w0]
  from i0 [THEN conjunct1, rule_format, OF list_tool_translate_throws [of two_pages]]
  have c0: "handler ?P scripted list_tool ?bad ?w0 =
      (Inr (errorBlock ?P list_tool ''Cannot convert object to primitive value''), ?w0)"
    by simp
  let ?w1 = "\<lparr>env = [Inl (Error ''401 Unauthorized'')], sent = []\<rparr>"
  have t1: "scripted (env ?w1) ''/me/messages'' list_options = (Inl (Error ''401 Unauthorized''), [])"
    by (simp add: scripted_def)
  note i1 = C6_outer_exception_becomes_error_result [of ?P list_tool "[]" scripted ?w1]
  from i1 [THEN conjunct2, THEN conjunct1, rule_format, OF conjI [OF tr t1], THEN conjunct1,
      rule_format, of "''401 Unauthorized''"]
  have c1: "handler ?P scripted list_tool [] ?w1 =
      (Inr (errorBlock ?P list_tool ''401 Unauthorized''),
       \<lparr>env = [], sent = [(''/me/messages'', list_options)]\<rparr>)"
    by simp
  let ?w2 = "\<lparr>env = [Inl ThrownNull], sent = []\<rparr>"
  have t2: "scripted (env ?w2) ''/me/messages'' list_options = (Inl ThrownNull, [])"
    by (simp add: scripted_def)
  note i2 = C6_outer_exception_becomes_error_result [of ?P list_tool "[]" scripted ?w2]
  from i2 [THEN conjunct2, THEN conjunct1, rule_format, OF conjI [OF tr t2], THEN conjunct2,
      THEN conjunct2, rule_format]
  have c2: "handler ?P scripted list_tool [] ?w2 =
      (Inl (TypeError (''Cannot read properties of null (reading '' @ [CHR 0x27] @
                        ''message'' @ [CHR 0x27] @ '')'')),
       \<lparr>env = [], sent = [(''/me/messages'', list_options)]\<rparr>)"
    by (simp add: cannotRead_def)
  from i2 [THEN conjunct2, THEN conjunct2, THEN conjunct2, rule_format, OF c2]
  have c2': "\<exists>p options e'. translate ?P list_tool [] = Inr (p, options) \<and>
      (scripted [Inl ThrownNull] p options = (Inl ThrownUndefined, e') \<or>
       scripted [Inl ThrownNull] p options = (Inl ThrownNull, e'))"
    by simp
  let ?w7 = "\<lparr>env = [Inl ThrownUndefined], sent = []\<rparr>"
  have t7: "scripted (env ?w7) ''/me/messages'' list_options = (Inl ThrownUndefined, [])"
    by (simp add: scripted_def)
  note i7 = C6_outer_exception_becomes_error_result [of ?P list_tool "[]" scripted ?w7]
  from i7 [THEN conjunct2, THEN conjunct1, rule_format, OF conjI [OF tr t7], THEN conjunct2,
      THEN conjunct1, rule_format]
  have c7: "handler ?P scripted list_tool [] ?w7 =
      (Inl (TypeError (''Cannot read properties of undefined (reading '' @ [CHR 0x27] @
                        ''message'' @ [CHR 0x27] @ '')'')),
       \<lparr>env = [], sent = [(''/me/messages'', list_options)]\<rparr>)"
    by (simp add: cannotRead_def)
  let ?w8 = "\<lparr>env = [Inr Undefined], sent = []\<rparr> :: (exn + mcp_response nullable) list world"
  have t8: "scripted (env ?w8) ''/me/messages'' list_options = (Inr Undefined, [])"
    by (simp add: scripted_def)
  note i8 = C6_outer_exception_becomes_error_result [of ?P list_tool "[]" scripted ?w8]
  from i8 [THEN conjunct2, THEN conjunct2, THEN conjunct1, rule_format, OF conjI [OF tr t8],
      THEN conjunct1, rule_format]
  have c8: "handler ?P scripted list_tool [] ?w8 =
      (Inr (errorBlock ?P list_tool (cannotRead ''undefined'' ''content'')),
       \<lparr>env = [], sent = [(''/me/messages'', list_options)]\<rparr>)"
    by simp
  let ?r9 = "\<lparr>content = Null, meta = JNull, isError = Undefined\<rparr>"
  let ?w9 = "\<lparr>env = [Inr (Defined ?r9)], sent = []\<rparr>"
  have t9: "scripted (env ?w9) ''/me/messages'' list_options = (Inr (Defined ?r9), [])"
    by (simp add: scripted_def)
  note i9 = C6_outer_exception_becomes_error_result [of ?P list_tool "[]" scripted ?w9]
  from i9 [THEN conjunct2, THEN conjunct2, THEN conjunct1, rule_format, OF conjI [OF tr t9],
      THEN conjunct2, THEN conjunct2, THEN conjunct2, THEN conjunct1, rule_format, of ?r9]
  have c9: "handler ?P scripted list_tool [] ?w9 =
      (Inr (errorBlock ?P list_tool (cannotRead ''null'' ''map'')),
       \<lparr>env = [], sent = [(''/me/messages'', list_options)]\<rparr>)"
    by simp
  let ?w3 = "\<lparr>env = [Inr Null], sent = []\<rparr> :: (exn + mcp_response nullable) list world"
  have t3: "scripted (env ?w3) ''/me/messages'' list_options = (Inr Null, [])"
    by (simp add: scripted_def)
  note i3 = C6_outer_exception_becomes_error_result [of ?P list_tool "[]" scripted ?w3]
  from i3 [THEN conjunct2, THEN conjunct2, THEN conjunct1, rule_format, OF conjI [OF tr t3],
      THEN conjunct2, THEN conjunct1, rule_format]
  have c3: "handler ?P scripted list_tool [] ?w3 =
      (Inr (errorBlock ?P list_tool (cannotRead ''null'' ''content'')),
       \<lparr>env = [], sent = [(''/me/messages'', list_options)]\<rparr>)"
    by simp
  let ?r4 = "\<lparr>content = Undefined, meta = JNull, isError = Undefined\<rparr>"
  let ?w4 = "\<lparr>env = [Inr (Defined ?r4)], sent = []\<rparr>"
  have t4: "scripted (env ?w4) ''/me/messages'' list_options = (Inr (Defined ?r4), [])"
    by (simp add: scripted_def)
  note i4 = C6_outer_exception_becomes_error_result [of ?P list_tool "[]" scripted ?w4]
  from i4 [THEN conjunct2, THEN conjunct2, THEN conjunct1, rule_format, OF conjI [OF tr t4],
      THEN conjunct2, THEN conjunct2, THEN conjunct1, rule_format, of ?r4]
  have c4: "handler ?P scripted list_tool [] ?w4 =
      (Inr (errorBlock ?P list_tool (cannotRead ''undefined'' ''map'')),
       \<lparr>env = [], sent = [(''/me/messages'', list_options)]\<rparr>)"
    by simp
  let ?w5 = "\<lparr>env = [Inr (Defined (textResponse ''page1''))], sent = []\<rparr>"
  have t5: "scripted (env ?w5) ''/me/messages'' list_options
      = (Inr (Defined (textResponse ''page1'')), [])"
    by (simp add: scripted_def)
  note i5 = C6_outer_exception_becomes_error_result [of ?P list_tool "[]" scripted ?w5]
  from i5 [THEN conjunct2, THEN conjunct2, THEN conjunct1, rule_format, OF conjI [OF tr t5],
      THEN conjunct2, THEN conjunct2, THEN conjunct2, THEN conjunct2, THEN conjunct1,
      rule_format, of "textResponse ''page1''" "[\<lparr>item_type = ''text'', item_text = ''page1''\<rparr>]"]
  have c5: "\<exists>items' w'. handler ?P scripted list_tool [] ?w5
      = (Inr (resultOf (textResponse ''page1'') items'), w') \<and>
      (items' = [\<lparr>item_type = ''text'', item_text = ''page1''\<rparr>] \<or>
       (\<exists>c. items' = [\<lparr>item_type = ''text'', item_text = stub_stringify c\<rparr>]))"
    by (simp add: textResponse_def stub_platform_fields)
  let ?w6 = "\<lparr>env = [Inr (Defined (textResponse ''page1'')), Inl (Error ''socket hang up'')],
              sent = []\<rparr>"
  have t6: "scripted (env ?w6) ''/me/messages'' list_options
      = (Inr (Defined (textResponse ''page1'')), [Inl (Error ''socket hang up'')])"
    by (simp add: scripted_def)
  note i6 = C6_outer_exception_becomes_error_result [of ?P list_tool ?fa scripted ?w6]
  from i6 [THEN conjunct2, THEN conjunct2, THEN conjunct1, rule_format,
      OF conjI [OF list_tool_translate [of two_pages] t6],
      THEN conjunct2, THEN conjunct2, THEN conjunct2, THEN conjunct2, THEN conjunct2,
      rule_format, of "textResponse ''page1''" "\<lparr>item_type = ''text'', item_text = ''page1''\<rparr>"
        "[]" "Error ''socket hang up''"
        "\<lparr>env = [],
          sent = [(''/me/messages'', list_options),
                  (''/m'', list_options\<lparr>opt_queryParams := Some [(''skip'', ''1'')]\<rparr>)]\<rparr>"]
    hang_up_run
  have c6: "handler ?P scripted list_tool ?fa ?w6 =
      (Inr \<lparr>res_content = [\<lparr>item_type = ''text'', item_text = ''page1''\<rparr>],
            res_meta = Some JUndefined, res_isError = Undefined\<rparr>,
       \<lparr>env = [],
        sent = [(''/me/messages'', list_options),
                (''/m'', list_options\<lparr>opt_queryParams := Some [(''skip'', ''1'')]\<rparr>)]\<rparr>)"
    by (simp add: textResponse_def resultOf_def)
  from c8 c9 have "handler ?P scripted list_tool [] ?w8 =
      (Inr (errorBlock ?P list_tool (cannotRead ''undefined'' ''content'')),
       \<lparr>env = [], sent = [(''/me/messages'', list_options)]\<rparr>) \<and>
    handler ?P scripted list_tool [] ?w9 =
      (Inr (errorBlock ?P list_tool (cannotRead ''null'' ''map'')),
       \<lparr>env = [], sent = [(''/me/messages'', list_options)]\<rparr>)"
    by blast
  then have errs2: "handler ?P scripted list_tool [] ?w8 =
      (Inr \<lparr>res_content =
              [\<lparr>item_type = ''text'',
                item_text = stub_stringify
                  (JObj [(''error'', JStr (''Error in tool list-mail-messages: '' @
                     ''Cannot read properties of undefined (reading '' @ [CHR 0x27] @
                     ''content'' @ [CHR 0x27] @ '')''))])\<rparr>],
            res_meta = None, res_isError = Defined True\<rparr>,
       \<lparr>env = [], sent = [(''/me/messages'', list_options)]\<rparr>) \<and>
    handler ?P scripted list_tool [] ?w9 =
      (Inr \<lparr>res_content =
              [\<lparr>item_type = ''text'',
                item_text = stub_stringify
                  (JObj [(''error'', JStr (''Error in tool list-mail-messages: '' @
                     ''Cannot read properties of null (reading '' @ [CHR 0x27] @
                     ''map'' @ [CHR 0x27] @ '')''))])\<rparr>],
            res_meta = None, res_isError = Defined True\<rparr>,
       \<lparr>env = [], sent = [(''/me/messages'', list_options)]\<rparr>)"
    by (simp add: blk cannotRead_def)
  from c0 c1 c2 c3 c4 c6 have "handler ?P scripted list_tool ?bad ?w0 =
      (Inr (errorBlock ?P list_tool ''Cannot convert object to primitive value''), ?w0) \<and>
    handler ?P scripted list_tool [] ?w1 =
      (Inr (errorBlock ?P list_tool ''401 Unauthorized''),
       \<lparr>env = [], sent = [(''/me/messages'', list_options)]\<rparr>) \<and>
    handler ?P scripted list_tool [] ?w3 =
      (Inr (errorBlock ?P list_tool (cannotRead ''null'' ''content'')),
       \<lparr>env = [], sent = [(''/me/messages'', list_options)]\<rparr>) \<and>
    handler ?P scripted list_tool [] ?w4 =
      (Inr (errorBlock ?P list_tool (cannotRead ''undefined'' ''map'')),
       \<lparr>env = [], sent = [(''/me/messages'', list_options)]\<rparr>)"
    by blast
  then have errs: "handler ?P scripted list_tool ?bad ?w0 =
      (Inr \<lparr>res_content =
              [\<lparr>item_type = ''text'',
                item_text = stub_stringify
                  (JObj [(''error'', JStr (''Error in tool list-mail-messages: '' @
                                            ''Cannot convert object to primitive value''))])\<rparr>],
            res_meta = None, res_isError = Defined True\<rparr>, ?w0) \<and>
    handler ?P scripted list_tool [] ?w1 =
      (Inr \<lparr>res_content =
              [\<lparr>item_type = ''text'',
                item_text = stub_stringify
                  (JObj [(''error'', JStr ''Error in tool list-mail-messages: 401 Unauthorized'')])\<rparr>],
            res_meta = None, res_isError = Defined True\<rparr>,
       \<lparr>env = [], sent = [(''/me/messages'', list_options)]\<rparr>) \<and>
    handler ?P scripted list_tool [] ?w3 =
      (Inr \<lparr>res_content =
              [\<lparr>item_type = ''text'',
                item_text = stub_stringify
                  (JObj [(''error'', JStr (''Error in tool list-mail-messages: '' @
                     ''Cannot read properties of null (reading '' @ [CHR 0x27] @
                     ''content'' @ [CHR 0x27] @ '')''))])\<rparr>],
            res_meta = None, res_isError = Defined True\<rparr>,
       \<lparr>env = [], sent = [(''/me/messages'', list_options)]\<rparr>) \<and>
    handler ?P scripted list_tool [] ?w4 =
      (Inr \<lparr>res_content =
              [\<lparr>item_type = ''text'',
                item_text = stub_stringify
                  (JObj [(''error'', JStr (''Error in tool list-mail-messages: '' @
                     ''Cannot read properties of undefined (reading '' @ [CHR 0x27] @
                     ''map'' @ [CHR 0x27] @ '')''))])\<rparr>],
            res_meta = None, res_isError = Defined True\<rparr>,
       \<lparr>env = [], sent = [(''/me/messages'', list_options)]\<rparr>)"
    by (simp add: blk cannotRead_def)
  from errs errs2 c2 c2' c7 c5 c6 show ?thesis by blast
qed

end
